(* ===== verification/Prelude.thy ===== *)
theory Prelude
  imports Main
begin

text \<open>
  What every component of the development shares.

  Fallible code.  A Rust \<^verbatim>\<open>Result<A, E>\<close> is the sum \<^typ>\<open>'e + 'a\<close>, with the abbreviations
  \<open>Ok\<close> and \<open>Err\<close>, and the question mark operator is \<open>and_then\<close>.  Code that can also panic
  (\<^verbatim>\<open>unreachable!\<close>, \<^verbatim>\<open>expect\<close>, an overflow check) returns \<open>'e fault + 'a\<close>: \<open>Panicked\<close> is a
  value of the model, so that the absence of a panic is a theorem and never an assumption.

  Strings.  A Rust \<^verbatim>\<open>String\<close> is its UTF-8 byte sequence, and \<^typ>\<open>char\<close> is a byte, so
  \<^typ>\<open>string\<close> models \<^verbatim>\<open>String\<close> and \<^verbatim>\<open>&str\<close> byte for byte.
\<close>

named_theorems fault_iffs \<open>characterisations of the outcomes of the fallible combinators\<close>
named_theorems frame_simps \<open>unfolding of the frame, header and binding operations\<close>
named_theorems channel_simps \<open>unfolding of the channel specification's operations\<close>

subsection \<open>Results\<close>

type_synonym ('a, 'e) result = "'e + 'a"

abbreviation Ok :: "'a \<Rightarrow> 'e + 'a" where
  "Ok \<equiv> Inr"

abbreviation Err :: "'e \<Rightarrow> 'e + 'a" where
  "Err \<equiv> Inl"

datatype 'e fault = Panicked | Failed 'e

type_synonym ('a, 'e) exec = "'e fault + 'a"

definition and_then :: "'e + 'a \<Rightarrow> ('a \<Rightarrow> 'e + 'b) \<Rightarrow> 'e + 'b" where
  "and_then m f = (case m of Inl e \<Rightarrow> Inl e | Inr x \<Rightarrow> f x)"

definition map_err :: "('e \<Rightarrow> 'f) \<Rightarrow> 'e + 'a \<Rightarrow> 'f + 'a" where
  "map_err g m = (case m of Inl e \<Rightarrow> Inl (g e) | Inr x \<Rightarrow> Inr x)"

definition ok_or :: "'e \<Rightarrow> 'a option \<Rightarrow> 'e + 'a" where
  "ok_or e v = (case v of None \<Rightarrow> Inl e | Some x \<Rightarrow> Inr x)"

definition expect :: "'a option \<Rightarrow> 'e fault + 'a" where
  "expect v = (case v of None \<Rightarrow> Inl Panicked | Some x \<Rightarrow> Inr x)"

definition returning :: "'e + 'a \<Rightarrow> 'e fault + 'a" where
  "returning m = map_err Failed m"

definition never_panics :: "'e fault + 'a \<Rightarrow> bool" where
  "never_panics m \<longleftrightarrow> m \<noteq> Inl Panicked"

definition result_ok :: "'e + 'a \<Rightarrow> 'a option" where
  "result_ok m = (case m of Inl e \<Rightarrow> None | Inr x \<Rightarrow> Some x)"

lemma and_then_simps [simp]:
  "and_then (Inl e) f = Inl e" "and_then (Inr x) f = f x"
  by (simp_all add: and_then_def)

lemma map_err_simps [simp]:
  "map_err g (Inl e) = Inl (g e)" "map_err g (Inr x) = Inr x"
  by (simp_all add: map_err_def)

lemma ok_or_simps [simp]: "ok_or e None = Inl e" "ok_or e (Some x) = Inr x"
  by (simp_all add: ok_or_def)

lemma expect_simps [simp]: "expect None = Inl Panicked" "expect (Some x) = Inr x"
  by (simp_all add: expect_def)

lemma returning_simps [simp]:
  "returning (Inl e) = Inl (Failed e)" "returning (Inr x) = Inr x"
  by (simp_all add: returning_def)

lemma result_ok_simps [simp]: "result_ok (Inl e) = None" "result_ok (Inr x) = Some x"
  by (simp_all add: result_ok_def)

lemma and_then_cong [fundef_cong]:
  "m = m' \<Longrightarrow> (\<And>x. m' = Inr x \<Longrightarrow> f x = g x) \<Longrightarrow> and_then m f = and_then m' g"
  by (cases m') simp_all

lemma and_then_assoc: "and_then (and_then m f) g = and_then m (\<lambda>x. and_then (f x) g)"
  by (cases m) simp_all

lemma and_then_return [simp]: "and_then m Inr = m"
  by (cases m) simp_all

lemma and_then_Inr_iff [fault_iffs]:
  "and_then m f = Inr y \<longleftrightarrow> (\<exists>x. m = Inr x \<and> f x = Inr y)"
  by (cases m) simp_all

lemma and_then_Inl_iff [fault_iffs]:
  "and_then m f = Inl e \<longleftrightarrow> m = Inl e \<or> (\<exists>x. m = Inr x \<and> f x = Inl e)"
  by (cases m) auto

lemma map_err_Inr_iff [fault_iffs]: "map_err g m = Inr x \<longleftrightarrow> m = Inr x"
  by (cases m) simp_all

lemma map_err_Inl_iff [fault_iffs]: "map_err g m = Inl e \<longleftrightarrow> (\<exists>d. m = Inl d \<and> e = g d)"
  by (cases m) auto

lemma ok_or_Inr_iff [fault_iffs]: "ok_or e v = Inr x \<longleftrightarrow> v = Some x"
  by (cases v) simp_all

lemma ok_or_Inl_iff [fault_iffs]: "ok_or e v = Inl d \<longleftrightarrow> v = None \<and> d = e"
  by (cases v) auto

lemma expect_Inr_iff [fault_iffs]: "expect v = Inr x \<longleftrightarrow> v = Some x"
  by (cases v) simp_all

lemma expect_Inl_iff [fault_iffs]: "expect v = Inl d \<longleftrightarrow> v = None \<and> d = Panicked"
  by (cases v) auto

lemma returning_Inr_iff [fault_iffs]: "returning m = Inr x \<longleftrightarrow> m = Inr x"
  by (cases m) simp_all

lemma returning_Inl_iff [fault_iffs]: "returning m = Inl f \<longleftrightarrow> (\<exists>e. m = Inl e \<and> f = Failed e)"
  by (cases m) auto

lemma result_ok_Some_iff [fault_iffs]: "result_ok m = Some x \<longleftrightarrow> m = Inr x"
  by (cases m) simp_all

lemma never_panics_simps [simp]:
  "never_panics (Inr x)" "never_panics (Inl (Failed e))" "\<not> never_panics (Inl Panicked)"
  by (simp_all add: never_panics_def)

lemma never_panics_returning [simp, intro]: "never_panics (returning m)"
  by (cases m) simp_all

lemma never_panics_and_then [intro]:
  "never_panics m \<Longrightarrow> (\<And>x. m = Inr x \<Longrightarrow> never_panics (f x)) \<Longrightarrow> never_panics (and_then m f)"
  by (cases m) (auto simp: never_panics_def)

text \<open>Converting the error of code that can also panic.\<close>

primrec map_fault :: "('a \<Rightarrow> 'b) \<Rightarrow> 'a fault \<Rightarrow> 'b fault" where
  "map_fault g Panicked = Panicked"
| "map_fault g (Failed e) = Failed (g e)"

lemma never_panics_map_fault [simp]: "never_panics (map_err (map_fault g) m) \<longleftrightarrow> never_panics m"
proof (cases m)
  case (Inl f)
  then show ?thesis by (cases f) simp_all
qed simp

lemma map_fault_Failed_iff [fault_iffs]:
  "map_err (map_fault g) m = Inl (Failed e) \<longleftrightarrow> (\<exists>d. m = Inl (Failed d) \<and> e = g d)"
proof (cases m)
  case (Inl f)
  then show ?thesis by (cases f) auto
qed simp

subsection \<open>Collecting results\<close>

text \<open>\<open>collect_results\<close> is \<^verbatim>\<open>collect::<Result<Vec<_>, _>>()\<close>: the first error, or all the values.\<close>

fun collect_results :: "('e + 'a) list \<Rightarrow> 'e + 'a list" where
  "collect_results [] = Ok []"
| "collect_results (m # ms) =
     and_then m (\<lambda>x. and_then (collect_results ms) (\<lambda>xs. Ok (x # xs)))"

lemma collect_results_Inr_iff [fault_iffs]:
  "collect_results ms = Inr xs \<longleftrightarrow> ms = map Inr xs"
  by (induction ms arbitrary: xs) (auto simp: and_then_Inr_iff)

lemma collect_results_map_Ok [simp]:
  "(\<And>x. x \<in> set xs \<Longrightarrow> f x = Inr (g x)) \<Longrightarrow> collect_results (map f xs) = Inr (map g xs)"
  by (simp add: collect_results_Inr_iff)

text \<open>\<open>check_each\<close> is a loop that returns at the first element its body refuses.\<close>

fun check_each :: "('a \<Rightarrow> 'e + unit) \<Rightarrow> 'a list \<Rightarrow> 'e + unit" where
  "check_each f [] = Ok ()"
| "check_each f (x # xs) = and_then (f x) (\<lambda>_. check_each f xs)"

lemma check_each_Ok_iff [fault_iffs]:
  "check_each f xs = Inr u \<longleftrightarrow> (\<forall>x \<in> set xs. f x = Inr ())"
  by (induction xs) (auto simp: and_then_Inr_iff)

lemma check_each_never_panics:
  "(\<And>x. x \<in> set xs \<Longrightarrow> never_panics (f x)) \<Longrightarrow> never_panics (check_each f xs)"
  by (induction xs) auto

lemma check_each_append:
  "check_each f (xs @ ys) = and_then (check_each f xs) (\<lambda>_. check_each f ys)"
  by (induction xs) (auto simp: and_then_assoc)

subsection \<open>First matching arm\<close>

text \<open>
  \<open>first_match\<close> is a generated \<^verbatim>\<open>match\<close>: arms are tried in order and the first whose pattern
  accepts the scrutinee decides.
\<close>

fun first_match :: "('s \<Rightarrow> 'r option) list \<Rightarrow> 's \<Rightarrow> 'r option" where
  "first_match [] s = None"
| "first_match (arm # arms) s = (case arm s of Some r \<Rightarrow> Some r | None \<Rightarrow> first_match arms s)"

lemma first_match_append:
  "first_match (as @ bs) s = (case first_match as s of Some r \<Rightarrow> Some r | None \<Rightarrow> first_match bs s)"
  by (induction as) (auto split: option.splits)

lemma first_match_None_iff: "first_match arms s = None \<longleftrightarrow> (\<forall>arm \<in> set arms. arm s = None)"
  by (induction arms) (auto split: option.splits)

subsection \<open>Lists\<close>

lemma find_distinct:
  "distinct (map key xs) \<Longrightarrow> x \<in> set xs \<Longrightarrow> find (\<lambda>y. key y = key x) xs = Some x"
  by (induction xs) force+

lemma find_Some_member: "find P xs = Some x \<Longrightarrow> x \<in> set xs \<and> P x"
  by (induction xs) (auto split: if_splits)

lemma find_None_iff_member: "find P xs = None \<longleftrightarrow> (\<forall>x \<in> set xs. \<not> P x)"
  by (induction xs) auto

end
