(* ===== verification/Machine_Words.thy ===== *)
theory Machine_Words
  imports Prelude "HOL-Library.Word"
begin

text \<open>
  The integers of the program at their width, their byte encodings
  (\<^verbatim>\<open>to_le_bytes\<close>, \<^verbatim>\<open>from_le_bytes\<close>, \<^verbatim>\<open>to_be_bytes\<close>, \<^verbatim>\<open>from_be_bytes\<close> of the standard library),
  and the non-zero integers \<^verbatim>\<open>NonZeroU32\<close> and \<^verbatim>\<open>NonZeroU16\<close> as types of their own, so that a
  value of these types is never zero, as in Rust.
\<close>

unbundle bit_operations_syntax

type_synonym u8 = "8 word"
type_synonym u16 = "16 word"
type_synonym u32 = "32 word"
type_synonym u64 = "64 word"

text \<open>A \<^verbatim>\<open>usize\<close> that is a length is a \<^typ>\<open>nat\<close>: no collection of the program reaches
  \<open>2 ^ 64\<close> elements.\<close>

type_synonym usize = nat

subsection \<open>Byte encodings\<close>

primrec le_bytes :: "nat \<Rightarrow> 'a::len word \<Rightarrow> u8 list" where
  "le_bytes 0 w = []"
| "le_bytes (Suc n) w = ucast w # le_bytes n (drop_bit 8 w)"

primrec le_word :: "u8 list \<Rightarrow> 'a::len word" where
  "le_word [] = 0"
| "le_word (b # bs) = ucast b OR push_bit 8 (le_word bs)"

lemma le_bytes_numeral [simp]:
  "le_bytes (numeral k) w = ucast w # le_bytes (pred_numeral k) (drop_bit 8 w)"
  by (simp add: numeral_eq_Suc)

lemma length_le_bytes [simp]: "length (le_bytes n w) = n"
  by (induction n arbitrary: w) auto

lemma le_word_le_bytes: "le_word (le_bytes n w) = take_bit (8 * n) w"
proof (induction n arbitrary: w)
  case 0
  then show ?case by simp
next
  case (Suc n)
  show ?case
    by (rule bit_word_eqI) (auto simp: Suc.IH bit_simps not_less)
qed

lemma le_word_bound: "take_bit (8 * length bs) (le_word bs :: 'a::len word) = le_word bs"
proof (induction bs)
  case Nil
  then show ?case by simp
next
  case (Cons b bs)
  have bnd: "bit (le_word bs :: 'a word) m \<Longrightarrow> m < 8 * length bs" for m
    using Cons.IH by (metis bit_take_bit_iff)
  have byte: "bit b m \<Longrightarrow> m < 8" for m
    using bit_imp_le_length by fastforce
  show ?case
    by (rule bit_word_eqI) (use bnd byte in \<open>fastforce simp: bit_simps\<close>)
qed

lemma le_bytes_le_word:
  "8 * length bs \<le> LENGTH('a) \<Longrightarrow> le_bytes (length bs) (le_word bs :: 'a::len word) = bs"
proof (induction bs)
  case Nil
  then show ?case by simp
next
  case (Cons b bs)
  let ?w = "le_word bs :: 'a word"
  have bnd: "bit ?w m \<Longrightarrow> m < 8 * length bs" for m
    using le_word_bound [of bs, where 'a = 'a] by (metis bit_take_bit_iff)
  have byte: "bit b m \<Longrightarrow> m < 8" for m
    using bit_imp_le_length by fastforce
  have head: "ucast (ucast b OR push_bit 8 ?w) = b"
    by (rule bit_word_eqI) (use Cons.prems in \<open>auto simp: bit_simps\<close>)
  have tail: "drop_bit 8 (ucast b OR push_bit 8 ?w) = ?w"
    by (rule bit_word_eqI) (use Cons.prems bnd byte in \<open>fastforce simp: bit_simps\<close>)
  have "le_bytes (length bs) ?w = bs" using Cons by simp
  then show ?case by (simp only: length_Cons le_bytes.simps le_word.simps head tail)
qed

definition u64_to_le_bytes :: "u64 \<Rightarrow> u8 list" where
  "u64_to_le_bytes w = le_bytes 8 w"

definition u64_from_le_bytes :: "u8 list \<Rightarrow> u64" where
  "u64_from_le_bytes bs = le_word bs"

definition u32_to_be_bytes :: "u32 \<Rightarrow> u8 list" where
  "u32_to_be_bytes w = rev (le_bytes 4 w)"

definition u32_from_be_bytes :: "u8 list \<Rightarrow> u32" where
  "u32_from_be_bytes bs = le_word (rev bs)"

lemma length_u64_to_le_bytes [simp]: "length (u64_to_le_bytes w) = 8"
  by (simp add: u64_to_le_bytes_def del: le_bytes_numeral)

lemma length_u32_to_be_bytes [simp]: "length (u32_to_be_bytes w) = 4"
  by (simp add: u32_to_be_bytes_def del: le_bytes_numeral)

lemma u64_le_roundtrip [simp]: "u64_from_le_bytes (u64_to_le_bytes w) = w"
  by (simp add: u64_from_le_bytes_def u64_to_le_bytes_def le_word_le_bytes take_bit_word_eq_self
      del: le_bytes_numeral)

lemma u64_le_roundtrip_bytes [simp]:
  "length bs = 8 \<Longrightarrow> u64_to_le_bytes (u64_from_le_bytes bs) = bs"
  using le_bytes_le_word [of bs, where 'a = 64]
  by (simp add: u64_from_le_bytes_def u64_to_le_bytes_def del: le_bytes_numeral)

lemma u32_be_roundtrip [simp]: "u32_from_be_bytes (u32_to_be_bytes w) = w"
  by (simp add: u32_from_be_bytes_def u32_to_be_bytes_def le_word_le_bytes take_bit_word_eq_self
      del: le_bytes_numeral)

lemma u32_be_roundtrip_bytes [simp]:
  "length bs = 4 \<Longrightarrow> u32_to_be_bytes (u32_from_be_bytes bs) = bs"
  using le_bytes_le_word [of "rev bs", where 'a = 32]
  by (simp add: u32_from_be_bytes_def u32_to_be_bytes_def del: le_bytes_numeral)

lemma byte_bit_high [simp]: "8 \<le> n \<Longrightarrow> \<not> bit (b :: u8) n"
  using bit_imp_le_length [of b n] by fastforce

subsection \<open>Non-zero integers\<close>

typedef nonzero_u32 = "{w :: u32. w \<noteq> 0}"
  morphisms nonzero_u32_get nonzero_u32_of
proof
  show "1 \<in> {w :: u32. w \<noteq> 0}" by simp
qed

typedef nonzero_u16 = "{w :: u16. w \<noteq> 0}"
  morphisms nonzero_u16_get nonzero_u16_of
proof
  show "1 \<in> {w :: u16. w \<noteq> 0}" by simp
qed

definition nonzero_u32_new :: "u32 \<Rightarrow> nonzero_u32 option" where
  "nonzero_u32_new w = (if w = 0 then None else Some (nonzero_u32_of w))"

definition nonzero_u16_new :: "u16 \<Rightarrow> nonzero_u16 option" where
  "nonzero_u16_new w = (if w = 0 then None else Some (nonzero_u16_of w))"

lemma nonzero_get_nonzero [simp]: "nonzero_u32_get a \<noteq> 0" "nonzero_u16_get b \<noteq> 0"
  using nonzero_u32_get [of a] nonzero_u16_get [of b] by auto

lemma nonzero_get_of [simp]:
  "w \<noteq> 0 \<Longrightarrow> nonzero_u32_get (nonzero_u32_of w) = w"
  "v \<noteq> 0 \<Longrightarrow> nonzero_u16_get (nonzero_u16_of v) = v"
  by (simp_all add: nonzero_u32_of_inverse nonzero_u16_of_inverse)

lemma nonzero_of_get [simp]:
  "nonzero_u32_of (nonzero_u32_get a) = a" "nonzero_u16_of (nonzero_u16_get b) = b"
  by (simp_all add: nonzero_u32_get_inverse nonzero_u16_get_inverse)

lemma nonzero_new_get [simp]:
  "nonzero_u32_new (nonzero_u32_get a) = Some a" "nonzero_u16_new (nonzero_u16_get b) = Some b"
  by (simp_all add: nonzero_u32_new_def nonzero_u16_new_def)

lemma nonzero_u32_new_None_iff [simp]: "nonzero_u32_new w = None \<longleftrightarrow> w = 0"
  by (simp add: nonzero_u32_new_def)

lemma nonzero_u16_new_None_iff [simp]: "nonzero_u16_new w = None \<longleftrightarrow> w = 0"
  by (simp add: nonzero_u16_new_def)

lemma nonzero_new_zero [simp]: "nonzero_u32_new 0 = None" "nonzero_u16_new 0 = None"
  by simp_all

lemma nonzero_u32_new_Some_iff: "nonzero_u32_new w = Some a \<longleftrightarrow> w = nonzero_u32_get a"
  by (auto simp: nonzero_u32_new_def)

lemma nonzero_u16_new_Some_iff: "nonzero_u16_new w = Some a \<longleftrightarrow> w = nonzero_u16_get a"
  by (auto simp: nonzero_u16_new_def)

lemma nonzero_u32_of_eq_iff [simp]:
  "v \<noteq> 0 \<Longrightarrow> w \<noteq> 0 \<Longrightarrow> nonzero_u32_of v = nonzero_u32_of w \<longleftrightarrow> v = w"
  by (simp add: nonzero_u32_of_inject)

lemma nonzero_u16_of_eq_iff [simp]:
  "v \<noteq> 0 \<Longrightarrow> w \<noteq> 0 \<Longrightarrow> nonzero_u16_of v = nonzero_u16_of w \<longleftrightarrow> v = w"
  by (simp add: nonzero_u16_of_inject)

lemma nonzero_get_inject [simp]:
  "nonzero_u32_get a = nonzero_u32_get b \<longleftrightarrow> a = b"
  "nonzero_u16_get c = nonzero_u16_get d \<longleftrightarrow> c = d"
  by (simp_all add: nonzero_u32_get_inject nonzero_u16_get_inject)

text \<open>The derived equality and order of the non-zero integers are those of their values.\<close>

instantiation nonzero_u32 :: linorder
begin

definition less_eq_nonzero_u32 :: "nonzero_u32 \<Rightarrow> nonzero_u32 \<Rightarrow> bool" where
  "less_eq_nonzero_u32 a b \<longleftrightarrow> nonzero_u32_get a \<le> nonzero_u32_get b"

definition less_nonzero_u32 :: "nonzero_u32 \<Rightarrow> nonzero_u32 \<Rightarrow> bool" where
  "less_nonzero_u32 a b \<longleftrightarrow> nonzero_u32_get a < nonzero_u32_get b"

instance
  by standard
    (auto simp: less_eq_nonzero_u32_def less_nonzero_u32_def nonzero_u32_get_inject
      less_le_not_le dest: antisym)

end

instantiation nonzero_u16 :: linorder
begin

definition less_eq_nonzero_u16 :: "nonzero_u16 \<Rightarrow> nonzero_u16 \<Rightarrow> bool" where
  "less_eq_nonzero_u16 a b \<longleftrightarrow> nonzero_u16_get a \<le> nonzero_u16_get b"

definition less_nonzero_u16 :: "nonzero_u16 \<Rightarrow> nonzero_u16 \<Rightarrow> bool" where
  "less_nonzero_u16 a b \<longleftrightarrow> nonzero_u16_get a < nonzero_u16_get b"

instance
  by standard
    (auto simp: less_eq_nonzero_u16_def less_nonzero_u16_def nonzero_u16_get_inject
      less_le_not_le dest: antisym)

end

end
