(* ===== verification/Text.thy ===== *)
theory Text
  imports Machine_Words
begin

text \<open>
  The operations of the standard library's \<^verbatim>\<open>str\<close> and number formatting that the program
  uses, on the UTF-8 bytes of a string: prefixes, \<^verbatim>\<open>rfind\<close>, \<^verbatim>\<open>trim_start\<close>,
  \<^verbatim>\<open>split_whitespace\<close>, \<^verbatim>\<open>parse::<u64>\<close>, decimal and hexadecimal \<^verbatim>\<open>Display\<close>.  Whitespace is
  Unicode's \<^verbatim>\<open>White_Space\<close>, recognised by its UTF-8 encodings; an encoded scalar never starts
  inside another one, so scanning byte by byte finds the same boundaries as scanning scalars.
\<close>

subsection \<open>Bytes of a string\<close>

definition code :: "char \<Rightarrow> nat" where
  "code c = of_char c"

definition is_ascii_digit :: "char \<Rightarrow> bool" where
  "is_ascii_digit c \<longleftrightarrow> 48 \<le> code c \<and> code c \<le> 57"

definition is_ascii_alphanumeric :: "char \<Rightarrow> bool" where
  "is_ascii_alphanumeric c \<longleftrightarrow>
     is_ascii_digit c \<or> 65 \<le> code c \<and> code c \<le> 90 \<or> 97 \<le> code c \<and> code c \<le> 122"

definition to_ascii_uppercase :: "char \<Rightarrow> char" where
  "to_ascii_uppercase c = (if 97 \<le> code c \<and> code c \<le> 122 then char_of (code c - 32) else c)"

lemma code_char_of [simp]: "n < 256 \<Longrightarrow> code (char_of n) = n"
  by (simp add: code_def of_char_of)

lemma code_bound [simp]: "code c < 256"
  unfolding code_def by (rule nat_of_char_less_256)

lemma code_to_ascii_uppercase:
  "code (to_ascii_uppercase c) = (if 97 \<le> code c \<and> code c \<le> 122 then code c - 32 else code c)"
  by (auto simp: to_ascii_uppercase_def)

lemma ascii_digit_not_plus: "is_ascii_digit c \<Longrightarrow> c \<noteq> CHR ''+''"
  by (auto simp: is_ascii_digit_def code_def)

subsection \<open>Prefixes and searching\<close>

definition starts_with :: "string \<Rightarrow> string \<Rightarrow> bool" where
  "starts_with s p \<longleftrightarrow> take (length p) s = p"

definition strip_prefix :: "string \<Rightarrow> string \<Rightarrow> string option" where
  "strip_prefix s p = (if starts_with s p then Some (drop (length p) s) else None)"

lemma starts_with_append [simp]: "starts_with (p @ s) p"
  by (simp add: starts_with_def)

lemma starts_with_iff: "starts_with s p \<longleftrightarrow> (\<exists>r. s = p @ r)"
  by (auto simp: starts_with_def) (metis append_take_drop_id)

lemma strip_prefix_append [simp]: "strip_prefix (p @ s) p = Some s"
  by (simp add: strip_prefix_def)

definition rfind :: "string \<Rightarrow> string \<Rightarrow> nat option" where
  "rfind s p = (case filter (\<lambda>i. starts_with (drop i s) p) [0..<length s] of
       [] \<Rightarrow> None
     | is \<Rightarrow> Some (last is))"

lemma last_filter_upt:
  assumes "k < n" "P k" "\<And>j. k < j \<Longrightarrow> j < n \<Longrightarrow> \<not> P j"
  shows "last (filter P [0..<n]) = k"
proof -
  have "[0..<n] = [0..<k] @ [k] @ [Suc k..<n]"
    using \<open>k < n\<close> upt_add_eq_append [of 0 k "n - k"] upt_conv_Cons [of k n] by simp
  moreover have "filter P [Suc k..<n] = []"
    using assms(3) by (auto simp: filter_empty_conv)
  ultimately show ?thesis using \<open>P k\<close> by simp
qed

lemma rfind_last:
  assumes "starts_with (drop k s) p" "k < length s"
    and "\<And>j. k < j \<Longrightarrow> j < length s \<Longrightarrow> \<not> starts_with (drop j s) p"
  shows "rfind s p = Some k"
proof -
  let ?is = "filter (\<lambda>i. starts_with (drop i s) p) [0..<length s]"
  have "k \<in> set ?is" using assms(1,2) by simp
  then have "?is \<noteq> []" by force
  moreover have "last ?is = k" by (rule last_filter_upt) (use assms in auto)
  ultimately show ?thesis by (cases ?is) (auto simp: rfind_def)
qed

lemma rfind_absent: "(\<And>j. j < length s \<Longrightarrow> \<not> starts_with (drop j s) p) \<Longrightarrow> rfind s p = None"
  by (simp add: rfind_def)

subsection \<open>Whitespace\<close>

text \<open>The width in bytes of the \<^verbatim>\<open>White_Space\<close> scalar at the head of the string, 0 if there is none.\<close>

fun ws_width :: "string \<Rightarrow> nat" where
  "ws_width [] = 0"
| "ws_width (a # s) =
     (if 9 \<le> code a \<and> code a \<le> 13 \<or> code a = 32 then 1
      else case s of
        [] \<Rightarrow> 0
      | b # t \<Rightarrow>
          if code a = 0xC2 \<and> (code b = 0x85 \<or> code b = 0xA0) then 2
          else case t of
            [] \<Rightarrow> 0
          | c # _ \<Rightarrow>
              if code a = 0xE1 \<and> code b = 0x9A \<and> code c = 0x80
                \<or> code a = 0xE2 \<and> code b = 0x80 \<and>
                    (0x80 \<le> code c \<and> code c \<le> 0x8A \<or> code c = 0xA8 \<or> code c = 0xA9 \<or> code c = 0xAF)
                \<or> code a = 0xE2 \<and> code b = 0x81 \<and> code c = 0x9F
                \<or> code a = 0xE3 \<and> code b = 0x80 \<and> code c = 0x80
              then 3 else 0)"

lemma ws_width_bound: "ws_width s \<le> length s"
  by (cases s) (auto split: list.splits)

function trim_start :: "string \<Rightarrow> string" where
  "trim_start s = (if ws_width s = 0 then s else trim_start (drop (ws_width s) s))"
  by pat_completeness auto
termination
proof (relation "measure length")
  fix s
  assume "ws_width s \<noteq> 0"
  then show "(drop (ws_width s) s, s) \<in> measure length"
    using ws_width_bound [of s] by simp
qed simp

declare trim_start.simps [simp del]

lemma trim_start_no_ws [simp]: "ws_width s = 0 \<Longrightarrow> trim_start s = s"
  by (simp add: trim_start.simps)

lemma ws_width_trim_start [simp]: "ws_width (trim_start s) = 0"
  by (induction s rule: trim_start.induct) (subst trim_start.simps, auto)

lemma length_trim_start: "length (trim_start s) \<le> length s"
proof (induction s rule: trim_start.induct)
  case (1 s)
  show ?case
  proof (cases "ws_width s = 0")
    case False
    with 1 have "length (trim_start (drop (ws_width s) s)) \<le> length (drop (ws_width s) s)" by blast
    also have "\<dots> \<le> length s" by simp
    finally show ?thesis using False by (simp add: trim_start.simps [of s])
  qed simp
qed

fun span_word :: "string \<Rightarrow> string \<times> string" where
  "span_word [] = ([], [])"
| "span_word (c # s) =
     (if ws_width (c # s) \<noteq> 0 then ([], c # s)
      else case span_word s of (w, r) \<Rightarrow> (c # w, r))"

lemma span_word_append: "span_word s = (w, r) \<Longrightarrow> s = w @ r"
  by (induction s arbitrary: w r rule: span_word.induct) (auto split: if_splits prod.splits)

lemma span_word_nonempty: "ws_width s = 0 \<Longrightarrow> s \<noteq> [] \<Longrightarrow> fst (span_word s) \<noteq> []"
  by (cases s) (auto split: prod.splits)

function split_whitespace :: "string \<Rightarrow> string list" where
  "split_whitespace s =
     (if trim_start s = [] then []
      else fst (span_word (trim_start s)) # split_whitespace (snd (span_word (trim_start s))))"
  by pat_completeness auto
termination
proof (relation "measure length")
  fix s
  assume ne: "trim_start s \<noteq> []"
  let ?t = "trim_start s"
  have "?t = fst (span_word ?t) @ snd (span_word ?t)"
    by (rule span_word_append) simp
  then have "length ?t = length (fst (span_word ?t)) + length (snd (span_word ?t))"
    by (metis length_append)
  moreover have "fst (span_word ?t) \<noteq> []"
    using ne by (intro span_word_nonempty) simp_all
  ultimately have "length (snd (span_word ?t)) < length ?t" by (cases "fst (span_word ?t)") auto
  then show "(snd (span_word ?t), s) \<in> measure length"
    using length_trim_start [of s] by simp
qed simp

declare split_whitespace.simps [simp del]

text \<open>A printable ASCII byte that is not a space: what the fields of \<^verbatim>\<open>/proc/<pid>/stat\<close> are made of.\<close>

definition graphic :: "char \<Rightarrow> bool" where
  "graphic c \<longleftrightarrow> 33 \<le> code c \<and> code c \<le> 126"

lemma ws_width_graphic [simp]: "graphic c \<Longrightarrow> ws_width (c # s) = 0"
  by (auto simp: graphic_def split: list.splits)

lemma graphic_not_space: "graphic c \<Longrightarrow> c \<noteq> CHR '' ''"
  by (auto simp: graphic_def code_def)

lemma ws_width_space [simp]: "ws_width (CHR '' '' # s) = 1"
  by (simp add: code_def)

lemma span_word_graphic:
  "list_all graphic w \<Longrightarrow> span_word (w @ CHR '' '' # s) = (w, CHR '' '' # s)"
  by (induction w) (auto simp del: ws_width.simps)

lemma span_word_graphic_end: "list_all graphic w \<Longrightarrow> span_word w = (w, [])"
  by (induction w) (auto simp del: ws_width.simps)

lemma trim_start_space [simp]: "trim_start (CHR '' '' # s) = trim_start s"
  by (subst trim_start.simps) (simp del: ws_width.simps)

fun join_fields :: "string list \<Rightarrow> string" where
  "join_fields [] = []"
| "join_fields [w] = w"
| "join_fields (w # v # ws) = w @ '' '' @ join_fields (v # ws)"

lemma ws_width_join_fields:
  "list_all (\<lambda>w. w \<noteq> [] \<and> list_all graphic w) ws \<Longrightarrow> ws_width (join_fields ws) = 0"
proof (induction ws rule: join_fields.induct)
  case (2 w)
  then show ?case by (cases w) (auto simp del: ws_width.simps)
next
  case (3 w v ws)
  then show ?case by (cases w) (auto simp del: ws_width.simps)
qed simp

lemma split_whitespace_join_fields:
  "list_all (\<lambda>w. w \<noteq> [] \<and> list_all graphic w) ws \<Longrightarrow> split_whitespace (join_fields ws) = ws"
proof (induction ws rule: join_fields.induct)
  case 1
  show ?case by (simp add: split_whitespace.simps)
next
  case (2 w)
  then have "ws_width w = 0" using ws_width_join_fields [of "[w]"] by simp
  moreover have "split_whitespace [] = []" by (simp add: split_whitespace.simps)
  ultimately show ?case using 2 by (subst split_whitespace.simps) (simp add: span_word_graphic_end)
next
  case (3 w v ws)
  let ?rest = "join_fields (v # ws)"
  have w: "ws_width (w @ '' '' @ ?rest) = 0"
    using ws_width_join_fields [OF "3.prems"] by simp
  have "split_whitespace (CHR '' '' # ?rest) = split_whitespace ?rest"
    by (simp add: split_whitespace.simps [of "CHR '' '' # ?rest"] split_whitespace.simps [of ?rest])
  with 3 w show ?case
    by (subst split_whitespace.simps) (simp add: span_word_graphic)
qed

subsection \<open>Numbers\<close>

fun decimal :: "nat \<Rightarrow> string" where
  "decimal n = (if n < 10 then [char_of (48 + n)] else decimal (n div 10) @ [char_of (48 + n mod 10)])"

declare decimal.simps [simp del]

fun digits_value :: "nat \<Rightarrow> string \<Rightarrow> nat option" where
  "digits_value acc [] = Some acc"
| "digits_value acc (c # cs) =
     (if is_ascii_digit c \<and> acc * 10 + (code c - 48) < 2 ^ 64
      then digits_value (acc * 10 + (code c - 48)) cs else None)"

text \<open>\<^verbatim>\<open>str::parse::<u64>().ok()\<close>: an optional plus sign, at least one digit, no overflow.\<close>

definition parse_u64 :: "string \<Rightarrow> u64 option" where
  "parse_u64 s =
     (let body = (case s of [] \<Rightarrow> [] | c # cs \<Rightarrow> if c = CHR ''+'' then cs else s)
      in if body = [] then None else map_option word_of_nat (digits_value 0 body))"

lemma digits_value_append:
  "digits_value acc (s @ t) = (case digits_value acc s of None \<Rightarrow> None | Some v \<Rightarrow> digits_value v t)"
  by (induction s arbitrary: acc) auto

lemma digits_value_decimal: "n < 2 ^ 64 \<Longrightarrow> digits_value 0 (decimal n) = Some n"
proof (induction n rule: decimal.induct)
  case (1 n)
  show ?case
  proof (cases "n < 10")
    case True
    then show ?thesis by (simp add: decimal.simps [of n] is_ascii_digit_def)
  next
    case False
    then have "digits_value 0 (decimal (n div 10)) = Some (n div 10)" using 1 by simp
    moreover have "n mod 10 + n div 10 * 10 = n" by simp
    ultimately show ?thesis using False "1.prems"
      by (simp add: decimal.simps [of n] digits_value_append is_ascii_digit_def)
  qed
qed

lemma decimal_graphic: "list_all graphic (decimal n)"
proof (induction n rule: decimal.induct)
  case (1 n)
  have "graphic (char_of (48 + n mod 10))" by (simp add: graphic_def)
  with 1 show ?case by (auto simp: decimal.simps [of n] graphic_def [of "char_of (48 + n)"])
qed

lemma decimal_head: "\<exists>c cs. decimal n = c # cs \<and> is_ascii_digit c"
proof (induction n rule: decimal.induct)
  case (1 n)
  then show ?case by (subst decimal.simps) (auto simp: is_ascii_digit_def)
qed

lemma decimal_nonempty [simp]: "decimal n \<noteq> []"
  using decimal_head [of n] by auto

lemma parse_u64_decimal: "n < 2 ^ 64 \<Longrightarrow> parse_u64 (decimal n) = Some (word_of_nat n)"
proof -
  assume n: "n < 2 ^ 64"
  obtain c cs where "decimal n = c # cs" "c \<noteq> CHR ''+''"
    using decimal_head [of n] ascii_digit_not_plus by blast
  then show ?thesis using digits_value_decimal [OF n] by (simp add: parse_u64_def)
qed

definition hex_digit :: "nat \<Rightarrow> char" where
  "hex_digit n = (if n < 10 then char_of (48 + n) else char_of (87 + n))"

text \<open>\<^verbatim>\<open>{value:#018x}\<close>: the prefix \<^verbatim>\<open>0x\<close> and sixteen lower-case hexadecimal digits.\<close>

definition hex_u64 :: "u64 \<Rightarrow> string" where
  "hex_u64 w = ''0x'' @ map (\<lambda>i. hex_digit (unat (take_bit 4 (drop_bit (4 * i) w)))) (rev [0..<16])"

end
