(* ===== verification/Contract_Binding.thy ===== *)
theory Contract_Binding
  imports Text
begin

text \<open>
  \<^verbatim>\<open>src/binding.rs\<close>: the contract identity, wire revision and route types, their fallible
  constructors, and the derived orders.  \<^verbatim>\<open>ContractBinding::validate_header\<close> is in
  \<^verbatim>\<open>Short_Header\<close>, after the header it reads.
\<close>

subsection \<open>Identifiers\<close>

datatype binding_identifier_error = ReservedContractId | ReservedWireRevision

datatype contract_id = ContractId nonzero_u32

definition contract_id_try_new :: "u32 \<Rightarrow> (contract_id, binding_identifier_error) result" where
  "contract_id_try_new value =
     (case nonzero_u32_new value of
        Some nz \<Rightarrow> Ok (ContractId nz)
      | None \<Rightarrow> Err ReservedContractId)"

primrec contract_id_value :: "contract_id \<Rightarrow> u32" where
  "contract_id_value (ContractId nz) = nonzero_u32_get nz"

datatype wire_revision = WireRevision nonzero_u16

definition wire_revision_try_new :: "u16 \<Rightarrow> (wire_revision, binding_identifier_error) result" where
  "wire_revision_try_new value =
     (case nonzero_u16_new value of
        Some nz \<Rightarrow> Ok (WireRevision nz)
      | None \<Rightarrow> Err ReservedWireRevision)"

primrec wire_revision_value :: "wire_revision \<Rightarrow> u16" where
  "wire_revision_value (WireRevision nz) = nonzero_u16_get nz"

lemma contract_id_value_nonzero [simp]: "contract_id_value c \<noteq> 0"
  by (cases c) simp

lemma wire_revision_value_nonzero [simp]: "wire_revision_value r \<noteq> 0"
  by (cases r) simp

lemma contract_id_value_inject [simp]: "contract_id_value c = contract_id_value d \<longleftrightarrow> c = d"
  by (cases c; cases d) (simp add: nonzero_u32_get_inject)

lemma wire_revision_value_inject [simp]: "wire_revision_value r = wire_revision_value s \<longleftrightarrow> r = s"
  by (cases r; cases s) (simp add: nonzero_u16_get_inject)

lemma contract_id_try_new_value [simp]: "contract_id_try_new (contract_id_value c) = Ok c"
  by (cases c) (simp add: contract_id_try_new_def)

lemma wire_revision_try_new_value [simp]: "wire_revision_try_new (wire_revision_value r) = Ok r"
  by (cases r) (simp add: wire_revision_try_new_def)

lemma contract_id_try_new_Ok_iff [fault_iffs]:
  "contract_id_try_new v = Inr c \<longleftrightarrow> v = contract_id_value c"
  by (cases c) (auto simp: contract_id_try_new_def nonzero_u32_new_Some_iff split: option.splits)

lemma wire_revision_try_new_Ok_iff [fault_iffs]:
  "wire_revision_try_new v = Inr r \<longleftrightarrow> v = wire_revision_value r"
  by (cases r) (auto simp: wire_revision_try_new_def nonzero_u16_new_Some_iff split: option.splits)

lemma contract_id_try_new_Err_iff [fault_iffs]:
  "contract_id_try_new v = Inl e \<longleftrightarrow> v = 0 \<and> e = ReservedContractId"
  by (cases "nonzero_u32_new v") (auto simp: contract_id_try_new_def nonzero_u32_new_Some_iff)

lemma wire_revision_try_new_Err_iff [fault_iffs]:
  "wire_revision_try_new v = Inl e \<longleftrightarrow> v = 0 \<and> e = ReservedWireRevision"
  by (cases "nonzero_u16_new v") (auto simp: wire_revision_try_new_def nonzero_u16_new_Some_iff)

lemma contract_id_of_nonzero: "v \<noteq> 0 \<Longrightarrow> \<exists>c. v = contract_id_value c"
  by (rule exI [of _ "ContractId (nonzero_u32_of v)"]) simp

lemma wire_revision_of_nonzero: "v \<noteq> 0 \<Longrightarrow> \<exists>r. v = wire_revision_value r"
  by (rule exI [of _ "WireRevision (nonzero_u16_of v)"]) simp

text \<open>The derived orders are those of the numbers.\<close>

instantiation contract_id :: linorder
begin

definition less_eq_contract_id :: "contract_id \<Rightarrow> contract_id \<Rightarrow> bool" where
  "less_eq_contract_id c d \<longleftrightarrow> contract_id_value c \<le> contract_id_value d"

definition less_contract_id :: "contract_id \<Rightarrow> contract_id \<Rightarrow> bool" where
  "less_contract_id c d \<longleftrightarrow> contract_id_value c < contract_id_value d"

instance
  by standard
    (auto simp: less_eq_contract_id_def less_contract_id_def
      simp flip: contract_id_value_inject)

end

instantiation wire_revision :: linorder
begin

definition less_eq_wire_revision :: "wire_revision \<Rightarrow> wire_revision \<Rightarrow> bool" where
  "less_eq_wire_revision r s \<longleftrightarrow> wire_revision_value r \<le> wire_revision_value s"

definition less_wire_revision :: "wire_revision \<Rightarrow> wire_revision \<Rightarrow> bool" where
  "less_wire_revision r s \<longleftrightarrow> wire_revision_value r < wire_revision_value s"

instance
  by standard
    (auto simp: less_eq_wire_revision_def less_wire_revision_def
      simp flip: wire_revision_value_inject)

end

subsection \<open>Bindings\<close>

record contract_binding =
  contract :: contract_id
  revision :: wire_revision

definition contract_binding_new :: "contract_id \<Rightarrow> wire_revision \<Rightarrow> contract_binding" where
  "contract_binding_new c r = \<lparr>contract = c, revision = r\<rparr>"

subsection \<open>Routes\<close>

datatype root_code = RootCode u8

primrec root_code_value :: "root_code \<Rightarrow> u8" where
  "root_code_value (RootCode v) = v"

datatype variant_code = VariantCode u8

primrec variant_code_value :: "variant_code \<Rightarrow> u8" where
  "variant_code_value (VariantCode v) = v"

lemma root_code_value_inject [simp]: "root_code_value a = root_code_value b \<longleftrightarrow> a = b"
  by (cases a; cases b) simp

lemma variant_code_value_inject [simp]: "variant_code_value a = variant_code_value b \<longleftrightarrow> a = b"
  by (cases a; cases b) simp

lemma RootCode_value [simp]: "RootCode (root_code_value a) = a"
  by (cases a) simp

lemma VariantCode_value [simp]: "VariantCode (variant_code_value a) = a"
  by (cases a) simp

record wire_route =
  route_root :: root_code
  route_variant :: variant_code

definition wire_route_new :: "root_code \<Rightarrow> variant_code \<Rightarrow> wire_route" where
  "wire_route_new r v = \<lparr>route_root = r, route_variant = v\<rparr>"

datatype wire_route_error = BitsOutsideRoute u64

definition try_from_log_variant :: "u64 \<Rightarrow> (wire_route, wire_route_error) result" where
  "try_from_log_variant value =
     (if value AND 0xFFFFFFFFFFFF0000 \<noteq> 0 then Err (BitsOutsideRoute value)
      else Ok (wire_route_new (RootCode (ucast value)) (VariantCode (ucast (drop_bit 8 value)))))"

text \<open>The 64-bit projection of a route, which \<open>try_from_log_variant\<close> inverts.\<close>

definition log_variant_of_route :: "wire_route \<Rightarrow> u64" where
  "log_variant_of_route r =
     ucast (root_code_value (route_root r)) OR push_bit 8 (ucast (variant_code_value (route_variant r)))"

lemma route_mask_bit:
  "bit (0xFFFFFFFFFFFF0000 :: u64) n \<longleftrightarrow> 16 \<le> n \<and> n < 64"
proof -
  have "(0xFFFFFFFFFFFF0000 :: u64) = NOT (mask 16)"
    by (simp add: mask_eq_exp_minus_1 not_eq_complement)
  then show ?thesis
    by (simp only: bit_not_iff bit_mask_iff) (auto simp: not_less)
qed

lemma route_mask_zero_iff:
  "(v :: u64) AND 0xFFFFFFFFFFFF0000 = 0 \<longleftrightarrow> take_bit 16 v = v"
proof
  assume m: "v AND 0xFFFFFFFFFFFF0000 = 0"
  show "take_bit 16 v = v"
  proof (rule bit_word_eqI)
    fix n
    assume "n < LENGTH(64)"
    have "\<not> bit (v AND 0xFFFFFFFFFFFF0000) n" by (simp add: m)
    with \<open>n < LENGTH(64)\<close> show "bit (take_bit 16 v) n = bit v n"
      by (auto simp only: bit_take_bit_iff bit_and_iff route_mask_bit len_num0 len_bit0) auto
  qed
next
  assume t: "take_bit 16 v = v"
  then have "bit v n \<Longrightarrow> n < 16" for n by (metis bit_take_bit_iff)
  then show "v AND 0xFFFFFFFFFFFF0000 = 0"
    by (intro bit_word_eqI) (simp only: bit_and_iff route_mask_bit bit_0_eq, auto dest: leD)
qed

lemma log_variant_of_route_mask [simp]: "log_variant_of_route r AND 0xFFFFFFFFFFFF0000 = 0"
  unfolding route_mask_zero_iff log_variant_of_route_def
  by (rule bit_word_eqI) (auto simp: bit_simps)

lemma try_from_log_variant_of_route [simp]: "try_from_log_variant (log_variant_of_route r) = Ok r"
proof -
  have root: "ucast (log_variant_of_route r) = root_code_value (route_root r)"
    unfolding log_variant_of_route_def by (rule bit_word_eqI) (auto simp: bit_simps)
  have var: "ucast (drop_bit 8 (log_variant_of_route r)) = variant_code_value (route_variant r)"
    unfolding log_variant_of_route_def
    by (rule bit_word_eqI) (auto simp: bit_simps)
  show ?thesis by (simp add: try_from_log_variant_def root var wire_route_new_def)
qed

lemma log_variant_of_route_try_from:
  assumes "try_from_log_variant v = Ok r"
  shows "v = log_variant_of_route r"
proof -
  from assms have v: "take_bit 16 v = v"
    and r: "r = wire_route_new (RootCode (ucast v)) (VariantCode (ucast (drop_bit 8 v)))"
    by (auto simp: try_from_log_variant_def route_mask_zero_iff split: if_splits)
  from v have bnd: "bit v n \<Longrightarrow> n < 16" for n by (metis bit_take_bit_iff)
  show ?thesis
    unfolding r log_variant_of_route_def wire_route_new_def
    by (rule bit_word_eqI) (auto simp: bit_simps dest: bnd)
qed

lemma try_from_log_variant_Ok_iff [fault_iffs]:
  "try_from_log_variant v = Inr r \<longleftrightarrow> v = log_variant_of_route r"
  using log_variant_of_route_try_from by auto

lemma try_from_log_variant_Err_iff [fault_iffs]:
  "try_from_log_variant v = Inl e \<longleftrightarrow> take_bit 16 v \<noteq> v \<and> e = BitsOutsideRoute v"
  by (auto simp: try_from_log_variant_def route_mask_zero_iff)

text \<open>The messages of the errors.\<close>

primrec binding_identifier_error_display :: "binding_identifier_error \<Rightarrow> string" where
  "binding_identifier_error_display ReservedContractId = ''contract id zero is reserved''"
| "binding_identifier_error_display ReservedWireRevision = ''wire revision zero is reserved''"

primrec wire_route_error_display :: "wire_route_error \<Rightarrow> string" where
  "wire_route_error_display (BitsOutsideRoute value) =
     ''log variant contains bits outside the root/variant high sixteen: '' @ hex_u64 value"

text \<open>
  C38.  A route is exactly a 64-bit value whose high 48 bits are zero: the conversion accepts the
  projection of every route and gives that route back, and refuses every value with a higher bit,
  naming the value.
\<close>

theorem wire_route_log_variant_exact:
  "(try_from_log_variant v = Ok r \<longleftrightarrow> v = log_variant_of_route r) \<and>
   (try_from_log_variant v = Err e \<longleftrightarrow> \<not> v < 2 ^ 16 \<and> e = BitsOutsideRoute v)"
proof -
  have "take_bit 16 v = v \<longleftrightarrow> v < 2 ^ 16"
    by (simp add: word_less_nat_alt word_unat_eq_iff unsigned_take_bit_eq take_bit_nat_eq_self_iff)
  then show ?thesis by (simp add: fault_iffs)
qed

end
