(* ===== verification/Frame_Error.thy ===== *)
theory Frame_Error
  imports Contract_Binding
begin

text \<open>
  \<^verbatim>\<open>src/error.rs\<close>: the frame errors and their messages.  The error of the archive library is a
  type parameter \<open>'x\<close>; the messages do not print it.
\<close>

datatype 'x frame_error =
    ArchiveSerialize 'x
  | ArchiveDeserialize 'x
  | ShortLengthPrefix
  | ShortHeaderTooShort usize
  | LengthMismatch usize usize
  | UnboundHeader
  | ContractMismatch contract_id contract_id
  | UnsupportedWireRevision contract_id wire_revision wire_revision
  | InvalidRoute wire_route_error

definition contract_id_debug :: "contract_id \<Rightarrow> string" where
  "contract_id_debug c = ''ContractId('' @ decimal (unat (contract_id_value c)) @ '')''"

definition wire_revision_debug :: "wire_revision \<Rightarrow> string" where
  "wire_revision_debug r = ''WireRevision('' @ decimal (unat (wire_revision_value r)) @ '')''"

fun frame_error_display :: "'x frame_error \<Rightarrow> string" where
  "frame_error_display (ArchiveSerialize _) = ''rkyv archive serialization failed''"
| "frame_error_display (ArchiveDeserialize _) = ''rkyv archive deserialization failed''"
| "frame_error_display ShortLengthPrefix = ''frame is shorter than the four byte length prefix''"
| "frame_error_display (ShortHeaderTooShort found) =
     ''frame payload is shorter than the eight byte short header: found '' @ decimal found @ '' bytes''"
| "frame_error_display (LengthMismatch expected found) =
     ''frame length mismatch: expected '' @ decimal expected @ '' bytes, found '' @ decimal found"
| "frame_error_display UnboundHeader = ''raw frame header has no production contract binding''"
| "frame_error_display (ContractMismatch expected found) =
     ''frame contract mismatch: expected '' @ contract_id_debug expected @
     '', found '' @ contract_id_debug found"
| "frame_error_display (UnsupportedWireRevision c expected found) =
     ''unsupported wire revision for contract '' @ contract_id_debug c @
     '': expected '' @ wire_revision_debug expected @ '', found '' @ wire_revision_debug found"
| "frame_error_display (InvalidRoute e) = wire_route_error_display e"

end
