(* ===== verification/Short_Header.thy ===== *)
theory Short_Header
  imports Frame_Error
begin

text \<open>
  The 64-bit short header of \<^verbatim>\<open>src/frame.rs\<close> (\<^verbatim>\<open>ShortHeader\<close>, \<^verbatim>\<open>RawShortHeader\<close>) and
  \<^verbatim>\<open>ContractBinding::validate_header\<close> of \<^verbatim>\<open>src/binding.rs\<close>.  The accessor \<^verbatim>\<open>binding\<close> has two
  \<^verbatim>\<open>unreachable!\<close> arms; they are the outcome \<open>Panicked\<close> here, and the lemmas show that no header
  built by \<^verbatim>\<open>bound\<close> or accepted by \<^verbatim>\<open>validate\<close> reaches them.
\<close>

definition SHORT_HEADER_BYTE_COUNT :: usize where
  "SHORT_HEADER_BYTE_COUNT = 8"

datatype short_header = ShortHeader u64

text \<open>
  The trait \<^verbatim>\<open>LogVariant\<close> of \<^verbatim>\<open>src/log_variant.rs\<close> has one method, the projection of a value to the
  header layout; an implementation is that function.
\<close>

type_synonym 'p log_variant = "'p \<Rightarrow> u64"

primrec header_value :: "short_header \<Rightarrow> u64" where
  "header_value (ShortHeader w) = w"

definition header_bound :: "contract_binding \<Rightarrow> wire_route \<Rightarrow> short_header" where
  "header_bound b r = ShortHeader
     (ucast (contract_id_value (contract b))
      OR push_bit 32 (ucast (wire_revision_value (revision b)))
      OR push_bit 48 (ucast (variant_code_value (route_variant r)))
      OR push_bit 56 (ucast (root_code_value (route_root r))))"

definition header_binding :: "short_header \<Rightarrow> (contract_binding, 'e) exec" where
  "header_binding h =
     (case contract_id_try_new (ucast (header_value h)) of
        Err _ \<Rightarrow> Err Panicked
      | Ok c \<Rightarrow>
          (case wire_revision_try_new (ucast (drop_bit 32 (header_value h))) of
             Err _ \<Rightarrow> Err Panicked
           | Ok r \<Rightarrow> Ok (contract_binding_new c r)))"

definition header_route :: "short_header \<Rightarrow> wire_route" where
  "header_route h =
     wire_route_new (RootCode (ucast (drop_bit 56 (header_value h))))
       (VariantCode (ucast (drop_bit 48 (header_value h))))"

definition header_to_le_bytes :: "short_header \<Rightarrow> u8 list" where
  "header_to_le_bytes h = u64_to_le_bytes (header_value h)"

datatype raw_short_header = RawShortHeader u64

primrec raw_value :: "raw_short_header \<Rightarrow> u64" where
  "raw_value (RawShortHeader w) = w"

definition raw_from_le_bytes :: "u8 list \<Rightarrow> raw_short_header" where
  "raw_from_le_bytes bs = RawShortHeader (u64_from_le_bytes bs)"

definition raw_validate :: "raw_short_header \<Rightarrow> (short_header, 'x frame_error) result" where
  "raw_validate h =
     (if result_ok (contract_id_try_new (ucast (raw_value h))) = None
         \<or> result_ok (wire_revision_try_new (ucast (drop_bit 32 (raw_value h)))) = None
      then Err UnboundHeader
      else Ok (ShortHeader (raw_value h)))"

definition validate_header ::
  "contract_binding \<Rightarrow> short_header \<Rightarrow> (unit, 'x frame_error) exec" where
  "validate_header b h =
     and_then (header_binding h) (\<lambda>found.
       if contract found \<noteq> contract b
       then Err (Failed (ContractMismatch (contract b) (contract found)))
       else if revision found \<noteq> revision b
       then Err (Failed (UnsupportedWireRevision (contract b) (revision b) (revision found)))
       else Ok ())"

subsection \<open>Packing and unpacking\<close>

lemma header_value_bound_fields:
  fixes b r
  defines "w \<equiv> header_value (header_bound b r)"
  shows header_bound_contract: "ucast w = contract_id_value (contract b)"
    and header_bound_revision: "ucast (drop_bit 32 w) = wire_revision_value (revision b)"
    and header_bound_variant: "ucast (drop_bit 48 w) = variant_code_value (route_variant r)"
    and header_bound_root: "ucast (drop_bit 56 w) = root_code_value (route_root r)"
proof -
  have high: "\<not> bit (contract_id_value (contract b)) n" if "32 \<le> n" for n
    using that bit_imp_le_length [of "contract_id_value (contract b)" n] by fastforce
  have mid: "\<not> bit (wire_revision_value (revision b)) n" if "16 \<le> n" for n
    using that bit_imp_le_length [of "wire_revision_value (revision b)" n] by fastforce
  show "ucast w = contract_id_value (contract b)"
    unfolding w_def header_bound_def by (rule bit_word_eqI) (auto simp: bit_simps)
  show "ucast (drop_bit 32 w) = wire_revision_value (revision b)"
    unfolding w_def header_bound_def by (rule bit_word_eqI) (auto simp: bit_simps high)
  show "ucast (drop_bit 48 w) = variant_code_value (route_variant r)"
    unfolding w_def header_bound_def by (rule bit_word_eqI) (auto simp: bit_simps high mid)
  show "ucast (drop_bit 56 w) = root_code_value (route_root r)"
    unfolding w_def header_bound_def by (rule bit_word_eqI) (auto simp: bit_simps high mid)
qed

lemma header_binding_bound [simp]: "header_binding (header_bound b r) = Ok b"
  by (simp add: header_binding_def header_bound_contract header_bound_revision
      contract_binding_new_def)

lemma header_route_bound [simp]: "header_route (header_bound b r) = r"
  by (simp add: header_route_def header_bound_variant header_bound_root wire_route_new_def)

text \<open>The type's invariant: both identifiers of the prefix are non-zero.\<close>

definition header_wf :: "short_header \<Rightarrow> bool" where
  "header_wf h \<longleftrightarrow>
     (ucast (header_value h) :: u32) \<noteq> 0 \<and> (ucast (drop_bit 32 (header_value h)) :: u16) \<noteq> 0"

lemma header_wf_bound [simp]: "header_wf (header_bound b r)"
  by (simp add: header_wf_def header_bound_contract header_bound_revision)

lemma header_bound_unpack:
  assumes "header_binding h = Ok b"
  shows "h = header_bound b (header_route h)"
proof -
  obtain w where h: "h = ShortHeader w" by (cases h)
  from assms have c: "contract_id_value (contract b) = ucast w"
    and v: "wire_revision_value (revision b) = ucast (drop_bit 32 w)"
    by (auto simp: h header_binding_def contract_binding_new_def fault_iffs split: sum.splits)
  have "w = header_value (header_bound b (header_route h))"
    unfolding h header_bound_def header_route_def wire_route_new_def header_value.simps
      wire_route.simps root_code_value.simps variant_code_value.simps c v
  proof (rule bit_word_eqI)
    fix n
    assume "n < LENGTH(64)"
    consider "n < 32" | "32 \<le> n" "n < 48" | "48 \<le> n" "n < 56" | "56 \<le> n" by linarith
    then show "bit w n = bit (ucast (ucast w :: u32) OR push_bit 32 (ucast (ucast (drop_bit 32 w) :: u16))
        OR push_bit 48 (ucast (ucast (drop_bit 48 w) :: u8))
        OR push_bit 56 (ucast (ucast (drop_bit 56 w) :: u8)) :: u64) n"
      using \<open>n < LENGTH(64)\<close> by cases (auto simp: bit_simps)
  qed
  then show ?thesis using h by (metis header_value.simps short_header.exhaust)
qed

lemma header_binding_Ok_iff [fault_iffs]:
  "header_binding h = Inr b \<longleftrightarrow> (\<exists>r. h = header_bound b r)"
  using header_bound_unpack by auto

lemma header_wf_iff: "header_wf h \<longleftrightarrow> (\<exists>b r. h = header_bound b r)"
proof
  assume "header_wf h"
  then obtain c r where "ucast (header_value h) = contract_id_value c"
    "ucast (drop_bit 32 (header_value h)) = wire_revision_value r"
    using contract_id_of_nonzero wire_revision_of_nonzero unfolding header_wf_def by metis
  then have "header_binding h = Ok (contract_binding_new c r)"
    by (simp add: header_binding_def)
  then show "\<exists>b r. h = header_bound b r" using header_bound_unpack by blast
qed auto

lemma header_binding_panic_iff: "header_binding h = Inl Panicked \<longleftrightarrow> \<not> header_wf h"
  by (auto simp: header_binding_def header_wf_def fault_iffs split: sum.splits)

lemma header_bound_inject [simp]: "header_bound b r = header_bound c s \<longleftrightarrow> b = c \<and> r = s"
  by (metis header_binding_bound header_route_bound sum.inject(2))

subsection \<open>Validation of raw prefixes and of bindings\<close>

lemma raw_validate_Ok_iff [fault_iffs]:
  "raw_validate raw = Inr h \<longleftrightarrow> header_value h = raw_value raw \<and> header_wf h"
  by (cases h) (auto simp: raw_validate_def header_wf_def fault_iffs result_ok_def split: sum.splits)

lemma raw_validate_Err_iff [fault_iffs]:
  "raw_validate raw = Inl e \<longleftrightarrow> \<not> header_wf (ShortHeader (raw_value raw)) \<and> e = UnboundHeader"
  by (auto simp: raw_validate_def header_wf_def fault_iffs result_ok_def split: sum.splits)

lemma raw_from_header_bytes [simp]:
  "raw_from_le_bytes (header_to_le_bytes h) = RawShortHeader (header_value h)"
  by (simp add: raw_from_le_bytes_def header_to_le_bytes_def)

lemma raw_validate_header [simp]:
  "header_wf h \<Longrightarrow> raw_validate (RawShortHeader (header_value h)) = Ok h"
  by (simp add: raw_validate_Ok_iff)

lemma length_header_to_le_bytes [simp]: "length (header_to_le_bytes h) = 8"
  by (simp add: header_to_le_bytes_def)

lemma validate_header_bound [simp]:
  "validate_header b (header_bound c r) =
     (if contract c \<noteq> contract b then Err (Failed (ContractMismatch (contract b) (contract c)))
      else if revision c \<noteq> revision b
      then Err (Failed (UnsupportedWireRevision (contract b) (revision b) (revision c)))
      else Ok ())"
  by (simp add: validate_header_def)

lemma validate_header_Ok_iff [fault_iffs]:
  "validate_header b h = Inr u \<longleftrightarrow> (\<exists>r. h = header_bound b r)"
proof
  assume "validate_header b h = Inr u"
  then obtain found where f: "header_binding h = Ok found"
      and "contract found = contract b" "revision found = revision b"
    by (auto simp: validate_header_def fault_iffs split: if_splits)
  then have "found = b" by simp
  with f show "\<exists>r. h = header_bound b r" by (auto simp: fault_iffs)
qed auto

lemma validate_header_never_panics: "header_wf h \<Longrightarrow> never_panics (validate_header b h)"
  by (auto simp: header_wf_iff)

subsection \<open>Properties\<close>

text \<open>
  C36.  The four fields of a bound header do not overlap and nothing is lost: the binding and the
  route are read back exactly, the accessor's unreachable arms are not reached, and two headers
  are equal only when binding and route are.
\<close>

theorem header_fields_exact:
  "(header_binding (header_bound b r) :: (contract_binding, 'e) exec) = Ok b
   \<and> header_route (header_bound b r) = r
   \<and> (header_bound b r = header_bound c s \<longleftrightarrow> b = c \<and> r = s)"
  by simp

text \<open>
  C37.  A raw prefix becomes a header exactly when it is the packing of some binding and route,
  with its bits unchanged; every other prefix, the all-zero one included, is refused as unbound.
\<close>

theorem raw_validate_exact:
  "(raw_validate raw = (Ok h :: (short_header, 'x frame_error) result)
      \<longleftrightarrow> header_value h = raw_value raw \<and> (\<exists>b r. h = header_bound b r))
   \<and> (raw_validate raw = (Err e :: (short_header, 'x frame_error) result)
      \<longleftrightarrow> e = UnboundHeader \<and> (\<nexists>b r. ShortHeader (raw_value raw) = header_bound b r))"
  by (auto simp: fault_iffs header_wf_iff)

text \<open>
  Validating a header against a binding accepts exactly the headers packed for that binding,
  whatever their route.
\<close>

theorem validate_header_exact:
  "validate_header b h = (Ok () :: (unit, 'x frame_error) exec) \<longleftrightarrow> (\<exists>r. h = header_bound b r)"
  by (simp add: fault_iffs)

end
