(* ===== verification/Exchange.thy ===== *)
theory Exchange
  imports Machine_Words
begin

text \<open>
  \<^verbatim>\<open>src/exchange.rs\<close> (session epochs, lanes, sequences, exchange and stream-event identifiers),
  \<^verbatim>\<open>src/identity.rs\<close> and \<^verbatim>\<open>src/subscription.rs\<close>.  \<^verbatim>\<open>SessionEpoch::next\<close> and \<^verbatim>\<open>LaneSequence::next\<close>
  are plain additions: with overflow checks (the first argument) the addition at the maximum
  panics, without them it wraps.  The locale \<open>lane_counter\<close> is the contract both share.
\<close>

definition u64_increment :: "bool \<Rightarrow> u64 \<Rightarrow> (u64, 'e) exec" where
  "u64_increment overflow_checks v =
     (if overflow_checks \<and> v = - 1 then Err Panicked else Ok (v + 1))"

lemma u64_increment_Ok: "v \<noteq> - 1 \<Longrightarrow> u64_increment ck v = Ok (v + 1)"
  by (simp add: u64_increment_def)

lemma unat_u64_increment:
  assumes "unat (v :: u64) + 1 < 2 ^ 64"
  shows "v \<noteq> - 1" and "unat (v + 1) = unat v + 1"
  using assms by (auto simp: unat_word_ariths unsigned_minus_1_eq_mask mask_eq_exp_minus_1)

subsection \<open>Epochs, lanes and sequences\<close>

datatype session_epoch = SessionEpoch u64

primrec session_epoch_value :: "session_epoch \<Rightarrow> u64" where
  "session_epoch_value (SessionEpoch v) = v"

definition session_epoch_next :: "bool \<Rightarrow> session_epoch \<Rightarrow> (session_epoch, 'e) exec" where
  "session_epoch_next overflow_checks e =
     and_then (u64_increment overflow_checks (session_epoch_value e)) (\<lambda>v. Ok (SessionEpoch v))"

datatype exchange_lane = Connector | Acceptor

datatype lane_sequence = LaneSequence u64

primrec lane_sequence_value :: "lane_sequence \<Rightarrow> u64" where
  "lane_sequence_value (LaneSequence v) = v"

definition lane_sequence_first :: lane_sequence where
  "lane_sequence_first = LaneSequence 0"

definition lane_sequence_next :: "bool \<Rightarrow> lane_sequence \<Rightarrow> (lane_sequence, 'e) exec" where
  "lane_sequence_next overflow_checks s =
     and_then (u64_increment overflow_checks (lane_sequence_value s)) (\<lambda>v. Ok (LaneSequence v))"

lemma session_epoch_value_inject: "session_epoch_value a = session_epoch_value b \<longleftrightarrow> a = b"
  by (cases a; cases b) simp

instantiation session_epoch :: linorder
begin

definition less_eq_session_epoch :: "session_epoch \<Rightarrow> session_epoch \<Rightarrow> bool" where
  "less_eq_session_epoch a b \<longleftrightarrow> session_epoch_value a \<le> session_epoch_value b"

definition less_session_epoch :: "session_epoch \<Rightarrow> session_epoch \<Rightarrow> bool" where
  "less_session_epoch a b \<longleftrightarrow> session_epoch_value a < session_epoch_value b"

instance
  by standard
    (auto simp: less_eq_session_epoch_def less_session_epoch_def simp flip: session_epoch_value_inject)

end

lemma lane_sequence_value_inject: "lane_sequence_value a = lane_sequence_value b \<longleftrightarrow> a = b"
  by (cases a; cases b) simp

instantiation lane_sequence :: linorder
begin

definition less_eq_lane_sequence :: "lane_sequence \<Rightarrow> lane_sequence \<Rightarrow> bool" where
  "less_eq_lane_sequence a b \<longleftrightarrow> lane_sequence_value a \<le> lane_sequence_value b"

definition less_lane_sequence :: "lane_sequence \<Rightarrow> lane_sequence \<Rightarrow> bool" where
  "less_lane_sequence a b \<longleftrightarrow> lane_sequence_value a < lane_sequence_value b"

instance
  by standard
    (auto simp: less_eq_lane_sequence_def less_lane_sequence_def simp flip: lane_sequence_value_inject)

end

subsection \<open>Identifiers\<close>

record exchange_identifier =
  ex_session_epoch :: session_epoch
  ex_lane :: exchange_lane
  ex_sequence :: lane_sequence

definition exchange_identifier_new ::
  "session_epoch \<Rightarrow> exchange_lane \<Rightarrow> lane_sequence \<Rightarrow> exchange_identifier" where
  "exchange_identifier_new e l s = \<lparr>ex_session_epoch = e, ex_lane = l, ex_sequence = s\<rparr>"

record stream_event_identifier =
  ev_session_epoch :: session_epoch
  ev_sequence :: lane_sequence

definition stream_event_acceptor ::
  "session_epoch \<Rightarrow> lane_sequence \<Rightarrow> stream_event_identifier" where
  "stream_event_acceptor e s = \<lparr>ev_session_epoch = e, ev_sequence = s\<rparr>"

definition ev_lane :: "stream_event_identifier \<Rightarrow> exchange_lane" where
  "ev_lane _ = Acceptor"

datatype exchange_mode = LaneSequenceMode (mode_session_epoch: session_epoch)

record exchange_handshake =
  exchange_mode :: exchange_mode

definition handshake_lane_sequence :: "session_epoch \<Rightarrow> exchange_handshake" where
  "handshake_lane_sequence e = \<lparr>exchange_mode = LaneSequenceMode e\<rparr>"

subsection \<open>Slots, revisions and subscription tokens\<close>

text \<open>\<^verbatim>\<open>Slot<Payload>\<close> carries its payload type only at the type level, as the phantom type here.\<close>

datatype 'p slot = Slot u64

primrec slot_number :: "'p slot \<Rightarrow> u64" where
  "slot_number (Slot n) = n"

datatype row_revision = Revision u64

primrec revision_number :: "row_revision \<Rightarrow> u64" where
  "revision_number (Revision n) = n"

definition revision_initial :: row_revision where
  "revision_initial = Revision 0"

datatype subscription_token_inner = SubscriptionTokenInner u64

primrec token_inner_value :: "subscription_token_inner \<Rightarrow> u64" where
  "token_inner_value (SubscriptionTokenInner v) = v"

subsection \<open>The counter contract\<close>

text \<open>\<open>mint n next c\<close> is what an owner of a counter at \<open>c\<close> does for \<open>n\<close> successive frames: use
  the current value, then advance.\<close>

fun mint :: "nat \<Rightarrow> ('c \<Rightarrow> ('c, 'e) exec) \<Rightarrow> 'c \<Rightarrow> ('c list, 'e) exec" where
  "mint 0 next c = Ok []"
| "mint (Suc 0) next c = Ok [c]"
| "mint (Suc n) next c =
     and_then (next c) (\<lambda>d. and_then (mint n next d) (\<lambda>ds. Ok (c # ds)))"

locale lane_counter =
  fixes advance :: "bool \<Rightarrow> 'c \<Rightarrow> ('c, 'e) exec"
    and count_of :: "'c \<Rightarrow> u64"
  assumes advance_small:
      "unat (count_of c) + 1 < 2 ^ 64 \<Longrightarrow>
         \<exists>d. advance ck c = Ok d \<and> unat (count_of d) = unat (count_of c) + 1"
    and advance_checked: "count_of c = - 1 \<Longrightarrow> advance True c = Err Panicked"
    and advance_wraps: "count_of c = - 1 \<Longrightarrow> \<exists>d. advance False c = Ok d \<and> count_of d = 0"
begin

lemma mint_counts:
  "unat (count_of c) + n \<le> 2 ^ 64 \<Longrightarrow>
     \<exists>cs. mint n (advance ck) c = Ok cs \<and>
       map (\<lambda>d. unat (count_of d)) cs = [unat (count_of c) ..< unat (count_of c) + n]"
proof (induction n "advance ck" c rule: mint.induct)
  case (3 n c)
  then obtain d where d: "advance ck c = Ok d" "unat (count_of d) = unat (count_of c) + 1"
    using advance_small [of c ck] by auto
  with 3 obtain cs where cs: "mint (Suc n) (advance ck) d = Ok cs"
      "map (\<lambda>d. unat (count_of d)) cs = [unat (count_of d) ..< unat (count_of d) + Suc n]"
    by fastforce
  then show ?case using d by (simp add: upt_conv_Cons del: upt_Suc)
qed simp_all

lemma mint_distinct:
  assumes "unat (count_of c) + n \<le> 2 ^ 64"
  shows "\<exists>cs. mint n (advance ck) c = Ok cs \<and> length cs = n \<and> distinct cs"
proof -
  obtain cs where cs: "mint n (advance ck) c = Ok cs"
    and counts: "map (\<lambda>d. unat (count_of d)) cs = [unat (count_of c) ..< unat (count_of c) + n]"
    using mint_counts [OF assms] by blast
  have "distinct (map (\<lambda>d. unat (count_of d)) cs)" "length (map (\<lambda>d. unat (count_of d)) cs) = n"
    by (simp_all only: counts distinct_upt length_upt diff_add_inverse)
  with cs show ?thesis by (auto simp: distinct_map)
qed

end

interpretation epoch_counter: lane_counter session_epoch_next session_epoch_value
proof
  fix c ck
  show "unat (session_epoch_value c) + 1 < 2 ^ 64 \<Longrightarrow>
      \<exists>d. session_epoch_next ck c = Ok d \<and>
        unat (session_epoch_value d) = unat (session_epoch_value c) + 1"
    using unat_u64_increment [of "session_epoch_value c"]
    by (simp add: session_epoch_next_def u64_increment_Ok)
qed (auto simp: session_epoch_next_def u64_increment_def)

interpretation sequence_counter: lane_counter lane_sequence_next lane_sequence_value
proof
  fix c ck
  show "unat (lane_sequence_value c) + 1 < 2 ^ 64 \<Longrightarrow>
      \<exists>d. lane_sequence_next ck c = Ok d \<and>
        unat (lane_sequence_value d) = unat (lane_sequence_value c) + 1"
    using unat_u64_increment [of "lane_sequence_value c"]
    by (simp add: lane_sequence_next_def u64_increment_Ok)
qed (auto simp: lane_sequence_next_def u64_increment_def)

lemma exchange_identifier_new_inject [simp]:
  "exchange_identifier_new e l s = exchange_identifier_new e' l' s' \<longleftrightarrow> e = e' \<and> l = l' \<and> s = s'"
  by (auto simp: exchange_identifier_new_def)

text \<open>
  C39.  Every exchange a side starts on its lane has an identifier of its own: starting at the
  first sequence and advancing with \<^verbatim>\<open>next\<close>, up to \<open>2 ^ 64\<close> identifiers are minted without a panic
  or a repetition, whether overflow is checked or wraps; and the identifiers of the two lanes of a
  connection never coincide.
\<close>

theorem lane_identifiers_distinct:
  assumes "n \<le> 2 ^ 64"
  shows "\<exists>ss. mint n (lane_sequence_next ck) lane_sequence_first = (Ok ss :: (lane_sequence list, 'e) exec)
     \<and> length ss = n
     \<and> distinct (map (exchange_identifier_new e Connector) ss @ map (exchange_identifier_new e Acceptor) ss)"
proof -
  obtain ss where "mint n (lane_sequence_next ck) lane_sequence_first
      = (Ok ss :: (lane_sequence list, 'e) exec)" "length ss = n" "distinct ss"
    using sequence_counter.mint_distinct [of lane_sequence_first n ck] assms
    by (auto simp: lane_sequence_first_def)
  then show ?thesis by (auto simp: distinct_map inj_on_def)
qed

theorem lane_identifiers_distinct_witness:
  "\<exists>ss. mint 3 (lane_sequence_next True) lane_sequence_first
       = (Ok ss :: (lane_sequence list, unit) exec)
     \<and> length ss = 3
     \<and> distinct (map (exchange_identifier_new (SessionEpoch 11) Connector) ss
         @ map (exchange_identifier_new (SessionEpoch 11) Acceptor) ss)"
  by (rule lane_identifiers_distinct) simp

text \<open>
  The additions of the counters are safe but for one value: advancing the last value panics
  when overflow is checked and otherwise wraps to zero, and at every other value the two builds
  agree and the counter advances by one.
\<close>

theorem counter_exhaustion:
  "session_epoch_next True (SessionEpoch (- 1)) = (Err Panicked :: (session_epoch, 'e) exec)
   \<and> session_epoch_next False (SessionEpoch (- 1)) = (Ok (SessionEpoch 0) :: (session_epoch, 'e) exec)
   \<and> (\<forall>v. v \<noteq> - 1 \<longleftrightarrow>
        session_epoch_next True (SessionEpoch v)
          = (session_epoch_next False (SessionEpoch v) :: (session_epoch, 'e) exec))
   \<and> (lane_sequence_next True (LaneSequence w) = (Ok s :: (lane_sequence, 'e) exec)
        \<longleftrightarrow> unat (lane_sequence_value s) = unat w + 1)"
proof -
  have "w = - 1 \<longleftrightarrow> unat w = 2 ^ 64 - 1" for w :: u64
    by (simp add: unat_eq_nat_uint [symmetric] word_unat_eq_iff unsigned_minus_1_eq_mask mask_eq_exp_minus_1)
  moreover have "unat (lane_sequence_value s) < 2 ^ 64"
    using unsigned_less [of "lane_sequence_value s"] by simp
  moreover have "unat (w + 1) = unat w + 1" if "unat w \<noteq> 2 ^ 64 - 1" for w :: u64
  proof -
    have "unat w < 2 ^ LENGTH(64)" by (rule unsigned_less)
    with that show ?thesis by (intro unat_u64_increment(2)) simp
  qed
  ultimately have "lane_sequence_next True (LaneSequence w) = (Ok s :: (lane_sequence, 'e) exec)
      \<longleftrightarrow> unat (lane_sequence_value s) = unat w + 1"
    by (cases s) (auto simp: lane_sequence_next_def u64_increment_def word_unat_eq_iff)
  then show ?thesis
    by (auto simp: session_epoch_next_def u64_increment_def)
qed

end
