(* ===== verification/Version.thy ===== *)
theory Version
  imports Machine_Words
begin

text \<open>
  \<^verbatim>\<open>src/version.rs\<close>: protocol versions, the compatibility test, and the handshake records.
\<close>

record protocol_version =
  major :: u16
  minor :: u16
  patch :: u16

definition protocol_version_new :: "u16 \<Rightarrow> u16 \<Rightarrow> u16 \<Rightarrow> protocol_version" where
  "protocol_version_new a b c = \<lparr>major = a, minor = b, patch = c\<rparr>"

definition accepts :: "protocol_version \<Rightarrow> protocol_version \<Rightarrow> bool" where
  "accepts self peer \<longleftrightarrow> major self = major peer \<and> minor self \<ge> minor peer"

definition SIGNAL_FRAME_PROTOCOL_VERSION :: protocol_version where
  "SIGNAL_FRAME_PROTOCOL_VERSION = protocol_version_new 0 1 0"

record handshake_request =
  hs_version :: protocol_version

definition handshake_request_new :: "protocol_version \<Rightarrow> handshake_request" where
  "handshake_request_new v = \<lparr>hs_version = v\<rparr>"

definition handshake_request_current :: handshake_request where
  "handshake_request_current = handshake_request_new SIGNAL_FRAME_PROTOCOL_VERSION"

datatype handshake_rejection_reason =
  IncompatibleVersion (reject_local: protocol_version) (reject_peer: protocol_version)

datatype handshake_reply =
    HandshakeAccepted protocol_version
  | HandshakeRejected handshake_rejection_reason

text \<open>
  Compatibility is a preorder inside a major version: a version accepts itself, acceptance
  composes, two versions accept each other exactly when they differ in the patch number only, and
  among versions of one major number any two are comparable.
\<close>

theorem accepts_preorder:
  "accepts v v
   \<and> (accepts u w \<or> \<not> (accepts u v \<and> accepts v w))
   \<and> (accepts u v \<and> accepts v u \<longleftrightarrow> (\<exists>p. u = v\<lparr>patch := p\<rparr>))
   \<and> (major u = major v \<longleftrightarrow> accepts u v \<or> accepts v u)"
proof -
  have "(accepts u v \<and> accepts v u) = (\<exists>p. u = v\<lparr>patch := p\<rparr>)"
  proof
    assume "accepts u v \<and> accepts v u"
    then have eqs: "major u = major v" "minor u = minor v"
      unfolding accepts_def by (blast intro: order.antisym)+
    have "u = v\<lparr>patch := patch u\<rparr>"
      by (rule protocol_version.equality) (simp_all add: eqs)
    then show "\<exists>p. u = v\<lparr>patch := p\<rparr>" by (rule exI)
  next
    assume "\<exists>p. u = v\<lparr>patch := p\<rparr>"
    then show "accepts u v \<and> accepts v u" by (elim exE) (simp add: accepts_def)
  qed
  moreover have "major u = major v \<longleftrightarrow> accepts u v \<or> accepts v u"
    by (auto simp: accepts_def)
  moreover have "accepts u w" if "accepts u v" "accepts v w"
    using that by (auto simp: accepts_def)
  ultimately show ?thesis by (auto simp: accepts_def [of v v])
qed

theorem accepts_preorder_witness:
  "accepts (protocol_version_new 1 3 0) (protocol_version_new 1 2 4)
   \<and> accepts (protocol_version_new 1 2 4) (protocol_version_new 1 1 9)
   \<and> accepts (protocol_version_new 1 3 0) (protocol_version_new 1 1 9)
   \<and> \<not> accepts (protocol_version_new 1 1 9) (protocol_version_new 1 2 4)"
proof -
  have steps: "accepts (protocol_version_new 1 3 0) (protocol_version_new 1 2 4)"
    "accepts (protocol_version_new 1 2 4) (protocol_version_new 1 1 9)"
    "\<not> accepts (protocol_version_new 1 1 9) (protocol_version_new 1 2 4)"
    by (simp_all add: accepts_def protocol_version_new_def word_le_nat_alt)
  then show ?thesis
    using accepts_preorder [of "protocol_version_new 1 2 4" "protocol_version_new 1 3 0"
        "protocol_version_new 1 1 9"] by blast
qed

end
