(* ===== verification/Namespace.thy ===== *)
theory Namespace
  imports Machine_Words
begin

text \<open>
  \<^verbatim>\<open>src/namespace.rs\<close>: the two sections of the root-verb byte, and the compile-time check
  \<^verbatim>\<open>assert_triad_sections!\<close> as the outcome of the \<^verbatim>\<open>const\<close> block it expands to, whose two
  panicking arms carry the message they print.
\<close>

datatype namespace_section = Small | Big

definition SECTION_CUTOFF :: u8 where
  "SECTION_CUTOFF = 100"

definition classify :: "u8 \<Rightarrow> namespace_section" where
  "classify byte = (if byte < SECTION_CUTOFF then Small else Big)"

fun assert_triad_sections ::
  "string \<Rightarrow> string \<Rightarrow> namespace_section \<Rightarrow> namespace_section \<Rightarrow> string + unit" where
  "assert_triad_sections ordinary meta Small Big = Ok ()"
| "assert_triad_sections ordinary meta Big Small = Ok ()"
| "assert_triad_sections ordinary meta Small Small = Err (ordinary @ '' and '' @ meta @
     '' both claim NamespaceSection::Small; ordinary and meta contracts must claim opposite byte-0 namespace sections'')"
| "assert_triad_sections ordinary meta Big Big = Err (ordinary @ '' and '' @ meta @
     '' both claim NamespaceSection::Big; ordinary and meta contracts must claim opposite byte-0 namespace sections'')"

lemma classify_Small_iff: "classify b = Small \<longleftrightarrow> unat b \<le> 99"
  by (auto simp: classify_def SECTION_CUTOFF_def word_less_nat_alt)

lemma classify_Big_iff: "classify b = Big \<longleftrightarrow> 100 \<le> unat b"
  by (auto simp: classify_def SECTION_CUTOFF_def word_less_nat_alt)

text \<open>
  The sections split the 256 root bytes at decimal 100, and the compile-time check does what
  it is for: a daemon compiles exactly when no root byte belongs to the sections of both its
  contracts.
\<close>

theorem triad_sections_disjoint:
  "(classify b = Small \<longleftrightarrow> unat b \<le> 99) \<and> (classify b = Big \<longleftrightarrow> 100 \<le> unat b)
   \<and> ((assert_triad_sections ordinary meta s t = Ok ()) =
      ({byte. classify byte = s} \<inter> {byte. classify byte = t} = {}))"
proof -
  have "classify 0 = Small" "classify 100 = Big" by (simp_all add: classify_def SECTION_CUTOFF_def)
  then have "({byte. classify byte = s} \<inter> {byte. classify byte = t} = {}) = (s \<noteq> t)"
    by (cases s; cases t) auto
  moreover have "(assert_triad_sections ordinary meta s t = Ok ()) = (s \<noteq> t)"
    by (cases s; cases t) simp_all
  ultimately show ?thesis by (simp add: classify_Small_iff classify_Big_iff)
qed

end
