(* ===== verification/Non_Empty.thy ===== *)
theory Non_Empty
  imports Prelude
begin

text \<open>
  \<^verbatim>\<open>src/non_empty.rs\<close>: the non-empty sequence, its fallible construction, and its borrowing
  iterator as a state machine (\<^verbatim>\<open>NonEmptyIterator::next\<close>).  The locale \<open>draining_iterator\<close> is
  the contract of \<^verbatim>\<open>Iterator\<close> the program's loops rely on; it is interpreted on the borrowing
  iterator and on the iterator of the vector that \<^verbatim>\<open>IntoIterator for NonEmpty\<close> returns.
\<close>

record 'a non_empty =
  ne_head :: 'a
  ne_tail :: "'a list"

datatype non_empty_error = EmptySequence

primrec non_empty_error_display :: "non_empty_error \<Rightarrow> string" where
  "non_empty_error_display EmptySequence = ''cannot construct a NonEmpty from an empty sequence''"

definition ne_single :: "'a \<Rightarrow> 'a non_empty" where
  "ne_single h = \<lparr>ne_head = h, ne_tail = []\<rparr>"

definition ne_from_head_and_tail :: "'a \<Rightarrow> 'a list \<Rightarrow> 'a non_empty" where
  "ne_from_head_and_tail h t = \<lparr>ne_head = h, ne_tail = t\<rparr>"

fun ne_try_from_vec :: "'a list \<Rightarrow> ('a non_empty, non_empty_error) result" where
  "ne_try_from_vec [] = Err EmptySequence"
| "ne_try_from_vec (h # t) = Ok \<lparr>ne_head = h, ne_tail = t\<rparr>"

definition ne_push :: "'a \<Rightarrow> 'a non_empty \<Rightarrow> 'a non_empty" where
  "ne_push v s = s\<lparr>ne_tail := ne_tail s @ [v]\<rparr>"

definition ne_len :: "'a non_empty \<Rightarrow> nat" where
  "ne_len s = 1 + length (ne_tail s)"

definition ne_is_empty :: "'a non_empty \<Rightarrow> bool" where
  "ne_is_empty s = False"

definition ne_into_vec :: "'a non_empty \<Rightarrow> 'a list" where
  "ne_into_vec s = [ne_head s] @ ne_tail s"

definition ne_into_head :: "'a non_empty \<Rightarrow> 'a" where
  "ne_into_head s = ne_head s"

definition ne_into_head_and_tail :: "'a non_empty \<Rightarrow> 'a \<times> 'a list" where
  "ne_into_head_and_tail s = (ne_head s, ne_tail s)"

subsection \<open>The iterator\<close>

record 'a ne_iterator =
  it_head :: "'a option"
  it_tail :: "'a list"

definition ne_iter :: "'a non_empty \<Rightarrow> 'a ne_iterator" where
  "ne_iter s = \<lparr>it_head = Some (ne_head s), it_tail = ne_tail s\<rparr>"

definition slice_next :: "'a list \<Rightarrow> 'a option \<times> 'a list" where
  "slice_next xs = (case xs of [] \<Rightarrow> (None, []) | x # ys \<Rightarrow> (Some x, ys))"

definition ne_iterator_next :: "'a ne_iterator \<Rightarrow> 'a option \<times> 'a ne_iterator" where
  "ne_iterator_next it =
     (case it_head it of
        Some h \<Rightarrow> (Some h, it\<lparr>it_head := None\<rparr>)
      | None \<Rightarrow> (case slice_next (it_tail it) of (r, rest) \<Rightarrow> (r, it\<lparr>it_tail := rest\<rparr>)))"

text \<open>Calling an iterator's \<^verbatim>\<open>next\<close> \<open>n\<close> times, keeping what it yields.\<close>

fun poll :: "('it \<Rightarrow> 'a option \<times> 'it) \<Rightarrow> nat \<Rightarrow> 'it \<Rightarrow> 'a option list" where
  "poll next 0 it = []"
| "poll next (Suc n) it = (case next it of (r, it') \<Rightarrow> r # poll next n it')"

locale draining_iterator =
  fixes advance :: "'it \<Rightarrow> 'a option \<times> 'it"
    and pending :: "'it \<Rightarrow> 'a list"
  assumes advance_empty: "pending it = [] \<Longrightarrow> fst (advance it) = None \<and> pending (snd (advance it)) = []"
    and advance_cons: "pending it = x # xs \<Longrightarrow> fst (advance it) = Some x \<and> pending (snd (advance it)) = xs"
begin

lemma poll_pending:
  "poll advance n it = map Some (take n (pending it)) @ replicate (n - length (pending it)) None"
proof (induction n arbitrary: it)
  case 0
  show ?case by simp
next
  case (Suc n)
  show ?case
  proof (cases "pending it")
    case Nil
    with Suc advance_empty [OF Nil] show ?thesis by (simp add: case_prod_beta)
  next
    case (Cons x xs)
    with Suc advance_cons [OF Cons] show ?thesis by (simp add: case_prod_beta)
  qed
qed

lemma poll_all: "n = length (pending it) \<Longrightarrow> poll advance n it = map Some (pending it)"
  by (simp add: poll_pending)

end

definition ne_pending :: "'a ne_iterator \<Rightarrow> 'a list" where
  "ne_pending it = (case it_head it of None \<Rightarrow> [] | Some h \<Rightarrow> [h]) @ it_tail it"

interpretation slice_iterator: draining_iterator slice_next "\<lambda>xs. xs"
  by unfold_locales (auto simp: slice_next_def)

interpretation borrowed_iterator: draining_iterator ne_iterator_next ne_pending
  by unfold_locales
    (auto simp: ne_iterator_next_def ne_pending_def slice_next_def
      split: option.splits list.splits)

subsection \<open>Lemmas\<close>

lemma ne_pending_iter [simp]: "ne_pending (ne_iter s) = ne_into_vec s"
  by (simp add: ne_pending_def ne_iter_def ne_into_vec_def)

lemma ne_into_vec_simps [simp]:
  "ne_into_vec (ne_single h) = [h]"
  "ne_into_vec \<lparr>ne_head = h, ne_tail = t\<rparr> = h # t"
  "ne_into_vec (ne_from_head_and_tail h t) = h # t"
  "ne_into_vec (ne_push v s) = ne_into_vec s @ [v]"
  by (simp_all add: ne_single_def ne_into_vec_def ne_from_head_and_tail_def ne_push_def)

lemma ne_into_vec_nonempty [simp]: "ne_into_vec s \<noteq> []"
  by (simp add: ne_into_vec_def)

lemma length_ne_into_vec [simp]: "length (ne_into_vec s) = ne_len s"
  by (simp add: ne_into_vec_def ne_len_def)

lemma ne_try_from_vec_Ok_iff [fault_iffs]: "ne_try_from_vec xs = Inr s \<longleftrightarrow> ne_into_vec s = xs"
  by (cases xs) (auto simp: ne_into_vec_def)

lemma ne_try_from_vec_Err_iff [fault_iffs]:
  "ne_try_from_vec xs = Inl e \<longleftrightarrow> xs = [] \<and> e = EmptySequence"
  by (cases xs) auto

lemma ne_try_from_vec_into_vec [simp]: "ne_try_from_vec (ne_into_vec s) = Ok s"
  by (simp add: fault_iffs)

lemma ne_into_vec_inject [simp]: "ne_into_vec s = ne_into_vec t \<longleftrightarrow> s = t"
  by (metis ne_try_from_vec_into_vec sum.inject(2))

lemma ne_tail_empty_iff: "ne_tail s = [] \<longleftrightarrow> (\<exists>h. s = ne_single h)"
  by (auto simp: ne_single_def intro: non_empty.equality exI [of _ "ne_head s"])

text \<open>Mapping a non-empty sequence, for the statements of the clients.\<close>

definition ne_map :: "('a \<Rightarrow> 'b) \<Rightarrow> 'a non_empty \<Rightarrow> 'b non_empty" where
  "ne_map f s = \<lparr>ne_head = f (ne_head s), ne_tail = map f (ne_tail s)\<rparr>"

lemma ne_into_vec_map [simp]: "ne_into_vec (ne_map f s) = map f (ne_into_vec s)"
  by (simp add: ne_map_def ne_into_vec_def)

subsection \<open>Properties\<close>

text \<open>
  A non-empty sequence is exactly a vector that is not empty: construction from a vector
  succeeds precisely on these, \<^verbatim>\<open>into_vec\<close> is its inverse, and pushing appends.
\<close>

theorem non_empty_vec_iso:
  "(ne_try_from_vec xs = Ok s \<longleftrightarrow> xs = ne_into_vec s)
   \<and> (ne_try_from_vec xs = Err EmptySequence \<longleftrightarrow> xs = [])
   \<and> ne_into_vec (ne_push v s) = ne_into_vec s @ [v]
   \<and> ne_len (ne_push v s) = Suc (ne_len s) \<and> ne_len s = length (ne_into_vec s)
   \<and> ne_is_empty s = (ne_into_vec s = [])"
  by (auto simp: fault_iffs ne_is_empty_def simp flip: length_ne_into_vec)

text \<open>
  Iterating by reference yields the elements in the order of \<^verbatim>\<open>into_vec\<close>, each once, and
  keeps answering \<^verbatim>\<open>None\<close> afterwards.
\<close>

theorem non_empty_iter_order:
  "poll ne_iterator_next n (ne_iter s)
     = map Some (take n (ne_into_vec s)) @ replicate (n - ne_len s) None"
  using borrowed_iterator.poll_pending [of n "ne_iter s"] by simp

end
