(* ===== verification/Caller.thy ===== *)
theory Caller
  imports Text
begin

text \<open>
  \<^verbatim>\<open>src/caller.rs\<close>: the advisory caller context and its capture from \<^verbatim>\<open>/proc\<close>.  What the kernel
  answers (the parent's id, the \<^verbatim>\<open>exe\<close> link, the \<^verbatim>\<open>stat\<close> file, the lossy conversion of paths) are
  fields of \<open>kernel\<close>; the parsing of the \<^verbatim>\<open>stat\<close> line is the program's own and is modelled in
  full.
\<close>

datatype caller_identity = CallerIdentity string

primrec caller_identity_as_str :: "caller_identity \<Rightarrow> string" where
  "caller_identity_as_str (CallerIdentity s) = s"

datatype process_identifier = ProcessIdentifier u32

primrec process_identifier_value :: "process_identifier \<Rightarrow> u32" where
  "process_identifier_value (ProcessIdentifier v) = v"

datatype executable_path = ExecutablePath string

primrec executable_path_as_str :: "executable_path \<Rightarrow> string" where
  "executable_path_as_str (ExecutablePath s) = s"

datatype process_start_time = ProcessStartTime u64

primrec clock_ticks_after_boot :: "process_start_time \<Rightarrow> u64" where
  "clock_ticks_after_boot (ProcessStartTime t) = t"

record caller =
  caller_identity :: "caller_identity option"
  caller_pid :: process_identifier
  caller_executable :: "executable_path option"
  caller_start_time :: "process_start_time option"

definition caller_new ::
  "process_identifier \<Rightarrow> executable_path option \<Rightarrow> process_start_time option \<Rightarrow> caller" where
  "caller_new pid executable start_time =
     \<lparr>caller_identity = None, caller_pid = pid, caller_executable = executable,
      caller_start_time = start_time\<rparr>"

definition caller_with_identity :: "caller_identity option \<Rightarrow> caller \<Rightarrow> caller" where
  "caller_with_identity i c = c\<lparr>caller_identity := i\<rparr>"

subsection \<open>The stat line\<close>

definition start_time_ticks :: "string \<Rightarrow> u64 option" where
  "start_time_ticks stat =
     (case rfind stat '') '' of
        None \<Rightarrow> None
      | Some close \<Rightarrow>
          (let fields = split_whitespace (drop (close + 2) stat)
           in if 19 < length fields then parse_u64 (fields ! 19) else None))"

text \<open>The operating system as the program reads it; a path is the operating system's byte string.\<close>

record kernel =
  k_process_id :: u32
  k_parent_id :: u32
  k_current_exe :: "string option"
  k_read_link_exe :: "u32 \<Rightarrow> string option"
  k_read_stat :: "u32 \<Rightarrow> string option"
  k_to_string_lossy :: "string \<Rightarrow> string"

definition executable_path_new :: "kernel \<Rightarrow> string \<Rightarrow> executable_path" where
  "executable_path_new k path = ExecutablePath (k_to_string_lossy k path)"

definition process_start_time :: "kernel \<Rightarrow> u32 \<Rightarrow> u64 option" where
  "process_start_time k pid =
     (case k_read_stat k pid of None \<Rightarrow> None | Some stat \<Rightarrow> start_time_ticks stat)"

definition parent_executable :: "kernel \<Rightarrow> u32 \<Rightarrow> string option" where
  "parent_executable k parent = k_read_link_exe k parent"

definition caller_current_process :: "kernel \<Rightarrow> caller" where
  "caller_current_process k =
     \<lparr>caller_identity = None,
      caller_pid = ProcessIdentifier (k_process_id k),
      caller_executable = map_option (executable_path_new k) (k_current_exe k),
      caller_start_time = map_option ProcessStartTime (process_start_time k (k_process_id k))\<rparr>"

definition caller_from_kernel :: "kernel \<Rightarrow> caller option" where
  "caller_from_kernel k =
     (let parent = k_parent_id k
      in if parent = 1 then None
         else Some
           \<lparr>caller_identity = None,
            caller_pid = ProcessIdentifier parent,
            caller_executable = map_option (executable_path_new k) (parent_executable k parent),
            caller_start_time = map_option ProcessStartTime (process_start_time k parent)\<rparr>)"

subsection \<open>Parsing\<close>

text \<open>A field of the stat line after the command name: printable and without a closing bracket.\<close>

definition stat_field :: "string \<Rightarrow> bool" where
  "stat_field w \<longleftrightarrow> w \<noteq> [] \<and> list_all graphic w \<and> CHR '')'' \<notin> set w"

lemma set_join_fields: "set (join_fields ws) \<subseteq> insert (CHR '' '') (\<Union> (set ` set ws))"
  by (induction ws rule: join_fields.induct) auto

lemma starts_with_bracket: "starts_with s '') '' \<Longrightarrow> CHR '')'' \<in> set s"
  by (auto simp: starts_with_iff)

lemma rfind_command_end:
  assumes "CHR '')'' \<notin> set rest"
  shows "rfind (pre @ '') '' @ rest) '') '' = Some (length pre)"
proof (rule rfind_last)
  fix j
  assume j: "length pre < j" "j < length (pre @ '') '' @ rest)"
  then obtain i where i: "j = length pre + Suc i" using less_iff_Suc_add by auto
  then have "drop j (pre @ '') '' @ rest) = drop i (CHR '' '' # rest)" by simp
  moreover have "CHR '')'' \<notin> set (drop i (CHR '' '' # rest))"
    using assms set_drop_subset [of i "CHR '' '' # rest"] by auto
  ultimately show "\<not> starts_with (drop j (pre @ '') '' @ rest)) '') ''"
    using starts_with_bracket by metis
qed (simp_all add: starts_with_def)

lemma start_time_ticks_line:
  assumes "CHR '')'' \<notin> set rest"
  shows "start_time_ticks (pre @ '') '' @ rest) =
    (if 19 < length (split_whitespace rest) then parse_u64 (split_whitespace rest ! 19) else None)"
  using rfind_command_end [OF assms, of pre] by (simp add: start_time_ticks_def Let_def)

text \<open>
  C34.  Whatever the command name of the process contains, brackets and spaces included, the start
  time read from a \<^verbatim>\<open>/proc/<pid>/stat\<close> line is its 22nd field, the twentieth after the command
  name, when that field is the decimal print of a 64-bit number; a line with fewer fields gives none.
\<close>

theorem start_time_is_field_22:
  assumes "list_all stat_field fs"
  shows "start_time_ticks (pid @ '' ('' @ command @ '') '' @ join_fields fs) =
    (if 19 < length fs then parse_u64 (fs ! 19) else None)"
proof -
  have "CHR '')'' \<notin> set (join_fields fs)"
    using set_join_fields [of fs] assms by (auto simp: list_all_iff stat_field_def)
  moreover have "split_whitespace (join_fields fs) = fs"
    by (rule split_whitespace_join_fields) (use assms in \<open>simp add: list_all_iff stat_field_def\<close>)
  ultimately show ?thesis
    using start_time_ticks_line [of "join_fields fs" "pid @ '' ('' @ command"] by simp
qed

lemma stat_field_decimal [simp]: "stat_field (decimal n)"
proof -
  have "c \<noteq> CHR '')''" if "c \<in> set (decimal n)" for c
    using that
  proof (induction n rule: decimal.induct)
    case (1 n)
    have digit: "char_of (48 + d) \<noteq> CHR '')''" if "d < 10" for d :: nat
    proof
      assume "char_of (48 + d) = CHR '')''"
      then have "code (char_of (48 + d)) = code (CHR '')'')" by simp
      then show False using that by (simp add: code_def [of "CHR '')''"])
    qed
    show ?case
    proof (cases "n < 10")
      case True
      with "1.prems" digit [of n] show ?thesis by (simp add: decimal.simps [of n])
    next
      case False
      with 1 digit [of "n mod 10"] show ?thesis by (auto simp: decimal.simps [of n])
    qed
  qed
  then show ?thesis using decimal_graphic [of n] by (auto simp: stat_field_def)
qed

theorem start_time_is_field_22_witness:
  "start_time_ticks (''4711 ('' @ ''tmux: server) (x'' @ '') '' @
     join_fields (''S'' # map decimal [2 ..< 21] @ [decimal 77])) = Some 20"
proof -
  let ?fields = "''S'' # map decimal [2 ..< 21] @ [decimal 77]"
  have "list_all stat_field ?fields"
    by (auto simp: list_all_iff) (simp add: stat_field_def graphic_def code_def)
  from start_time_is_field_22 [OF this, of "''4711''" "''tmux: server) (x''"]
  show ?thesis by (simp add: parse_u64_decimal nth_append)
qed

text \<open>A captured caller carries no claimed identity, and a process started by \<^verbatim>\<open>init\<close> has none.\<close>

lemma caller_from_kernel_anonymous:
  "caller_from_kernel k = Some c \<Longrightarrow>
     caller_identity c = None \<and> process_identifier_value (caller_pid c) \<noteq> 1"
  by (auto simp: caller_from_kernel_def Let_def split: if_splits)

end
