(* ===== verification/Dotos_Text.thy ===== *)
theory Dotos_Text
  imports Text
begin

text \<open>
  The interface of the external \<^verbatim>\<open>dotos\<close> crate that the program's text forms call: the decode
  errors the program builds itself, and the block operations as a record of functions on blocks
  \<open>'b\<close>.  \<open>dotos_blocks_law\<close> names what the text forms rely on; a codec on the texts themselves
  satisfies it.
\<close>

text \<open>The crate's other errors are the type parameter \<open>'x\<close> of \<open>DotosOther\<close>.\<close>

datatype 'x dotos_decode_error =
    ExpectedRootCount string usize usize
  | UnknownVariant string string
  | ExpectedAtom string
  | DotosOther 'x

text \<open>
  \<^verbatim>\<open>Delimiter::Parenthesis.wrap\<close>, \<^verbatim>\<open>DotosBlock::expect_children\<close> of a parenthesised block,
  \<^verbatim>\<open>Block::demote_to_string\<close>, and the \<^verbatim>\<open>u64\<close> codec.
\<close>

record ('b, 'x) dotos_blocks =
  wrap_parenthesis :: "string list \<Rightarrow> string"
  expect_children :: "'b \<Rightarrow> string \<Rightarrow> nat \<Rightarrow> ('b list, 'x dotos_decode_error) result"
  demote_to_string :: "'b \<Rightarrow> string option"
  u64_to_dotos :: "u64 \<Rightarrow> string"
  u64_from_dotos_block :: "'b \<Rightarrow> (u64, 'x dotos_decode_error) result"

text \<open>Indexing a slice panics out of bounds.\<close>

definition index_at :: "'a list \<Rightarrow> nat \<Rightarrow> ('a, 'e) exec" where
  "index_at xs i = (if i < length xs then Ok (xs ! i) else Err Panicked)"

lemma index_at_simps [simp]:
  "index_at (x # xs) 0 = Ok x" "index_at (x # xs) (Suc n) = index_at xs n"
  "index_at (x # y # xs) 1 = Ok y"
  by (simp_all add: index_at_def)

lemma never_panics_index_at [simp]: "i < length xs \<Longrightarrow> never_panics (index_at xs i)"
  by (simp add: index_at_def)

definition ascii_letter :: "char \<Rightarrow> bool" where
  "ascii_letter c \<longleftrightarrow> 65 \<le> code c \<and> code c \<le> 90 \<or> 97 \<le> code c \<and> code c \<le> 122"

definition identifier_text :: "string \<Rightarrow> bool" where
  "identifier_text s \<longleftrightarrow>
     s \<noteq> [] \<and> ascii_letter (hd s) \<and> list_all (\<lambda>c. ascii_letter c \<or> is_ascii_digit c \<or> code c = 95) s"

lemmas identifier_text_simps = identifier_text_def ascii_letter_def is_ascii_digit_def code_def

text \<open>
  \<open>block_text\<close> holds of the texts of one block, and \<open>parse\<close> reads that block.  A parenthesised
  record of a name and the text of a block is a block, is not an atom and has these two children,
  \<^verbatim>\<open>expect_children\<close> gives as many children as it was asked for, an identifier is an atom, and the
  text of a \<^verbatim>\<open>u64\<close> is a block that reads back.
\<close>

definition dotos_blocks_law :: "(string \<Rightarrow> bool) \<Rightarrow> (string \<Rightarrow> 'b) \<Rightarrow> ('b, 'x) dotos_blocks \<Rightarrow> bool" where
  "dotos_blocks_law block_text parse d \<longleftrightarrow>
     (\<forall>type_name name value. identifier_text name \<and> block_text value \<longrightarrow>
        expect_children d (parse (wrap_parenthesis d [name, value])) type_name 2
          = Ok [parse name, parse value]
        \<and> demote_to_string d (parse (wrap_parenthesis d [name, value])) = None
        \<and> block_text (wrap_parenthesis d [name, value])) \<and>
     (\<forall>block type_name n children.
        expect_children d block type_name n = Ok children \<longrightarrow> length children = n) \<and>
     (\<forall>name. identifier_text name \<longrightarrow> demote_to_string d (parse name) = Some name) \<and>
     (\<forall>v. block_text (u64_to_dotos d v) \<and> u64_from_dotos_block d (parse (u64_to_dotos d v)) = Ok v)"

lemma dotos_blocks_lawD:
  assumes "dotos_blocks_law block_text parse d"
  shows "identifier_text name \<Longrightarrow> block_text field \<Longrightarrow>
      expect_children d (parse (wrap_parenthesis d [name, field])) type_name 2 = Ok [parse name, parse field]"
    and "identifier_text name \<Longrightarrow> block_text field \<Longrightarrow>
      demote_to_string d (parse (wrap_parenthesis d [name, field])) = None"
    and "identifier_text name \<Longrightarrow> demote_to_string d (parse name) = Some name"
    and "u64_from_dotos_block d (parse (u64_to_dotos d v)) = Ok v"
    and "expect_children d block type_name n = Ok children \<Longrightarrow> length children = n"
    and "identifier_text name \<Longrightarrow> block_text field \<Longrightarrow> block_text (wrap_parenthesis d [name, field])"
    and "block_text (u64_to_dotos d v)"
  using assms by (simp_all add: dotos_blocks_law_def)

text \<open>A codec on the texts themselves.\<close>

definition text_blocks :: "(string, unit) dotos_blocks" where
  "text_blocks =
     \<lparr>wrap_parenthesis = (\<lambda>xs. CHR ''('' # hd xs @ CHR '' '' # hd (tl xs) @ '')''),
      expect_children = (\<lambda>b type_name n.
        if n = 2 \<and> starts_with b ''(''
        then Ok [takeWhile (\<lambda>c. c \<noteq> CHR '' '') (tl b), butlast (tl (dropWhile (\<lambda>c. c \<noteq> CHR '' '') (tl b)))]
        else Err (DotosOther ())),
      demote_to_string = (\<lambda>b. if starts_with b ''('' then None else Some b),
      u64_to_dotos = (\<lambda>v. decimal (unat v)),
      u64_from_dotos_block = (\<lambda>b. ok_or (DotosOther ()) (parse_u64 b))\<rparr>"

lemma identifier_text_no_space: "identifier_text name \<Longrightarrow> c \<in> set name \<Longrightarrow> c \<noteq> CHR '' ''"
  by (auto simp: identifier_text_def list_all_iff ascii_letter_def is_ascii_digit_def code_def)

lemma identifier_text_no_parenthesis: "identifier_text name \<Longrightarrow> \<not> starts_with name ''(''"
  by (cases name) (auto simp: identifier_text_simps starts_with_def)

lemma identifier_text_head: "identifier_text name \<Longrightarrow> take (Suc 0) name \<noteq> ''(''"
  using identifier_text_no_parenthesis [of name] by (simp add: starts_with_def)

lemma text_blocks_law: "dotos_blocks_law (\<lambda>_. True) (\<lambda>s. s) text_blocks"
proof -
  have "parse_u64 (decimal (unat v)) = Some v" for v :: u64
    using parse_u64_decimal [of "unat v"] unsigned_less [of v] by simp
  moreover have "takeWhile (\<lambda>c. c \<noteq> CHR '' '') (name @ CHR '' '' # rest) = name"
    "dropWhile (\<lambda>c. c \<noteq> CHR '' '') (name @ CHR '' '' # rest) = CHR '' '' # rest"
    if "identifier_text name" for name rest
    using identifier_text_no_space [OF that] by (simp_all add: takeWhile_append2 dropWhile_append2)
  ultimately show ?thesis
    by (auto simp: dotos_blocks_law_def text_blocks_def butlast_append identifier_text_head
        starts_with_def split: if_splits)
qed

end
