(* ===== verification/Request.thy ===== *)
theory Request
  imports Caller Non_Empty Short_Header Dotos_Text
begin

text \<open>
  \<^verbatim>\<open>src/request.rs\<close>: the request of one or more payloads, its route, the builder, and its DOTOS
  text form.  The \<^verbatim>\<open>LogVariant\<close> implementation of the payload type is an argument
  (\<open>log_variant\<close>), and so are the operations of the external \<^verbatim>\<open>dotos\<close> crate that the text form
  calls: \<open>wrap_square\<close> (\<^verbatim>\<open>Delimiter::SquareBracket.wrap\<close>), \<open>as_square\<close>
  (\<^verbatim>\<open>Block::as_delimited\<close>), and the payload's own \<^verbatim>\<open>to_dotos\<close> and \<^verbatim>\<open>from_dotos_block\<close>.
\<close>

record 'p request =
  req_caller :: "caller option"
  req_payloads :: "'p non_empty"

definition request_from_payloads :: "'p non_empty \<Rightarrow> 'p request" where
  "request_from_payloads ps = \<lparr>req_caller = None, req_payloads = ps\<rparr>"

definition request_with_caller :: "caller option \<Rightarrow> 'p request \<Rightarrow> 'p request" where
  "request_with_caller c r = r\<lparr>req_caller := c\<rparr>"

definition request_from_payload :: "'p \<Rightarrow> 'p request" where
  "request_from_payload p = \<lparr>req_caller = None, req_payloads = ne_single p\<rparr>"

definition into_request :: "'p \<Rightarrow> 'p request" where
  "into_request p = request_from_payload p"

definition request_route ::
  "'p log_variant \<Rightarrow> 'p request \<Rightarrow> (wire_route, wire_route_error) result" where
  "request_route log_variant r = try_from_log_variant (log_variant (ne_head (req_payloads r)))"

text \<open>
  What \<^verbatim>\<open>LogVariant\<close> promises where a request is routed: the projected value is that of a route.
\<close>

locale route_projection =
  fixes log_variant :: "'p log_variant"
    and route_of :: "'p \<Rightarrow> wire_route"
  assumes projects: "log_variant p = log_variant_of_route (route_of p)"
begin

lemma request_routed: "request_route log_variant r = Ok (route_of (ne_head (req_payloads r)))"
  by (simp add: request_route_def projects)

lemma route_of_pushed:
  "request_route log_variant (request_from_payloads (ne_push p ps))
     = request_route log_variant (request_from_payloads ps)"
  by (simp add: request_route_def request_from_payloads_def ne_push_def)

end

text \<open>The routes themselves are such a type: \<^verbatim>\<open>WireRoute\<close> written as its 64-bit projection.\<close>

interpretation route_itself: route_projection log_variant_of_route "\<lambda>r. r"
  by unfold_locales simp

subsection \<open>The builder\<close>

record 'p request_builder =
  built_payloads :: "'p list"

datatype request_builder_error = EmptyRequest

primrec request_builder_error_display :: "request_builder_error \<Rightarrow> string" where
  "request_builder_error_display EmptyRequest = ''cannot build a Request from an empty payload list''"

definition builder_new :: "'p request_builder" where
  "builder_new = \<lparr>built_payloads = []\<rparr>"

definition builder_with :: "'p \<Rightarrow> 'p request_builder \<Rightarrow> 'p request_builder" where
  "builder_with p b = b\<lparr>built_payloads := built_payloads b @ [p]\<rparr>"

definition builder_push :: "'p \<Rightarrow> 'p request_builder \<Rightarrow> 'p request_builder" where
  "builder_push p b = b\<lparr>built_payloads := built_payloads b @ [p]\<rparr>"

definition builder_build :: "'p request_builder \<Rightarrow> ('p request, request_builder_error) result" where
  "builder_build b =
     (case ne_try_from_vec (built_payloads b) of
        Ok payloads \<Rightarrow> Ok \<lparr>req_caller = None, req_payloads = payloads\<rparr>
      | Err EmptySequence \<Rightarrow> Err EmptyRequest)"

lemma builder_build_Ok_iff [fault_iffs]:
  "builder_build b = Inr r \<longleftrightarrow> req_caller r = None \<and> ne_into_vec (req_payloads r) = built_payloads b"
  by (cases r; cases "built_payloads b")
    (auto simp: builder_build_def ne_into_vec_def split: non_empty_error.splits)

lemma builder_build_Err_iff [fault_iffs]:
  "builder_build b = Inl e \<longleftrightarrow> built_payloads b = []"
  by (cases "built_payloads b"; cases e) (auto simp: builder_build_def)

lemma fold_builder_with: "built_payloads (fold builder_with ps b) = built_payloads b @ ps"
  by (induction ps arbitrary: b) (auto simp: builder_with_def)

lemma fold_builder_push: "built_payloads (fold builder_push ps b) = built_payloads b @ ps"
  by (induction ps arbitrary: b) (auto simp: builder_push_def)

subsection \<open>The DOTOS text form\<close>

definition request_to_dotos ::
  "(string list \<Rightarrow> string) \<Rightarrow> ('p \<Rightarrow> string) \<Rightarrow> 'p request \<Rightarrow> string" where
  "request_to_dotos wrap_square to_dotos r =
     (if ne_tail (req_payloads r) = [] then to_dotos (ne_head (req_payloads r))
      else wrap_square (map to_dotos (ne_into_vec (req_payloads r))))"

definition request_from_dotos_block ::
  "('b \<Rightarrow> 'b list option) \<Rightarrow> ('b \<Rightarrow> ('p, 'x dotos_decode_error) result) \<Rightarrow> 'b
     \<Rightarrow> ('p request, 'x dotos_decode_error) result" where
  "request_from_dotos_block as_square from_block block =
     (case as_square block of
        Some sequence \<Rightarrow>
          and_then (collect_results (map from_block sequence)) (\<lambda>payloads.
            case ne_try_from_vec payloads of
              Ok payloads \<Rightarrow> Ok \<lparr>req_caller = None, req_payloads = payloads\<rparr>
            | Err EmptySequence \<Rightarrow> Err (ExpectedRootCount ''Request'' 1 0))
      | None \<Rightarrow>
          and_then (from_block block) (\<lambda>payload.
            Ok \<lparr>req_caller = None, req_payloads = ne_single payload\<rparr>))"

text \<open>
  What the text form needs of \<^verbatim>\<open>dotos\<close> and of the payload's codec: reading back the text of a
  payload gives the payload and that text is not itself a square-bracket sequence; reading a
  wrapped sequence gives its elements.  \<open>parse\<close> is \<^verbatim>\<open>dotos\<close> reading the one root block of a text.
\<close>

definition dotos_codec_law ::
  "(string \<Rightarrow> 'b) \<Rightarrow> (string list \<Rightarrow> string) \<Rightarrow> ('b \<Rightarrow> 'b list option) \<Rightarrow> ('p \<Rightarrow> string)
     \<Rightarrow> ('b \<Rightarrow> ('p, 'x dotos_decode_error) result) \<Rightarrow> bool" where
  "dotos_codec_law parse wrap_square as_square to_dotos from_block \<longleftrightarrow>
     (\<forall>p. from_block (parse (to_dotos p)) = Ok p \<and> as_square (parse (to_dotos p)) = None) \<and>
     (\<forall>ps. as_square (parse (wrap_square (map to_dotos ps))) = Some (map (\<lambda>p. parse (to_dotos p)) ps))"

lemma request_from_dotos_Ok_iff [fault_iffs]:
  "request_from_dotos_block as_square from_block block = Inr r \<longleftrightarrow>
     req_caller r = None \<and>
     (case as_square block of
        Some bs \<Rightarrow> map from_block bs = map Inr (ne_into_vec (req_payloads r))
      | None \<Rightarrow> ne_tail (req_payloads r) = [] \<and> from_block block = Inr (ne_head (req_payloads r)))"
proof (cases "as_square block")
  case None
  show ?thesis
    by (cases r; cases "from_block block")
      (auto simp: request_from_dotos_block_def None ne_single_def intro: non_empty.equality)
next
  case (Some bs)
  have *: "ne_into_vec s = xs \<longleftrightarrow> ne_try_from_vec xs = Inr s" for s :: "'b non_empty" and xs
    by (simp add: fault_iffs)
  show ?thesis
  proof (cases "collect_results (map from_block bs)")
    case (Inl e)
    then show ?thesis
      using collect_results_Inr_iff [of "map from_block bs"]
      by (auto simp: request_from_dotos_block_def Some)
  next
    case (Inr ps)
    then have ps: "map from_block bs = map Inr ps" by (simp add: fault_iffs)
    then have "map from_block bs = map Inr qs \<longleftrightarrow> ps = qs" for qs
      by (auto simp: inj_map_eq_map inj_def)
    moreover have "request_from_dotos_block as_square from_block block = Inr r \<longleftrightarrow>
        req_caller r = None \<and> ne_try_from_vec ps = Inr (req_payloads r)"
      by (cases r; cases ps)
        (auto simp: request_from_dotos_block_def Some Inr split: non_empty_error.splits)
    ultimately show ?thesis by (auto simp: Some fault_iffs)
  qed
qed

lemma request_dotos_roundtrip:
  assumes "dotos_codec_law parse wrap_square as_square to_dotos from_block"
  shows "request_from_dotos_block as_square from_block
           (parse (request_to_dotos wrap_square to_dotos r)) = Ok (request_with_caller None r)"
  using assms
  by (cases r) (auto simp: fault_iffs dotos_codec_law_def request_to_dotos_def request_with_caller_def
      split: option.splits)

subsection \<open>Properties\<close>

text \<open>
  The builder builds exactly the non-empty lists it was given, in order and without a caller,
  by chaining or by pushing alike; only the empty list is refused.
\<close>

theorem request_builder_exact:
  "(builder_build (fold builder_with ps builder_new) = Ok r
      \<longleftrightarrow> req_caller r = None \<and> ps = ne_into_vec (req_payloads r))
   \<and> (builder_build (fold builder_with ps builder_new) = Err EmptyRequest \<longleftrightarrow> ps = [])
   \<and> builder_build (fold builder_push ps builder_new) = builder_build (fold builder_with ps builder_new)"
proof -
  have "fold builder_push ps builder_new = fold builder_with ps (builder_new :: 'a request_builder)"
    by (intro request_builder.equality) (simp_all add: fold_builder_with fold_builder_push)
  then show ?thesis by (auto simp: fault_iffs fold_builder_with builder_new_def)
qed

text \<open>
  C30.  A request survives its text form: reading back the text of a request gives the same
  payloads in the same order, one payload or many; the caller is not part of the text.
\<close>

theorem request_text_roundtrip:
  assumes "dotos_codec_law parse wrap_square as_square to_dotos from_block"
  shows "request_from_dotos_block as_square from_block
           (parse (request_to_dotos wrap_square to_dotos r))
         = Ok (request_from_payloads (req_payloads r))"
  using request_dotos_roundtrip [OF assms, of r]
  by (simp add: request_with_caller_def request_from_payloads_def)

theorem request_text_roundtrip_witness:
  "request_from_dotos_block
     (\<lambda>b. case b of c # cs \<Rightarrow> if c = CHR ''['' then Some (map (\<lambda>x. [x]) cs) else None | [] \<Rightarrow> None)
     (\<lambda>b. if b = ''t'' then Ok True else if b = ''f'' then Ok False
          else Err (DotosOther ()))
     (request_to_dotos (\<lambda>xs. CHR ''['' # concat xs) (\<lambda>p. if p then ''t'' else ''f'')
       (request_from_payloads \<lparr>ne_head = True, ne_tail = [False]\<rparr>))
   = Ok (request_from_payloads \<lparr>ne_head = True, ne_tail = [False]\<rparr>)"
proof -
  have "dotos_codec_law (\<lambda>s. s) (\<lambda>xs. CHR ''['' # concat xs)
     (\<lambda>b. case b of c # cs \<Rightarrow> if c = CHR ''['' then Some (map (\<lambda>x. [x]) cs) else None | [] \<Rightarrow> None)
     (\<lambda>p. if p then ''t'' else ''f'')
     (\<lambda>b. if b = ''t'' then Ok True else if b = ''f'' then Ok False else Err (DotosOther ()))"
  proof -
    have "map (\<lambda>x. [x]) (concat (map (\<lambda>p. if p then ''t'' else ''f'') ps))
        = map (\<lambda>p. if p then ''t'' else ''f'') ps" for ps
      by (induction ps) auto
    then show ?thesis by (simp add: dotos_codec_law_def)
  qed
  from request_text_roundtrip [OF this, of "request_from_payloads \<lparr>ne_head = True, ne_tail = [False]\<rparr>"]
  show ?thesis by (simp add: request_from_payloads_def)
qed

end
