(* ===== verification/Reply.thy ===== *)
theory Reply
  imports Non_Empty Machine_Words
begin

text \<open>
  \<^verbatim>\<open>src/reply.rs\<close>: the typed reply, its outcomes and classifications, its constructors and the
  messages of the reasons.  The trait \<^verbatim>\<open>BatchErrorClassification\<close>, which daemons implement, is the
  record of its three methods.
\<close>

datatype request_rejection_reason = InternalRejection

datatype batch_failure_reason = EngineRejected | EngineUnavailable

datatype retry_classification = Retryable | NotRetryable | RetryUnknown

datatype commit_status = NotCommitted | CommitUnknown

datatype operation_failure_reason = DomainRejection

datatype accepted_outcome =
    Committed
  | OperationAborted (failed_at: usize) operation_failure_reason
  | BatchAborted batch_failure_reason retry_classification commit_status

datatype 'r sub_reply =
    SubOk 'r
  | Invalidated
  | SubFailed operation_failure_reason "'r option"
  | Skipped

datatype 'r reply =
    Accepted accepted_outcome "'r sub_reply non_empty"
  | Rejected request_rejection_reason

record 'e batch_error_classification =
  classify_batch_failure :: "'e \<Rightarrow> batch_failure_reason"
  classify_retry :: "'e \<Rightarrow> retry_classification"
  classify_commit :: "'e \<Rightarrow> commit_status"

definition reply_committed :: "'r sub_reply non_empty \<Rightarrow> 'r reply" where
  "reply_committed per_operation = Accepted Committed per_operation"

definition reply_operation_aborted ::
  "usize \<Rightarrow> operation_failure_reason \<Rightarrow> 'r sub_reply non_empty \<Rightarrow> 'r reply" where
  "reply_operation_aborted at reason per_operation = Accepted (OperationAborted at reason) per_operation"

definition reply_batch_aborted ::
  "batch_failure_reason \<Rightarrow> retry_classification \<Rightarrow> commit_status \<Rightarrow> 'r sub_reply non_empty
     \<Rightarrow> 'r reply" where
  "reply_batch_aborted reason retry commit per_operation =
     Accepted (BatchAborted reason retry commit) per_operation"

definition reply_rejected :: "request_rejection_reason \<Rightarrow> 'r reply" where
  "reply_rejected reason = Rejected reason"

primrec request_rejection_reason_display :: "request_rejection_reason \<Rightarrow> string" where
  "request_rejection_reason_display InternalRejection =
     ''receiver-internal pre-execution or infrastructure failure''"

primrec batch_failure_reason_display :: "batch_failure_reason \<Rightarrow> string" where
  "batch_failure_reason_display EngineRejected = ''execution engine rejected the batch''"
| "batch_failure_reason_display EngineUnavailable = ''execution engine unavailable''"

primrec retry_classification_display :: "retry_classification \<Rightarrow> string" where
  "retry_classification_display Retryable = ''retryable''"
| "retry_classification_display NotRetryable = ''not retryable''"
| "retry_classification_display RetryUnknown = ''retry status unknown''"

primrec commit_status_display :: "commit_status \<Rightarrow> string" where
  "commit_status_display NotCommitted = ''not committed''"
| "commit_status_display CommitUnknown = ''commit status unknown''"

primrec operation_failure_reason_display :: "operation_failure_reason \<Rightarrow> string" where
  "operation_failure_reason_display DomainRejection = ''domain rejected the operation''"

end
