(* ===== verification/Frame_Codec.thy ===== *)
theory Frame_Codec
  imports Request Reply Exchange Version
begin

text \<open>
  \<^verbatim>\<open>src/frame.rs\<close>: length-prefixed framing, the mandatory header before the archive, and the two
  kinds of bound frame.  \<^verbatim>\<open>rkyv\<close> is an argument: \<open>serialize\<close> is \<^verbatim>\<open>rkyv::to_bytes\<close> and
  \<open>deserialize\<close> is \<^verbatim>\<open>rkyv::from_bytes\<close>, both on a whole body; the constant
  \<^verbatim>\<open>Contract::BINDING\<close> of the contract's type is the argument \<open>binding\<close>.  The locale
  \<open>bound_frame\<close> is what the exchange frame and the streaming frame share; it is interpreted on
  both.
\<close>

subsection \<open>Framing\<close>

definition encode_archive ::
  "('v \<Rightarrow> (u8 list, 'x) result) \<Rightarrow> 'v \<Rightarrow> (u8 list, 'x frame_error) result" where
  "encode_archive serialize v = map_err ArchiveSerialize (serialize v)"

definition u32_try_from :: "usize \<Rightarrow> u32 option" where
  "u32_try_from n = (if n < 2 ^ 32 then Some (of_nat n) else None)"

definition length_prefix :: "u8 list \<Rightarrow> (u8 list, 'x frame_error) result" where
  "length_prefix archive =
     (case u32_try_from (length archive) of
        None \<Rightarrow> Err (LengthMismatch 4294967295 (length archive))
      | Some len \<Rightarrow> Ok (u32_to_be_bytes len @ archive))"

definition strip_length_prefix :: "u8 list \<Rightarrow> (u8 list, 'x frame_error) result" where
  "strip_length_prefix bytes =
     (if length bytes < 4 then Err ShortLengthPrefix
      else let expected = unat (u32_from_be_bytes (take 4 bytes));
               payload = drop 4 bytes
           in if length payload \<noteq> expected then Err (LengthMismatch expected (length payload))
              else Ok payload)"

definition short_header_from_archive :: "u8 list \<Rightarrow> (raw_short_header, 'x frame_error) result" where
  "short_header_from_archive bytes =
     (if SHORT_HEADER_BYTE_COUNT \<le> length bytes
      then Ok (raw_from_le_bytes (take SHORT_HEADER_BYTE_COUNT bytes))
      else Err (ShortHeaderTooShort (length bytes)))"

definition short_header_from_length_prefixed ::
  "u8 list \<Rightarrow> (raw_short_header, 'x frame_error) result" where
  "short_header_from_length_prefixed bytes =
     and_then (strip_length_prefix bytes) short_header_from_archive"

definition encode_frame_archive ::
  "('v \<Rightarrow> (u8 list, 'x) result) \<Rightarrow> short_header \<Rightarrow> 'v \<Rightarrow> (u8 list, 'x frame_error) result" where
  "encode_frame_archive serialize h body =
     and_then (encode_archive serialize body) (\<lambda>body_archive.
       Ok (header_to_le_bytes h @ body_archive))"

definition strip_short_header ::
  "u8 list \<Rightarrow> (raw_short_header \<times> u8 list, 'x frame_error) result" where
  "strip_short_header bytes =
     and_then (short_header_from_archive bytes) (\<lambda>h.
       Ok (h, drop SHORT_HEADER_BYTE_COUNT bytes))"

definition decode_archive_with ::
  "contract_binding \<Rightarrow> u8 list \<Rightarrow> (u8 list \<Rightarrow> ('v, 'x frame_error) exec)
     \<Rightarrow> ('v, 'x frame_error) exec" where
  "decode_archive_with binding bytes decoder =
     and_then (returning (strip_short_header bytes)) (\<lambda>(raw_header, body_archive).
     and_then (returning (raw_validate raw_header)) (\<lambda>header.
     and_then (validate_header binding header) (\<lambda>_.
       decoder body_archive)))"

definition decode_length_prefixed_with ::
  "contract_binding \<Rightarrow> u8 list \<Rightarrow> (u8 list \<Rightarrow> ('v, 'x frame_error) exec)
     \<Rightarrow> ('v, 'x frame_error) exec" where
  "decode_length_prefixed_with binding bytes decoder =
     and_then (returning (strip_length_prefix bytes)) (\<lambda>archive.
       decode_archive_with binding archive decoder)"

subsection \<open>Framing lemmas\<close>

lemma unat_u32_from_be_bytes_bound: "unat (u32_from_be_bytes bs) < 2 ^ 32"
  using unsigned_less [of "u32_from_be_bytes bs"] by simp

lemma unat_of_nat_u32 [simp]: "n < 2 ^ 32 \<Longrightarrow> unat (of_nat n :: u32) = n"
  by (simp add: unat_of_nat take_bit_nat_eq_self_iff)

lemma length_prefix_Ok_iff [fault_iffs]:
  "length_prefix p = Inr bytes \<longleftrightarrow>
     length p < 2 ^ 32 \<and> bytes = u32_to_be_bytes (of_nat (length p)) @ p"
  by (auto simp: length_prefix_def u32_try_from_def)

lemma length_prefix_Err_iff [fault_iffs]:
  "length_prefix p = Inl e \<longleftrightarrow> \<not> length p < 2 ^ 32 \<and> e = LengthMismatch 4294967295 (length p)"
  by (auto simp: length_prefix_def u32_try_from_def)

lemma strip_length_prefix_append [simp]:
  "length p = unat n \<Longrightarrow> strip_length_prefix (u32_to_be_bytes n @ p) = Ok p"
  by (simp add: strip_length_prefix_def)

lemma strip_length_prefix_Ok_iff [fault_iffs]:
  "strip_length_prefix bytes = Inr p \<longleftrightarrow>
     length p < 2 ^ 32 \<and> bytes = u32_to_be_bytes (of_nat (length p)) @ p"
proof
  assume s: "strip_length_prefix bytes = Inr p"
  then have four: "length (take 4 bytes) = 4" and p: "p = drop 4 bytes"
    and len: "length p = unat (u32_from_be_bytes (take 4 bytes))"
    by (auto simp: strip_length_prefix_def Let_def split: if_splits)
  have "bytes = u32_to_be_bytes (u32_from_be_bytes (take 4 bytes)) @ p"
    using four p by simp
  then show "length p < 2 ^ 32 \<and> bytes = u32_to_be_bytes (of_nat (length p)) @ p"
    using unat_u32_from_be_bytes_bound [of "take 4 bytes"] by (simp add: len)
next
  assume "length p < 2 ^ 32 \<and> bytes = u32_to_be_bytes (of_nat (length p)) @ p"
  then show "strip_length_prefix bytes = Inr p"
    by (simp add: unat_of_nat take_bit_nat_eq_self_iff)
qed

lemma strip_length_prefix_Err_iff [fault_iffs]:
  "strip_length_prefix bytes = Inl e \<longleftrightarrow>
     length bytes < 4 \<and> e = ShortLengthPrefix \<or>
     4 \<le> length bytes \<and> length bytes - 4 \<noteq> unat (u32_from_be_bytes (take 4 bytes)) \<and>
       e = LengthMismatch (unat (u32_from_be_bytes (take 4 bytes))) (length bytes - 4)"
  by (auto simp: strip_length_prefix_def Let_def)

lemma short_header_from_archive_Ok_iff [fault_iffs]:
  "short_header_from_archive bytes = Inr raw \<longleftrightarrow>
     8 \<le> length bytes \<and> raw = raw_from_le_bytes (take 8 bytes)"
  by (auto simp: short_header_from_archive_def SHORT_HEADER_BYTE_COUNT_def)

lemma short_header_from_archive_Err_iff [fault_iffs]:
  "short_header_from_archive bytes = Inl e \<longleftrightarrow>
     length bytes < 8 \<and> e = ShortHeaderTooShort (length bytes)"
  by (auto simp: short_header_from_archive_def SHORT_HEADER_BYTE_COUNT_def)

lemma short_header_of_encoded [simp]:
  "short_header_from_archive (header_to_le_bytes h @ archive) = Ok (RawShortHeader (header_value h))"
  by (simp add: short_header_from_archive_def SHORT_HEADER_BYTE_COUNT_def)

lemma encode_frame_archive_Ok_iff [fault_iffs]:
  "encode_frame_archive serialize h body = Inr bytes \<longleftrightarrow>
     (\<exists>archive. serialize body = Inr archive \<and> bytes = header_to_le_bytes h @ archive)"
  by (auto simp: encode_frame_archive_def encode_archive_def fault_iffs)

lemma header_bytes_of_raw:
  "8 \<le> length bytes \<Longrightarrow> raw_from_le_bytes (take 8 bytes) = RawShortHeader (header_value h)
     \<Longrightarrow> bytes = header_to_le_bytes h @ drop 8 bytes"
proof -
  assume long: "8 \<le> length bytes"
    and raw: "raw_from_le_bytes (take 8 bytes) = RawShortHeader (header_value h)"
  then have "u64_from_le_bytes (take 8 bytes) = header_value h"
    by (simp add: raw_from_le_bytes_def)
  then have "take 8 bytes = header_to_le_bytes h"
    using u64_le_roundtrip_bytes [of "take 8 bytes"] long by (simp add: header_to_le_bytes_def)
  then show ?thesis by (metis append_take_drop_id)
qed

subsection \<open>The decoder behind the header\<close>

text \<open>The bytes of a frame archive whose header was packed for \<open>b\<close>.\<close>

definition bound_archive :: "contract_binding \<Rightarrow> wire_route \<Rightarrow> u8 list \<Rightarrow> u8 list" where
  "bound_archive b r archive = header_to_le_bytes (header_bound b r) @ archive"

lemma bound_archive_inject [simp]:
  "bound_archive b r xs = bound_archive c s ys \<longleftrightarrow> b = c \<and> r = s \<and> xs = ys"
proof
  assume eq: "bound_archive b r xs = bound_archive c s ys"
  then have h: "header_to_le_bytes (header_bound b r) = header_to_le_bytes (header_bound c s)"
    and "xs = ys" by (simp_all add: bound_archive_def)
  then have "RawShortHeader (header_value (header_bound b r))
      = RawShortHeader (header_value (header_bound c s))"
    by (metis raw_from_header_bytes)
  then have "header_bound b r = header_bound c s"
    by (metis header_value.simps raw_short_header.inject short_header.exhaust)
  with \<open>xs = ys\<close> show "b = c \<and> r = s \<and> xs = ys" by simp
qed simp

text \<open>Every frame archive is too short for a header, carries no binding, or is bound.\<close>

lemma archive_cases:
  obtains (short) "length bytes < 8"
  | (unbound) "8 \<le> length bytes" "\<not> header_wf (ShortHeader (raw_value (raw_from_le_bytes (take 8 bytes))))"
  | (bound) c r archive where "bytes = bound_archive c r archive"
proof (cases "length bytes < 8")
  case False
  then have long: "8 \<le> length bytes" by simp
  show thesis
  proof (cases "header_wf (ShortHeader (raw_value (raw_from_le_bytes (take 8 bytes))))")
    case True
    then obtain c r where "ShortHeader (raw_value (raw_from_le_bytes (take 8 bytes))) = header_bound c r"
      by (auto simp: header_wf_iff)
    then have "raw_from_le_bytes (take 8 bytes) = RawShortHeader (header_value (header_bound c r))"
      by (metis header_value.simps raw_short_header.exhaust raw_value.simps)
    then have "bytes = bound_archive c r (drop 8 bytes)"
      unfolding bound_archive_def by (rule header_bytes_of_raw [OF long])
    then show thesis by (rule bound)
  qed (use long unbound in blast)
qed (rule short)

lemma strip_short_header_bound [simp]:
  "strip_short_header (bound_archive c r archive)
     = Ok (RawShortHeader (header_value (header_bound c r)), archive)"
  by (simp add: strip_short_header_def bound_archive_def SHORT_HEADER_BYTE_COUNT_def)

lemma decode_archive_with_bound [simp]:
  "decode_archive_with b (bound_archive c r archive) decoder =
     (if contract c \<noteq> contract b then Err (Failed (ContractMismatch (contract b) (contract c)))
      else if revision c \<noteq> revision b
      then Err (Failed (UnsupportedWireRevision (contract b) (revision b) (revision c)))
      else decoder archive)"
  by (simp add: decode_archive_with_def)

lemma decode_archive_with_short:
  "length bytes < 8 \<Longrightarrow> decode_archive_with b bytes decoder = Err (Failed (ShortHeaderTooShort (length bytes)))"
  by (simp add: decode_archive_with_def strip_short_header_def short_header_from_archive_def
      SHORT_HEADER_BYTE_COUNT_def)

lemma raw_validate_unbound:
  "\<not> header_wf (ShortHeader (raw_value raw)) \<Longrightarrow> raw_validate raw = Err UnboundHeader"
  by (simp add: raw_validate_Err_iff)

lemma decode_archive_with_unbound:
  "8 \<le> length bytes \<Longrightarrow>
   \<not> header_wf (ShortHeader (raw_value (raw_from_le_bytes (take 8 bytes)))) \<Longrightarrow>
   decode_archive_with b bytes decoder = Err (Failed UnboundHeader)"
  by (simp add: decode_archive_with_def strip_short_header_def short_header_from_archive_def
      SHORT_HEADER_BYTE_COUNT_def raw_validate_unbound)

lemma bound_archive_long [simp]: "8 \<le> length (bound_archive b r archive)"
  by (simp add: bound_archive_def)

lemma bound_archive_wf [simp]:
  "header_wf (ShortHeader (raw_value (raw_from_le_bytes (take 8 (bound_archive b r archive)))))"
proof -
  have "ShortHeader (header_value (header_bound b r)) = header_bound b r"
    by (metis header_value.simps short_header.exhaust)
  then show ?thesis by (simp add: bound_archive_def)
qed

lemma binding_equality: "contract c = contract b \<Longrightarrow> revision c = revision b \<Longrightarrow> c = (b :: contract_binding)"
  by simp

text \<open>Off the frames bound for \<open>b\<close>, the answer is a frame error that no decoder chose.\<close>

lemma decode_archive_with_other:
  assumes "\<nexists>r archive. bytes = bound_archive b r archive"
  shows "\<exists>e. \<forall>decoder :: u8 list \<Rightarrow> ('v, 'x frame_error) exec.
           decode_archive_with b bytes decoder = Err (Failed e)"
proof (cases rule: archive_cases [of bytes])
  case (bound c r archive)
  with assms have "contract c \<noteq> contract b \<or> revision c \<noteq> revision b"
    using binding_equality by blast
  then show ?thesis by (auto simp: bound)
qed (auto simp: decode_archive_with_short decode_archive_with_unbound)

lemma decode_archive_with_other_failed:
  "(\<exists>r archive. bytes = bound_archive b r archive)
   \<or> (\<exists>e. decode_archive_with b bytes (decoder :: u8 list \<Rightarrow> ('v, 'x frame_error) exec) = Err (Failed e))"
  using decode_archive_with_other [of bytes b, where 'v = 'v and 'x = 'x] by blast

lemma decode_archive_with_Ok_iff [fault_iffs]:
  "decode_archive_with b bytes decoder = Inr v \<longleftrightarrow>
     (\<exists>r archive. bytes = bound_archive b r archive \<and> decoder archive = Inr v)"
  using decode_archive_with_other_failed [of bytes b decoder] by auto

lemma decode_archive_with_panic_iff [fault_iffs]:
  "decode_archive_with b bytes decoder = Inl Panicked \<longleftrightarrow>
     (\<exists>r archive. bytes = bound_archive b r archive \<and> decoder archive = Inl Panicked)"
  using decode_archive_with_other_failed [of bytes b decoder] by auto

subsection \<open>Frame bodies and frames\<close>

datatype ('p, 'r) exchange_frame_body =
    ExHandshakeRequest handshake_request
  | ExHandshakeReply handshake_reply
  | ExRequest exchange_identifier "'p request"
  | ExReply exchange_identifier "'r reply"

datatype ('p, 'r, 'ev) streaming_frame_body =
    StHandshakeRequest handshake_request
  | StHandshakeReply handshake_reply
  | StRequest exchange_identifier "'p request"
  | StReply exchange_identifier "'r reply"
  | SubscriptionEvent stream_event_identifier subscription_token_inner 'ev

record ('p, 'r) bound_exchange_frame =
  ex_short_header :: short_header
  ex_body :: "('p, 'r) exchange_frame_body"

record ('p, 'r, 'ev) bound_streaming_frame =
  st_short_header :: short_header
  st_body :: "('p, 'r, 'ev) streaming_frame_body"

definition exchange_frame_new ::
  "contract_binding \<Rightarrow> wire_route \<Rightarrow> ('p, 'r) exchange_frame_body \<Rightarrow> ('p, 'r) bound_exchange_frame" where
  "exchange_frame_new binding r body =
     \<lparr>ex_short_header = header_bound binding r, ex_body = body\<rparr>"

definition streaming_frame_new ::
  "contract_binding \<Rightarrow> wire_route \<Rightarrow> ('p, 'r, 'ev) streaming_frame_body
     \<Rightarrow> ('p, 'r, 'ev) bound_streaming_frame" where
  "streaming_frame_new binding r body =
     \<lparr>st_short_header = header_bound binding r, st_body = body\<rparr>"

definition exchange_frame_encode ::
  "(('p, 'r) exchange_frame_body \<Rightarrow> (u8 list, 'x) result) \<Rightarrow> ('p, 'r) bound_exchange_frame
     \<Rightarrow> (u8 list, 'x frame_error) result" where
  "exchange_frame_encode serialize f = encode_frame_archive serialize (ex_short_header f) (ex_body f)"

definition exchange_frame_encode_length_prefixed ::
  "(('p, 'r) exchange_frame_body \<Rightarrow> (u8 list, 'x) result) \<Rightarrow> ('p, 'r) bound_exchange_frame
     \<Rightarrow> (u8 list, 'x frame_error) result" where
  "exchange_frame_encode_length_prefixed serialize f =
     and_then (exchange_frame_encode serialize f) length_prefix"

definition streaming_frame_encode ::
  "(('p, 'r, 'ev) streaming_frame_body \<Rightarrow> (u8 list, 'x) result) \<Rightarrow> ('p, 'r, 'ev) bound_streaming_frame
     \<Rightarrow> (u8 list, 'x frame_error) result" where
  "streaming_frame_encode serialize f = encode_frame_archive serialize (st_short_header f) (st_body f)"

definition streaming_frame_encode_length_prefixed ::
  "(('p, 'r, 'ev) streaming_frame_body \<Rightarrow> (u8 list, 'x) result) \<Rightarrow> ('p, 'r, 'ev) bound_streaming_frame
     \<Rightarrow> (u8 list, 'x frame_error) result" where
  "streaming_frame_encode_length_prefixed serialize f =
     and_then (streaming_frame_encode serialize f) length_prefix"

definition exchange_frame_decode ::
  "contract_binding \<Rightarrow> (u8 list \<Rightarrow> (('p, 'r) exchange_frame_body, 'x) result) \<Rightarrow> u8 list
     \<Rightarrow> (('p, 'r) bound_exchange_frame, 'x frame_error) exec" where
  "exchange_frame_decode binding deserialize bytes =
     decode_archive_with binding bytes (\<lambda>body_archive.
       and_then (returning (map_err ArchiveDeserialize (deserialize body_archive))) (\<lambda>body.
       and_then (returning (short_header_from_archive bytes)) (\<lambda>raw.
       and_then (returning (raw_validate raw)) (\<lambda>header.
         Ok (exchange_frame_new binding (header_route header) body)))))"

definition exchange_frame_decode_length_prefixed ::
  "contract_binding \<Rightarrow> (u8 list \<Rightarrow> (('p, 'r) exchange_frame_body, 'x) result) \<Rightarrow> u8 list
     \<Rightarrow> (('p, 'r) bound_exchange_frame, 'x frame_error) exec" where
  "exchange_frame_decode_length_prefixed binding deserialize bytes =
     and_then (returning (strip_length_prefix bytes)) (exchange_frame_decode binding deserialize)"

definition streaming_frame_decode ::
  "contract_binding \<Rightarrow> (u8 list \<Rightarrow> (('p, 'r, 'ev) streaming_frame_body, 'x) result) \<Rightarrow> u8 list
     \<Rightarrow> (('p, 'r, 'ev) bound_streaming_frame, 'x frame_error) exec" where
  "streaming_frame_decode binding deserialize bytes =
     decode_archive_with binding bytes (\<lambda>body_archive.
       and_then (returning (map_err ArchiveDeserialize (deserialize body_archive))) (\<lambda>body.
       and_then (returning (short_header_from_archive bytes)) (\<lambda>raw.
       and_then (returning (raw_validate raw)) (\<lambda>header.
         Ok (streaming_frame_new binding (header_route header) body)))))"

definition streaming_frame_decode_length_prefixed ::
  "contract_binding \<Rightarrow> (u8 list \<Rightarrow> (('p, 'r, 'ev) streaming_frame_body, 'x) result) \<Rightarrow> u8 list
     \<Rightarrow> (('p, 'r, 'ev) bound_streaming_frame, 'x frame_error) exec" where
  "streaming_frame_decode_length_prefixed binding deserialize bytes =
     and_then (returning (strip_length_prefix bytes)) (streaming_frame_decode binding deserialize)"

subsection \<open>What the two kinds of frame share\<close>

text \<open>The documented round trip of \<^verbatim>\<open>rkyv\<close>: what serialises deserialises to the same value.\<close>

definition archive_law ::
  "('v \<Rightarrow> (u8 list, 'x) result) \<Rightarrow> (u8 list \<Rightarrow> ('v, 'x) result) \<Rightarrow> bool" where
  "archive_law serialize deserialize \<longleftrightarrow>
     (\<forall>v bytes. serialize v = Ok bytes \<longrightarrow> deserialize bytes = Ok v)"

text \<open>The decoder both frame kinds run behind the header of \<open>bytes\<close>, with their constructor.\<close>

definition frame_body_decoder ::
  "(u8 list \<Rightarrow> ('v, 'x) result) \<Rightarrow> (wire_route \<Rightarrow> 'v \<Rightarrow> 'f) \<Rightarrow> u8 list \<Rightarrow> u8 list
     \<Rightarrow> ('f, 'x frame_error) exec" where
  "frame_body_decoder deserialize mk bytes body_archive =
     and_then (returning (map_err ArchiveDeserialize (deserialize body_archive))) (\<lambda>body.
     and_then (returning (short_header_from_archive bytes)) (\<lambda>raw.
     and_then (returning (raw_validate raw)) (\<lambda>header.
       Ok (mk (header_route header) body))))"

lemma frame_body_decoder_eta:
  "frame_body_decoder deserialize mk bytes = (\<lambda>body_archive.
     and_then (returning (map_err ArchiveDeserialize (deserialize body_archive))) (\<lambda>body.
     and_then (returning (short_header_from_archive bytes)) (\<lambda>raw.
     and_then (returning (raw_validate raw)) (\<lambda>header.
       Ok (mk (header_route header) body)))))"
  by (simp add: frame_body_decoder_def fun_eq_iff)

lemma frame_body_decoder_bound [simp]:
  "frame_body_decoder deserialize mk (bound_archive b r archive) body_archive =
     and_then (returning (map_err ArchiveDeserialize (deserialize body_archive))) (\<lambda>body. Ok (mk r body))"
  by (simp add: frame_body_decoder_def bound_archive_def)

locale bound_frame =
  fixes construct :: "contract_binding \<Rightarrow> wire_route \<Rightarrow> 'v \<Rightarrow> 'f"
    and header_of :: "'f \<Rightarrow> short_header"
    and body_of :: "'f \<Rightarrow> 'v"
    and encode :: "('v \<Rightarrow> (u8 list, 'x) result) \<Rightarrow> 'f \<Rightarrow> (u8 list, 'x frame_error) result"
    and encode_prefixed :: "('v \<Rightarrow> (u8 list, 'x) result) \<Rightarrow> 'f \<Rightarrow> (u8 list, 'x frame_error) result"
    and decode :: "contract_binding \<Rightarrow> (u8 list \<Rightarrow> ('v, 'x) result) \<Rightarrow> u8 list
      \<Rightarrow> ('f, 'x frame_error) exec"
    and decode_prefixed :: "contract_binding \<Rightarrow> (u8 list \<Rightarrow> ('v, 'x) result) \<Rightarrow> u8 list
      \<Rightarrow> ('f, 'x frame_error) exec"
  assumes header_construct: "header_of (construct b r v) = header_bound b r"
    and body_construct: "body_of (construct b r v) = v"
    and encode_frame: "encode ser f = encode_frame_archive ser (header_of f) (body_of f)"
    and encode_prefixed_frame: "encode_prefixed ser f = and_then (encode ser f) length_prefix"
    and decode_frame:
      "decode b de bytes = decode_archive_with b bytes (frame_body_decoder de (construct b) bytes)"
    and decode_prefixed_frame:
      "decode_prefixed b de bytes = and_then (returning (strip_length_prefix bytes)) (decode b de)"
begin

lemma construct_inject: "construct b r v = construct c s w \<longleftrightarrow> b = c \<and> r = s \<and> v = w"
  by (metis header_construct body_construct header_bound_inject)

lemma encode_construct_iff:
  "encode ser (construct b r v) = Inr bytes
     \<longleftrightarrow> (\<exists>archive. ser v = Inr archive \<and> bytes = bound_archive b r archive)"
  by (simp add: encode_frame header_construct body_construct fault_iffs bound_archive_def)

lemma decode_bound:
  "decode b de (bound_archive c r archive) =
     (if contract c \<noteq> contract b then Err (Failed (ContractMismatch (contract b) (contract c)))
      else if revision c \<noteq> revision b
      then Err (Failed (UnsupportedWireRevision (contract b) (revision b) (revision c)))
      else case de archive of
        Err e \<Rightarrow> Err (Failed (ArchiveDeserialize e))
      | Ok v \<Rightarrow> Ok (construct b r v))"
  by (auto simp: decode_frame split: sum.splits)

lemma decode_Ok_iff:
  "decode b de bytes = Inr f \<longleftrightarrow>
     (\<exists>r archive v. bytes = bound_archive b r archive \<and> de archive = Inr v \<and> f = construct b r v)"
  by (auto simp: decode_frame fault_iffs)

lemma decode_never_panics: "never_panics (decode b de bytes)"
  by (auto simp: decode_frame fault_iffs never_panics_def)

lemma decode_encoded:
  assumes "archive_law ser de" "encode ser (construct b r v) = Inr bytes"
  shows "decode b de bytes = Ok (construct b r v)"
  using assms by (auto simp: encode_construct_iff decode_bound archive_law_def)

lemma decode_prefixed_Ok_iff:
  "decode_prefixed b de bytes = Inr f \<longleftrightarrow>
     (\<exists>archive. length_prefix archive = (Ok bytes :: (u8 list, 'x frame_error) result)
       \<and> decode b de archive = Inr f)"
  by (auto simp: decode_prefixed_frame fault_iffs)

lemma decode_prefixed_never_panics: "never_panics (decode_prefixed b de bytes)"
  by (auto simp: decode_prefixed_frame decode_never_panics)

lemma encode_prefixed_iff:
  "encode_prefixed ser f = Inr bytes \<longleftrightarrow>
     (\<exists>archive. encode ser f = Inr archive
       \<and> length_prefix archive = (Ok bytes :: (u8 list, 'x frame_error) result))"
  by (simp add: encode_prefixed_frame fault_iffs)

lemma decode_encoded_prefixed:
  assumes "archive_law ser de" "encode_prefixed ser (construct b r v) = Inr bytes"
  shows "decode_prefixed b de bytes = Ok (construct b r v)"
  using assms decode_encoded by (auto simp: encode_prefixed_iff decode_prefixed_Ok_iff)

lemma decode_foreign_prefixed:
  assumes "encode_prefixed ser (construct c r v) = Inr bytes" "c \<noteq> b"
  shows "decode_prefixed b de bytes =
    Err (Failed (if contract c \<noteq> contract b then ContractMismatch (contract b) (contract c)
      else UnsupportedWireRevision (contract b) (revision b) (revision c)))"
proof -
  from assms obtain archive where bytes:
      "length_prefix (bound_archive c r archive) = (Ok bytes :: (u8 list, 'x frame_error) result)"
    by (auto simp: encode_prefixed_iff encode_construct_iff)
  then have "strip_length_prefix bytes
      = (Ok (bound_archive c r archive) :: (u8 list, 'x frame_error) result)"
    by (simp add: fault_iffs)
  then have "decode_prefixed b de bytes = decode b de (bound_archive c r archive)"
    by (simp add: decode_prefixed_frame)
  moreover have "contract c \<noteq> contract b \<or> revision c \<noteq> revision b"
    using \<open>c \<noteq> b\<close> binding_equality by blast
  ultimately show ?thesis by (auto simp: decode_bound)
qed

lemma reencode:
  assumes "archive_law ser de" "decode b de bytes = Inr f" "ser (body_of f) = Inr archive"
  shows "\<exists>r. encode ser f = Ok (bound_archive b r archive)
       \<and> decode b de (bound_archive b r archive) = Ok f"
proof -
  from assms obtain r v where f: "f = construct b r v" by (auto simp: decode_Ok_iff)
  with assms have "encode ser f = Ok (bound_archive b r archive)"
    by (simp add: encode_construct_iff body_construct)
  with assms(1) show ?thesis unfolding f using decode_encoded by blast
qed

end

interpretation exchange_frames: bound_frame exchange_frame_new ex_short_header ex_body
  exchange_frame_encode exchange_frame_encode_length_prefixed
  exchange_frame_decode exchange_frame_decode_length_prefixed
  by unfold_locales
    (simp_all add: exchange_frame_new_def exchange_frame_encode_def
      exchange_frame_encode_length_prefixed_def exchange_frame_decode_def
      exchange_frame_decode_length_prefixed_def frame_body_decoder_eta)

interpretation streaming_frames: bound_frame streaming_frame_new st_short_header st_body
  streaming_frame_encode streaming_frame_encode_length_prefixed
  streaming_frame_decode streaming_frame_decode_length_prefixed
  by unfold_locales
    (simp_all add: streaming_frame_new_def streaming_frame_encode_def
      streaming_frame_encode_length_prefixed_def streaming_frame_decode_def
      streaming_frame_decode_length_prefixed_def frame_body_decoder_eta)

lemma strip_iff_framed:
  "strip_length_prefix bytes = (Ok archive :: (u8 list, 'x frame_error) result)
     \<longleftrightarrow> length_prefix archive = (Ok bytes :: (u8 list, 'y frame_error) result)"
  by (simp only: fault_iffs)

lemma framed_prefix_free:
  assumes "length_prefix archive = (Ok bytes :: (u8 list, 'x frame_error) result)"
    and "length_prefix other = (Ok (bytes @ extra) :: (u8 list, 'x frame_error) result)"
  shows "extra = [] \<and> other = archive"
proof -
  from assms have a: "length archive < 2 ^ 32" "length other < 2 ^ 32"
    and eq: "u32_to_be_bytes (of_nat (length archive)) @ archive @ extra
      = u32_to_be_bytes (of_nat (length other)) @ other"
    by (auto simp: length_prefix_Ok_iff)
  from eq have "u32_to_be_bytes (of_nat (length archive)) = u32_to_be_bytes (of_nat (length other))"
    and rest: "archive @ extra = other" by simp_all
  then have "(of_nat (length archive) :: u32) = of_nat (length other)"
    by (metis u32_be_roundtrip)
  with a have "length archive = length other"
    by (metis unat_of_nat_u32)
  with rest show ?thesis by auto
qed

subsection \<open>Properties\<close>

text \<open>
  C15.  Length-prefixed framing is a bijection between the archives shorter than \<open>2 ^ 32\<close> bytes and
  the framed messages, and it is prefix-free: no framed message continues another one, so a
  message cut short or with bytes after it is refused.
\<close>

theorem length_prefix_framing:
  "(strip_length_prefix bytes = (Ok archive :: (u8 list, 'x frame_error) result)
      \<longleftrightarrow> length_prefix archive = (Ok bytes :: (u8 list, 'x frame_error) result))
   \<and> ((\<exists>framed. length_prefix archive = (Ok framed :: (u8 list, 'x frame_error) result))
      \<longleftrightarrow> length archive < 2 ^ 32)
   \<and> (length_prefix archive = (Ok bytes :: (u8 list, 'x frame_error) result)
      \<and> strip_length_prefix (bytes @ extra) = (Ok other :: (u8 list, 'x frame_error) result)
      \<longleftrightarrow> length_prefix archive = (Ok bytes :: (u8 list, 'x frame_error) result)
        \<and> extra = [] \<and> other = archive)"
proof (intro conjI)
  show "(\<exists>framed. length_prefix archive = (Ok framed :: (u8 list, 'x frame_error) result))
      \<longleftrightarrow> length archive < 2 ^ 32"
    by (simp add: length_prefix_Ok_iff)
  show "length_prefix archive = (Ok bytes :: (u8 list, 'x frame_error) result)
      \<and> strip_length_prefix (bytes @ extra) = (Ok other :: (u8 list, 'x frame_error) result)
      \<longleftrightarrow> length_prefix archive = (Ok bytes :: (u8 list, 'x frame_error) result)
        \<and> extra = [] \<and> other = archive"
    using framed_prefix_free [of archive bytes other extra, where 'x = 'x]
    by (auto simp only: strip_iff_framed [where 'y = 'x] append_Nil2)
qed (rule strip_iff_framed)

text \<open>
  C10.  Decoding an exchange frame under a contract's binding accepts exactly the bytes that carry
  a header packed for that binding before an archive of a body, gives back that route and that
  body, and never panics, whatever the bytes and whatever the archive library answers.
\<close>

theorem exchange_decode_exact:
  "(exchange_frame_decode b de bytes = (Ok f :: (('p, 'r) bound_exchange_frame, 'x frame_error) exec)
      \<longleftrightarrow> (\<exists>r archive body. bytes = header_to_le_bytes (header_bound b r) @ archive
            \<and> de archive = Ok body \<and> f = exchange_frame_new b r body))
   \<and> never_panics (exchange_frame_decode b de bytes :: (('p, 'r) bound_exchange_frame, 'x frame_error) exec)"
  using exchange_frames.decode_never_panics [of b de bytes]
  by (simp add: exchange_frames.decode_Ok_iff bound_archive_def)

text \<open>
  C14.  What a streaming frame encodes to, length prefix included, decodes to the same frame under
  the same contract.
\<close>

theorem streaming_frame_roundtrip:
  assumes "archive_law serialize deserialize"
    and "streaming_frame_encode_length_prefixed serialize (streaming_frame_new b r body) = Ok bytes"
  shows "streaming_frame_decode_length_prefixed b deserialize bytes = Ok (streaming_frame_new b r body)"
  by (rule streaming_frames.decode_encoded_prefixed [OF assms])

theorem streaming_frame_roundtrip_witness:
  "streaming_frame_decode_length_prefixed
      (contract_binding_new (ContractId (nonzero_u32_of 7)) (WireRevision (nonzero_u16_of 1)))
      (\<lambda>bs. if bs = [42] then Ok (StHandshakeRequest handshake_request_current) else Err ())
      (u32_to_be_bytes 9 @ header_to_le_bytes (header_bound
         (contract_binding_new (ContractId (nonzero_u32_of 7)) (WireRevision (nonzero_u16_of 1)))
         (wire_route_new (RootCode 3) (VariantCode 0))) @ [42])
    = Ok (streaming_frame_new
        (contract_binding_new (ContractId (nonzero_u32_of 7)) (WireRevision (nonzero_u16_of 1)))
        (wire_route_new (RootCode 3) (VariantCode 0))
        (StHandshakeRequest handshake_request_current
           :: (nat, nat, nat) streaming_frame_body))"
proof (rule streaming_frame_roundtrip)
  let ?ser = "\<lambda>v :: (nat, nat, nat) streaming_frame_body.
    if v = StHandshakeRequest handshake_request_current then Ok [42 :: u8] else Err ()"
  show "archive_law ?ser
     (\<lambda>bs. if bs = [42] then Ok (StHandshakeRequest handshake_request_current) else Err ())"
    by (simp add: archive_law_def)
  show "streaming_frame_encode_length_prefixed ?ser
      (streaming_frame_new
        (contract_binding_new (ContractId (nonzero_u32_of 7)) (WireRevision (nonzero_u16_of 1)))
        (wire_route_new (RootCode 3) (VariantCode 0))
        (StHandshakeRequest handshake_request_current)) =
    Ok (u32_to_be_bytes 9 @ header_to_le_bytes (header_bound
         (contract_binding_new (ContractId (nonzero_u32_of 7)) (WireRevision (nonzero_u16_of 1)))
         (wire_route_new (RootCode 3) (VariantCode 0))) @ [42])"
    by (simp add: streaming_frame_encode_length_prefixed_def streaming_frame_encode_def
        streaming_frame_new_def encode_frame_archive_def encode_archive_def length_prefix_def
        u32_try_from_def)
qed

text \<open>
  C12.  A frame encoded for one contract is refused by every other, exchange frames and streaming
  frames alike: the decoder names both contracts, or both revisions of one contract, whatever the
  archive holds and whatever the archive library answers.
\<close>

theorem cross_contract_refused:
  fixes serialize :: "('p, 'r) exchange_frame_body \<Rightarrow> (u8 list, 'x) result"
    and deserialize :: "u8 list \<Rightarrow> (('p, 'r) exchange_frame_body, 'x) result"
    and serialize' :: "('q, 's, 'ev) streaming_frame_body \<Rightarrow> (u8 list, 'y) result"
    and deserialize' :: "u8 list \<Rightarrow> (('q, 's, 'ev) streaming_frame_body, 'y) result"
  assumes "c \<noteq> b"
  shows "(exchange_frame_encode_length_prefixed serialize (exchange_frame_new c r body) = Ok bytes \<longrightarrow>
      exchange_frame_decode_length_prefixed b deserialize bytes =
        Err (Failed (if contract c \<noteq> contract b then ContractMismatch (contract b) (contract c)
          else UnsupportedWireRevision (contract b) (revision b) (revision c))))
   \<and> (streaming_frame_encode_length_prefixed serialize' (streaming_frame_new c r body') = Ok bytes \<longrightarrow>
      streaming_frame_decode_length_prefixed b deserialize' bytes =
        Err (Failed (if contract c \<noteq> contract b then ContractMismatch (contract b) (contract c)
          else UnsupportedWireRevision (contract b) (revision b) (revision c))))"
  using exchange_frames.decode_foreign_prefixed [OF _ assms]
    streaming_frames.decode_foreign_prefixed [OF _ assms] by blast

theorem cross_contract_refused_witness:
  "streaming_frame_decode_length_prefixed
      (contract_binding_new (ContractId (nonzero_u32_of 7)) (WireRevision (nonzero_u16_of 2)))
      (\<lambda>bs. Ok (StHandshakeRequest handshake_request_current))
      (u32_to_be_bytes 8 @ header_to_le_bytes (header_bound
         (contract_binding_new (ContractId (nonzero_u32_of 7)) (WireRevision (nonzero_u16_of 1)))
         (wire_route_new (RootCode 3) (VariantCode 0))))
    = (Err (Failed (UnsupportedWireRevision (ContractId (nonzero_u32_of 7))
         (WireRevision (nonzero_u16_of 2)) (WireRevision (nonzero_u16_of 1))))
       :: ((nat, nat, nat) bound_streaming_frame, unit frame_error) exec)"
proof -
  let ?c = "contract_binding_new (ContractId (nonzero_u32_of 7)) (WireRevision (nonzero_u16_of 1))"
  let ?b = "contract_binding_new (ContractId (nonzero_u32_of 7)) (WireRevision (nonzero_u16_of 2))"
  let ?r = "wire_route_new (RootCode 3) (VariantCode 0)"
  have other: "?c \<noteq> ?b" by (simp add: contract_binding_new_def)
  have encoded: "streaming_frame_encode_length_prefixed (\<lambda>_. Ok [] :: (u8 list, unit) result)
      (streaming_frame_new ?c ?r (StHandshakeRequest handshake_request_current :: (nat, nat, nat) streaming_frame_body))
    = Ok (u32_to_be_bytes 8 @ header_to_le_bytes (header_bound ?c ?r))"
    by (simp add: streaming_frame_encode_length_prefixed_def streaming_frame_encode_def
        streaming_frame_new_def encode_frame_archive_def encode_archive_def length_prefix_def
        u32_try_from_def)
  from conjunct2 [OF cross_contract_refused [OF other,
        where deserialize' = "\<lambda>bs. Ok (StHandshakeRequest handshake_request_current)"], THEN mp, OF encoded]
  show ?thesis by (simp add: contract_binding_new_def)
qed

text \<open>
  C13.  The archive decoder is not consulted before the header is validated: unless the bytes carry
  a header packed for the binding, every decoder, one that would panic included, gives the same
  frame error.
\<close>

theorem decoder_behind_header:
  "(\<exists>r archive. bytes = header_to_le_bytes (header_bound b r) @ archive
      \<and> (\<forall>decoder :: u8 list \<Rightarrow> ('v, 'x frame_error) exec.
           decode_archive_with b bytes decoder = decoder archive))
   \<or> (\<exists>e. \<forall>decoder :: u8 list \<Rightarrow> ('v, 'x frame_error) exec.
           decode_archive_with b bytes decoder = Err (Failed e))"
proof (cases "\<exists>r archive. bytes = bound_archive b r archive")
  case True
  then show ?thesis by (auto simp flip: bound_archive_def)
next
  case False
  from decode_archive_with_other [OF this] show ?thesis by blast
qed

end
