(* ===== verification/Observer_Set.thy ===== *)
theory Observer_Set
  imports Exchange Request
begin

text \<open>
  The observer runtime that \<^verbatim>\<open>signal_channel!\<close> generates for an observable channel
  (\<^verbatim>\<open>emit_observable_runtime\<close> and \<^verbatim>\<open>emit_default_filter\<close> of \<^verbatim>\<open>macros/src/emit.rs\<close>) and the
  traits of \<^verbatim>\<open>src/observable.rs\<close> it implements.  The filter type of a channel is a type parameter
  with its \<^verbatim>\<open>ObserverFilterMatch\<close> methods as arguments; the generated default filter is one
  instance.  A callback \<^verbatim>\<open>FnMut(Token, &Event)\<close> is a state transformer
  \<open>'t \<Rightarrow> 'e \<Rightarrow> 's \<Rightarrow> 's\<close> on the state it captures.
\<close>

subsection \<open>Tokens and their text form\<close>

datatype observer_subscription_token = ObserverSubscriptionToken subscription_token_inner

primrec token_inner :: "observer_subscription_token \<Rightarrow> subscription_token_inner" where
  "token_inner (ObserverSubscriptionToken i) = i"

record observer_subscription_opened =
  opened_token :: observer_subscription_token

definition observer_subscription_opened_new ::
  "observer_subscription_token \<Rightarrow> observer_subscription_opened" where
  "observer_subscription_opened_new t = \<lparr>opened_token = t\<rparr>"

definition token_to_dotos :: "('b, 'x) dotos_blocks \<Rightarrow> observer_subscription_token \<Rightarrow> string" where
  "token_to_dotos d t =
     wrap_parenthesis d [''ObserverSubscriptionToken'', u64_to_dotos d (token_inner_value (token_inner t))]"

definition token_from_dotos_block ::
  "('b, 'x) dotos_blocks \<Rightarrow> 'b \<Rightarrow> (observer_subscription_token, 'x dotos_decode_error) exec" where
  "token_from_dotos_block d block =
     and_then (returning (expect_children d block ''ObserverSubscriptionToken'' 2)) (\<lambda>children.
     and_then (index_at children 0) (\<lambda>child.
     and_then (returning (ok_or (ExpectedAtom ''ObserverSubscriptionToken'') (demote_to_string d child)))
       (\<lambda>head.
     if head \<noteq> ''ObserverSubscriptionToken''
     then Err (Failed (UnknownVariant ''ObserverSubscriptionToken'' head))
     else and_then (index_at children 1) (\<lambda>child1.
       and_then (returning (u64_from_dotos_block d child1)) (\<lambda>value.
         Ok (ObserverSubscriptionToken (SubscriptionTokenInner value)))))))"

definition opened_to_dotos :: "('b, 'x) dotos_blocks \<Rightarrow> observer_subscription_opened \<Rightarrow> string" where
  "opened_to_dotos d r =
     wrap_parenthesis d [''ObserverSubscriptionOpened'', token_to_dotos d (opened_token r)]"

definition opened_from_dotos_block ::
  "('b, 'x) dotos_blocks \<Rightarrow> 'b \<Rightarrow> (observer_subscription_opened, 'x dotos_decode_error) exec" where
  "opened_from_dotos_block d block =
     and_then (returning (expect_children d block ''ObserverSubscriptionOpened'' 2)) (\<lambda>children.
     and_then (index_at children 0) (\<lambda>child.
     and_then (returning (ok_or (ExpectedAtom ''ObserverSubscriptionOpened'') (demote_to_string d child)))
       (\<lambda>head.
     if head \<noteq> ''ObserverSubscriptionOpened''
     then Err (Failed (UnknownVariant ''ObserverSubscriptionOpened'' head))
     else and_then (index_at children 1) (\<lambda>child1.
       and_then (token_from_dotos_block d child1) (\<lambda>token.
         Ok \<lparr>opened_token = token\<rparr>)))))"

subsection \<open>The observer set\<close>

record 'f observer_subscription =
  sub_token :: observer_subscription_token
  sub_filter :: 'f

record 'f observer_set =
  subscriptions :: "'f observer_subscription list"
  next_token_value :: u64

definition observer_set_new :: "'f observer_set" where
  "observer_set_new = \<lparr>subscriptions = [], next_token_value = 1\<rparr>"

definition observer_register ::
  "'f \<Rightarrow> 'f observer_set \<Rightarrow> observer_subscription_token \<times> 'f observer_set" where
  "observer_register f s =
     (let token = ObserverSubscriptionToken (SubscriptionTokenInner (next_token_value s));
          s1 = s\<lparr>next_token_value := next_token_value s + 1\<rparr>;
          s2 = s1\<lparr>subscriptions := subscriptions s1 @ [\<lparr>sub_token = token, sub_filter = f\<rparr>]\<rparr>
      in (token, s2))"

definition observer_unregister ::
  "observer_subscription_token \<Rightarrow> 'f observer_set \<Rightarrow> bool \<times> 'f observer_set" where
  "observer_unregister token s =
     (let before = length (subscriptions s);
          s1 = s\<lparr>subscriptions := filter (\<lambda>sub. sub_token sub \<noteq> token) (subscriptions s)\<rparr>
      in (length (subscriptions s1) \<noteq> before, s1))"

definition observer_len :: "'f observer_set \<Rightarrow> usize" where
  "observer_len s = length (subscriptions s)"

definition observer_is_empty :: "'f observer_set \<Rightarrow> bool" where
  "observer_is_empty s = (subscriptions s = [])"

text \<open>The body of both publication loops: \<open>matches\<close> is the filter's method for the event's role.\<close>

fun deliver_matching ::
  "('f \<Rightarrow> 'e \<Rightarrow> bool) \<Rightarrow> 'f observer_subscription list \<Rightarrow> 'e
     \<Rightarrow> (observer_subscription_token \<Rightarrow> 'e \<Rightarrow> 's \<Rightarrow> 's) \<Rightarrow> 's \<Rightarrow> 's" where
  "deliver_matching matches [] event deliver st = st"
| "deliver_matching matches (sub # subs) event deliver st =
     deliver_matching matches subs event deliver
       (if matches (sub_filter sub) event then deliver (sub_token sub) event st else st)"

record ('f, 'o, 'ef) observer_filter_match =
  matches_operation_received :: "'f \<Rightarrow> 'o \<Rightarrow> bool"
  matches_effect_emitted :: "'f \<Rightarrow> 'ef \<Rightarrow> bool"

definition publish_operation_received ::
  "('f, 'o, 'ef) observer_filter_match \<Rightarrow> 'f observer_set \<Rightarrow> 'o
     \<Rightarrow> (observer_subscription_token \<Rightarrow> 'o \<Rightarrow> 's \<Rightarrow> 's) \<Rightarrow> 's \<Rightarrow> 's" where
  "publish_operation_received m s event deliver st =
     deliver_matching (matches_operation_received m) (subscriptions s) event deliver st"

definition publish_effect_emitted ::
  "('f, 'o, 'ef) observer_filter_match \<Rightarrow> 'f observer_set \<Rightarrow> 'ef
     \<Rightarrow> (observer_subscription_token \<Rightarrow> 'ef \<Rightarrow> 's \<Rightarrow> 's) \<Rightarrow> 's \<Rightarrow> 's" where
  "publish_effect_emitted m s event deliver st =
     deliver_matching (matches_effect_emitted m) (subscriptions s) event deliver st"

text \<open>The trait \<^verbatim>\<open>ObservableSet\<close> as the record of its methods, and its generated implementation.\<close>

record ('set, 't, 'o, 'ef, 's) observable_set_methods =
  set_publish_operation_received :: "'set \<Rightarrow> 'o \<Rightarrow> ('t \<Rightarrow> 'o \<Rightarrow> 's \<Rightarrow> 's) \<Rightarrow> 's \<Rightarrow> 's"
  set_publish_effect_emitted :: "'set \<Rightarrow> 'ef \<Rightarrow> ('t \<Rightarrow> 'ef \<Rightarrow> 's \<Rightarrow> 's) \<Rightarrow> 's \<Rightarrow> 's"

definition generated_observable_set ::
  "('f, 'o, 'ef) observer_filter_match
     \<Rightarrow> ('f observer_set, observer_subscription_token, 'o, 'ef, 's) observable_set_methods" where
  "generated_observable_set m =
     \<lparr>set_publish_operation_received = publish_operation_received m,
      set_publish_effect_emitted = publish_effect_emitted m\<rparr>"

record ('op, 'effect, 'o, 'ef) observation_projection =
  project_operation_event :: "'op \<Rightarrow> 'o"
  project_effect_event :: "'effect \<Rightarrow> 'ef"

subsection \<open>The default filter\<close>

datatype default_filter = AllEvents | OperationsOnly | EffectsOnly

definition default_filter_match :: "(default_filter, 'o, 'ef) observer_filter_match" where
  "default_filter_match =
     \<lparr>matches_operation_received = (\<lambda>f _. f = AllEvents \<or> f = OperationsOnly),
      matches_effect_emitted = (\<lambda>f _. f = AllEvents \<or> f = EffectsOnly)\<rparr>"

primrec default_filter_to_dotos :: "default_filter \<Rightarrow> string" where
  "default_filter_to_dotos AllEvents = ''All''"
| "default_filter_to_dotos OperationsOnly = ''OperationsOnly''"
| "default_filter_to_dotos EffectsOnly = ''EffectsOnly''"

definition default_filter_from_dotos_block ::
  "string \<Rightarrow> ('b, 'x) dotos_blocks \<Rightarrow> 'b \<Rightarrow> (default_filter, 'x dotos_decode_error) result" where
  "default_filter_from_dotos_block type_name d block =
     and_then (ok_or (ExpectedAtom type_name) (demote_to_string d block)) (\<lambda>head.
       if head = ''All'' then Ok AllEvents
       else if head = ''OperationsOnly'' then Ok OperationsOnly
       else if head = ''EffectsOnly'' then Ok EffectsOnly
       else Err (UnknownVariant type_name head))"

subsection \<open>What a publication promises\<close>

text \<open>
  The documented contract of \<^verbatim>\<open>ObservableSet\<close>: the callback runs once per matching subscription,
  in registration order.  \<open>live\<close> lists the subscriptions in registration order.
\<close>

locale observable_set =
  fixes publish :: "'set \<Rightarrow> 'e \<Rightarrow> ('t \<Rightarrow> 'e \<Rightarrow> 's \<Rightarrow> 's) \<Rightarrow> 's \<Rightarrow> 's"
    and live :: "'set \<Rightarrow> ('t \<times> 'f) list"
    and admits :: "'f \<Rightarrow> 'e \<Rightarrow> bool"
  assumes publish_in_order:
    "publish obs event deliver st =
       fold (\<lambda>t. deliver t event) (map fst (filter (\<lambda>(t, f). admits f event) (live obs))) st"
begin

lemma publish_appended:
  "live obs' = live obs @ [(t, f)] \<Longrightarrow>
   publish obs' event deliver st =
     (if admits f event then deliver t event (publish obs event deliver st)
      else publish obs event deliver st)"
  by (simp add: publish_in_order)

lemma publish_unheard:
  "\<forall>(t, f) \<in> set (live s). \<not> admits f event \<Longrightarrow> publish s event deliver st = st"
  by (simp add: publish_in_order filter_empty_conv[THEN iffD2] case_prod_beta)

lemma publish_invariant:
  assumes "P st" "\<And>t f st. (t, f) \<in> set (live s) \<Longrightarrow> admits f event \<Longrightarrow> P st \<Longrightarrow> P (deliver t event st)"
  shows "P (publish s event deliver st)"
proof -
  have "P (fold (\<lambda>t. deliver t event) (map fst xs) st)"
    if "set xs \<subseteq> {(t, f). (t, f) \<in> set (live s) \<and> admits f event}" "P st" for xs st
    using that assms(2) by (induction xs arbitrary: st) auto
  from this [of "filter (\<lambda>(t, f). admits f event) (live s)"] assms(1) show ?thesis
    by (auto simp: publish_in_order)
qed

end

definition live_subscriptions :: "'f observer_set \<Rightarrow> (observer_subscription_token \<times> 'f) list" where
  "live_subscriptions s = map (\<lambda>sub. (sub_token sub, sub_filter sub)) (subscriptions s)"

lemma deliver_matching_fold:
  "deliver_matching matches subs event deliver st =
     fold (\<lambda>t. deliver t event)
       (map fst (filter (\<lambda>(t, f). matches f event) (map (\<lambda>sub. (sub_token sub, sub_filter sub)) subs))) st"
  by (induction subs arbitrary: st) simp_all

interpretation operation_publication: observable_set
  "publish_operation_received m" live_subscriptions "matches_operation_received m" for m
  by unfold_locales
    (simp add: publish_operation_received_def live_subscriptions_def deliver_matching_fold)

interpretation effect_publication: observable_set
  "publish_effect_emitted m" live_subscriptions "matches_effect_emitted m" for m
  by unfold_locales
    (simp add: publish_effect_emitted_def live_subscriptions_def deliver_matching_fold)

lemma live_subscriptions_simps [simp]:
  "live_subscriptions observer_set_new = []"
  "live_subscriptions (snd (observer_register f s)) =
     live_subscriptions s @ [(fst (observer_register f s), f)]"
  "live_subscriptions (snd (observer_unregister t s)) =
     filter (\<lambda>(u, f). u \<noteq> t) (live_subscriptions s)"
  by (simp_all add: live_subscriptions_def observer_set_new_def observer_register_def Let_def
      observer_unregister_def filter_map comp_def)

lemma next_token_unregister [simp]:
  "next_token_value (snd (observer_unregister t s)) = next_token_value s"
  by (simp add: observer_unregister_def Let_def)

lemma length_filter_neq_iff: "length (filter P xs) \<noteq> length xs \<longleftrightarrow> (\<exists>x \<in> set xs. \<not> P x)"
  by (metis length_filter_less less_irrefl filter_True)

lemma fst_observer_unregister [simp]:
  "fst (observer_unregister t s) \<longleftrightarrow> t \<in> fst ` set (live_subscriptions s)"
  by (auto simp: observer_unregister_def Let_def length_filter_neq_iff live_subscriptions_def image_iff)

subsection \<open>Runs of an observer set\<close>

text \<open>
  The sets an owner can reach, with the number of registrations so far.
\<close>

inductive observer_reachable :: "nat \<Rightarrow> 'f observer_set \<Rightarrow> bool" where
  fresh: "observer_reachable 0 observer_set_new"
| registered: "observer_reachable n s \<Longrightarrow> observer_reachable (Suc n) (snd (observer_register f s))"
| unregistered: "observer_reachable n s \<Longrightarrow> observer_reachable n (snd (observer_unregister t s))"

inductive_cases observer_reachable_zero: "observer_reachable 0 s"

definition numbered_token :: "nat \<Rightarrow> observer_subscription_token" where
  "numbered_token k = ObserverSubscriptionToken (SubscriptionTokenInner (word_of_nat k))"

lemma fst_observer_register: "fst (observer_register f s) = numbered_token (unat (next_token_value s))"
  by (simp add: observer_register_def Let_def numbered_token_def)

text \<open>The live tokens are numbered, in order, by a subset of the registrations.\<close>

lemma observer_reachable_numbered:
  "observer_reachable n s \<Longrightarrow>
     next_token_value s = word_of_nat (Suc n) \<and>
     (\<exists>ks. map fst (live_subscriptions s) = map numbered_token ks
        \<and> sorted_wrt (<) ks \<and> set ks \<subseteq> {1..n})"
proof (induction rule: observer_reachable.induct)
  case fresh
  show ?case by (simp add: observer_set_new_def live_subscriptions_def)
next
  case (registered n s f)
  then obtain ks where ks: "map fst (live_subscriptions s) = map numbered_token ks"
      "sorted_wrt (<) ks" "set ks \<subseteq> {1..n}" and next_token: "next_token_value s = word_of_nat (Suc n)"
    by blast
  have "fst (observer_register f s) = numbered_token (Suc n)"
    by (simp add: observer_register_def Let_def next_token numbered_token_def)
  moreover have "sorted_wrt (<) (ks @ [Suc n])"
    using ks(2,3) by (fastforce simp: sorted_wrt_append)
  moreover have "next_token_value (snd (observer_register f s)) = word_of_nat (Suc (Suc n))"
    by (simp add: observer_register_def Let_def next_token algebra_simps)
  ultimately show ?case using ks by (intro conjI exI [of _ "ks @ [Suc n]"]) auto
next
  case (unregistered n s t)
  then obtain ks where ks: "map fst (live_subscriptions s) = map numbered_token ks"
      "sorted_wrt (<) ks" "set ks \<subseteq> {1..n}" and next_token: "next_token_value s = word_of_nat (Suc n)"
    by blast
  have "map fst (live_subscriptions (snd (observer_unregister t s)))
      = filter (\<lambda>u. u \<noteq> t) (map fst (live_subscriptions s))"
    by (simp add: filter_map comp_def case_prod_beta')
  also have "\<dots> = map numbered_token (filter (\<lambda>k. numbered_token k \<noteq> t) ks)"
    by (simp add: ks(1) filter_map comp_def)
  finally show ?case
    using ks next_token
    by (intro conjI exI [of _ "filter (\<lambda>k. numbered_token k \<noteq> t) ks"])
      (auto simp: observer_unregister_def Let_def sorted_wrt_filter)
qed

lemma numbered_token_inject:
  assumes "j \<in> {1..2 ^ 64}" "k \<in> {1..2 ^ 64}" "numbered_token j = numbered_token k"
  shows "j = k"
proof -
  from assms have "unat (word_of_nat j :: u64) = unat (word_of_nat k :: u64)"
    by (simp add: numbered_token_def)
  then have "j mod 2 ^ 64 = k mod 2 ^ 64"
    by (simp add: unat_of_nat take_bit_eq_mod)
  then show ?thesis using assms(1,2)
    by (cases "j = 2 ^ 64"; cases "k = 2 ^ 64") auto
qed

lemma observer_tokens_distinct:
  assumes "observer_reachable n s" "n \<le> 2 ^ 64"
  shows "distinct (map fst (live_subscriptions s))"
proof -
  obtain ks where ks: "map fst (live_subscriptions s) = map numbered_token ks"
      "sorted_wrt (<) ks" "set ks \<subseteq> {1..n}"
    using observer_reachable_numbered [OF assms(1)] by blast
  have "inj_on numbered_token (set ks)"
    using ks(3) assms(2) numbered_token_inject by (intro inj_onI) (meson atLeastAtMost_iff in_mono le_trans)
  with ks show ?thesis by (simp add: distinct_map strict_sorted_iff)
qed

lemma observer_token_fresh:
  assumes "observer_reachable n s" "n < 2 ^ 64"
  shows "fst (observer_register f s) \<notin> fst ` set (live_subscriptions s)"
proof -
  have "distinct (map fst (live_subscriptions (snd (observer_register f s))))"
    by (rule observer_tokens_distinct [OF observer_reachable.registered [OF assms(1)]])
      (use assms(2) in simp)
  then show ?thesis by simp
qed

subsection \<open>The abstract registry\<close>

text \<open>The abstract specification: a finite map from live tokens to their filters.\<close>

definition registry :: "'f observer_set \<Rightarrow> observer_subscription_token \<rightharpoonup> 'f" where
  "registry s = map_of (live_subscriptions s)"

lemma dom_registry: "dom (registry s) = fst ` set (live_subscriptions s)"
  by (simp add: registry_def dom_map_of_conv_image_fst)

lemma map_of_filter_key: "map_of (filter (\<lambda>(u, f). u \<noteq> t) xs) = (map_of xs)(t := None)"
  by (induction xs) (auto simp: fun_eq_iff)

lemma observer_len_live: "observer_len s = length (live_subscriptions s)"
  by (simp add: observer_len_def live_subscriptions_def)

lemma registry_new: "registry observer_set_new = Map.empty"
  by (simp add: registry_def)

lemma registry_register:
  assumes "observer_reachable n s" "n < 2 ^ 64"
  shows "registry (snd (observer_register f s)) = (registry s)(fst (observer_register f s) \<mapsto> f)"
    and "registry s (fst (observer_register f s)) = None"
proof -
  show none: "registry s (fst (observer_register f s)) = None"
    using observer_token_fresh [OF assms, of f] by (simp add: registry_def map_of_eq_None_iff)
  show "registry (snd (observer_register f s)) = (registry s)(fst (observer_register f s) \<mapsto> f)"
    using none by (auto simp: registry_def fun_eq_iff map_add_def split: option.splits)
qed

lemma registry_unregister: "registry (snd (observer_unregister t s)) = (registry s)(t := None)"
  by (simp add: registry_def map_of_filter_key)

lemma observer_len_card:
  "observer_reachable n s \<Longrightarrow> n \<le> 2 ^ 64 \<Longrightarrow> observer_len s = card (dom (registry s))"
  using observer_tokens_distinct [of n s] distinct_card [of "map fst (live_subscriptions s)"]
  by (simp add: dom_registry observer_len_live)

subsection \<open>Logging deliveries\<close>

definition log_delivery ::
  "'t \<Rightarrow> 'e \<Rightarrow> ('t \<times> 'e) list \<Rightarrow> ('t \<times> 'e) list" where
  "log_delivery t e log = log @ [(t, e)]"

lemma fold_log_delivery: "fold (\<lambda>t. log_delivery t e) ts log = log @ map (\<lambda>t. (t, e)) ts"
  by (induction ts arbitrary: log) (simp_all add: log_delivery_def)

lemma publish_operation_log:
  "publish_operation_received m s event log_delivery log =
     log @ map (\<lambda>(t, f). (t, event))
       (filter (\<lambda>(t, f). matches_operation_received m f event) (live_subscriptions s))"
  by (simp add: operation_publication.publish_in_order fold_log_delivery case_prod_beta')

lemma publish_effect_log:
  "publish_effect_emitted m s event log_delivery log =
     log @ map (\<lambda>(t, f). (t, event))
       (filter (\<lambda>(t, f). matches_effect_emitted m f event) (live_subscriptions s))"
  by (simp add: effect_publication.publish_in_order fold_log_delivery case_prod_beta')

subsection \<open>The text form of tokens\<close>

lemma token_names_identifiers:
  "identifier_text ''ObserverSubscriptionToken''"
  "identifier_text ''ObserverSubscriptionOpened''"
  "identifier_text (default_filter_to_dotos f)"
  by (simp_all add: identifier_text_simps) (cases f, simp_all add: identifier_text_simps)

lemma token_text_roundtrip:
  assumes "dotos_blocks_law block_text parse d"
  shows "token_from_dotos_block d (parse (token_to_dotos d t)) = Ok t"
proof (cases t)
  case (ObserverSubscriptionToken i)
  then show ?thesis
    by (cases i) (simp add: token_from_dotos_block_def token_to_dotos_def
        dotos_blocks_lawD [OF assms] token_names_identifiers)
qed

lemma token_block_text:
  assumes "dotos_blocks_law block_text parse d"
  shows "block_text (token_to_dotos d t)"
  unfolding token_to_dotos_def
  by (rule dotos_blocks_lawD(6) [OF assms token_names_identifiers(1) dotos_blocks_lawD(7) [OF assms]])

lemma opened_text_roundtrip:
  assumes "dotos_blocks_law block_text parse d"
  shows "opened_from_dotos_block d (parse (opened_to_dotos d r)) = Ok r"
  by (simp add: opened_from_dotos_block_def opened_to_dotos_def token_text_roundtrip [OF assms]
      dotos_blocks_lawD [OF assms] token_names_identifiers token_block_text [OF assms])

lemma default_filter_text_roundtrip:
  assumes "dotos_blocks_law block_text parse d"
  shows "default_filter_from_dotos_block name d (parse (default_filter_to_dotos f)) = Ok f"
  using dotos_blocks_lawD(3) [OF assms token_names_identifiers(3), of f]
  by (cases f) (simp_all add: default_filter_from_dotos_block_def)

lemma token_decode_never_panics:
  assumes "dotos_blocks_law block_text parse d"
  shows "never_panics (token_from_dotos_block d block)"
  unfolding token_from_dotos_block_def
  by (auto intro!: never_panics_and_then simp: fault_iffs dest!: dotos_blocks_lawD(5) [OF assms])

subsection \<open>Properties\<close>

text \<open>
  C22.  An observer set implements a finite map from tokens to filters: up to \<open>2 ^ 64\<close>
  registrations, registering issues a token that is not live and adds its filter under it, and the
  number of live subscriptions is the size of the map.
\<close>

theorem observer_register_refines:
  assumes "observer_reachable n s" "n < 2 ^ 64"
  shows "registry s (fst (observer_register f s)) = None
     \<and> registry (snd (observer_register f s)) = (registry s)(fst (observer_register f s) \<mapsto> f)
     \<and> observer_len s = card (dom (registry s))
     \<and> distinct (map fst (live_subscriptions s))"
  using registry_register [OF assms, of f] observer_len_card [OF assms(1)]
    observer_tokens_distinct [OF assms(1)] assms(2)
  by simp

theorem observer_register_refines_witness:
  "let s = snd (observer_register AllEvents (observer_set_new :: default_filter observer_set));
       (t, s') = observer_register OperationsOnly s
   in registry s t = None \<and> registry s' = (registry s)(t \<mapsto> OperationsOnly)"
proof -
  have "observer_reachable 1 (snd (observer_register AllEvents (observer_set_new :: default_filter observer_set)))"
    using observer_reachable.registered [OF observer_reachable.fresh] by simp
  from observer_register_refines [OF this, of OperationsOnly] show ?thesis
    by (simp add: Let_def case_prod_beta)
qed

text \<open>
  C23.  Unregistering reports whether the token was live and removes exactly it from the map; the
  other subscriptions keep their order.
\<close>

theorem observer_unregister_refines:
  "(fst (observer_unregister t s) \<longleftrightarrow> registry s t \<noteq> None)
   \<and> registry (snd (observer_unregister t s)) = (registry s)(t := None)
   \<and> live_subscriptions (snd (observer_unregister t s))
       = filter (\<lambda>(u, f). u \<noteq> t) (live_subscriptions s)
   \<and> next_token_value (snd (observer_unregister t s)) = next_token_value s"
  using dom_registry [of s] by (auto simp: registry_unregister)

text \<open>
  C24.  A publication calls the callback once for each live subscription whose filter admits the
  event, in registration order and with that subscription's token, for either role; under the
  default filter, operations reach the filters \<^verbatim>\<open>All\<close> and \<^verbatim>\<open>OperationsOnly\<close> and effects reach
  \<^verbatim>\<open>All\<close> and \<^verbatim>\<open>EffectsOnly\<close>.
\<close>

theorem publication_exact:
  "publish_operation_received m s op log_delivery log =
     log @ map (\<lambda>(t, f). (t, op))
       (filter (\<lambda>(t, f). matches_operation_received m f op) (live_subscriptions s))
   \<and> publish_effect_emitted m s ef log_delivery log' =
     log' @ map (\<lambda>(t, f). (t, ef))
       (filter (\<lambda>(t, f). matches_effect_emitted m f ef) (live_subscriptions s))
   \<and> (matches_operation_received default_filter_match g op' \<longleftrightarrow> g \<noteq> EffectsOnly)
   \<and> (matches_effect_emitted default_filter_match g ef' \<longleftrightarrow> g \<noteq> OperationsOnly)"
  by (cases g) (simp_all add: publish_operation_log publish_effect_log default_filter_match_def)

text \<open>
  C25.  The text forms of the subscription token, of the opened reply that carries it and of the
  default filter are read back to the same value, and reading a token from any block never panics
  on its two child indexes.
\<close>

theorem observer_text_roundtrip:
  assumes "dotos_blocks_law block_text parse d"
  shows "token_from_dotos_block d (parse (token_to_dotos d t)) = Ok t
     \<and> opened_from_dotos_block d (parse (opened_to_dotos d r)) = Ok r
     \<and> default_filter_from_dotos_block name d (parse (default_filter_to_dotos f)) = Ok f
     \<and> never_panics (token_from_dotos_block d block)"
  using assms
  by (simp add: token_text_roundtrip opened_text_roundtrip default_filter_text_roundtrip
      token_decode_never_panics)

theorem observer_text_roundtrip_witness:
  "token_from_dotos_block text_blocks (token_to_dotos text_blocks
      (ObserverSubscriptionToken (SubscriptionTokenInner 5)))
     = Ok (ObserverSubscriptionToken (SubscriptionTokenInner 5))
   \<and> opened_from_dotos_block text_blocks (opened_to_dotos text_blocks
       (observer_subscription_opened_new (ObserverSubscriptionToken (SubscriptionTokenInner 6))))
     = Ok (observer_subscription_opened_new (ObserverSubscriptionToken (SubscriptionTokenInner 6)))"
  using observer_text_roundtrip [OF text_blocks_law] by simp

end
