(* ===== verification/Channel_Model.thy ===== *)
theory Channel_Model
  imports Text
begin

text \<open>
  \<^verbatim>\<open>macros/src/model.rs\<close>: what \<^verbatim>\<open>signal_channel!\<close> has parsed.  An identifier is its text (its
  equality and \<^verbatim>\<open>to_string\<close> are those of the text); a \<^verbatim>\<open>syn::Type\<close> is the text of its tokens,
  \<^verbatim>\<open>quote!(#ty).to_string()\<close>, the only thing the macro reads of it.  A \<^verbatim>\<open>syn::Error\<close> is the text of
  the node its span points at and its message.
\<close>

type_synonym ident = string
type_synonym syn_type = string

record request_variant_spec =
  rv_name :: ident
  rv_payload :: syn_type
  rv_opens :: "ident option"

record reply_variant_spec =
  yv_name :: ident
  yv_payload :: "syn_type option"

record event_variant_spec =
  evt_name :: ident
  evt_payload :: syn_type
  evt_belongs :: "ident option"

record request_block_spec =
  request_name :: ident
  request_variants :: "request_variant_spec list"

record reply_block_spec =
  reply_name :: ident
  reply_variants :: "reply_variant_spec list"

record event_block_spec =
  event_name :: ident
  event_variants :: "event_variant_spec list"

record stream_block_spec =
  stream_name :: ident
  stream_token :: syn_type
  stream_opened :: ident
  stream_events :: "ident list"
  stream_close :: ident

datatype filter_decl = FilterDefault | FilterNamed ident

record observable_block_spec =
  obs_filter :: filter_decl
  obs_operation_event :: ident
  obs_effect_event :: ident

record channel_spec =
  channel_name :: ident
  channel_contract :: syn_type
  channel_request :: request_block_spec
  channel_reply :: reply_block_spec
  channel_event :: "event_block_spec option"
  channel_streams :: "stream_block_spec list"
  channel_observable :: "observable_block_spec option"

definition event_records :: "observable_block_spec \<Rightarrow> ident list" where
  "event_records ob = [obs_operation_event ob, obs_effect_event ob]"

definition is_streaming :: "channel_spec \<Rightarrow> bool" where
  "is_streaming spec \<longleftrightarrow>
     channel_event spec \<noteq> None \<or> channel_streams spec \<noteq> [] \<or> channel_observable spec \<noteq> None"

record syn_error =
  error_spanned :: string
  error_message :: string

definition new_spanned :: "string \<Rightarrow> string \<Rightarrow> syn_error" where
  "new_spanned node message = \<lparr>error_spanned = node, error_message = message\<rparr>"

text \<open>The variants an optional event block declares.\<close>

definition declared_events :: "channel_spec \<Rightarrow> event_variant_spec list" where
  "declared_events spec = (case channel_event spec of None \<Rightarrow> [] | Some b \<Rightarrow> event_variants b)"

lemma declared_events_simps [simp]:
  "channel_event spec = None \<Longrightarrow> declared_events spec = []"
  "channel_event spec = Some b \<Longrightarrow> declared_events spec = event_variants b"
  by (simp_all add: declared_events_def)

end
