(* ===== verification/Channel_Validate.thy ===== *)
theory Channel_Validate
  imports Channel_Model
begin

text \<open>
  \<^verbatim>\<open>macros/src/validate.rs\<close>: the semantic validation of a channel declaration, pass by pass and
  check by check in the order of the code, with its messages.  The two \<^verbatim>\<open>expect\<close> calls and the
  lookup of a close variant are outcomes \<open>Panicked\<close>; the lemmas show they are not reached, and
  that validation accepts exactly the declaratively well-formed channels.
\<close>

subsection \<open>Pieces of messages\<close>

definition quoted :: "string \<Rightarrow> string" where
  "quoted s = ''`'' @ s @ ''`''"

definition em_dash :: string where
  "em_dash = [CHR 0xE2, CHR 0x80, CHR 0x94]"

definition section_sign :: string where
  "section_sign = [CHR 0xC2, CHR 0xA7]"

definition refuse :: "string \<Rightarrow> string \<Rightarrow> ('a, syn_error) exec" where
  "refuse node message = Err (Failed (new_spanned node message))"

lemma refuse_neq [simp]:
  "refuse node message \<noteq> Inr v" "never_panics (refuse node message)"
  by (simp_all add: refuse_def)

subsection \<open>Collisions with the injected observer surface\<close>

definition projected_record_head :: "syn_type \<Rightarrow> string" where
  "projected_record_head payload =
     (let payload_text = filter (\<lambda>c. c \<noteq> CHR '' '') payload
      in case rfind payload_text ''::'' of
           None \<Rightarrow> payload_text
         | Some i \<Rightarrow> drop (i + 2) payload_text)"

definition fixed_verbs_advice :: string where
  "fixed_verbs_advice =
     ''; rename the domain operation (the observability verbs `Tap`/`Untap` are fixed per /246 ''
     @ section_sign @ ''2 for persona-introspect vocabulary uniformity)''"

definition check_reserved_head ::
  "observable_block_spec \<Rightarrow> string \<Rightarrow> (unit, syn_error) exec" where
  "check_reserved_head observable reserved =
     (if obs_operation_event observable = reserved
      then refuse (obs_operation_event observable)
        (''observable `operation_event` '' @ quoted reserved @ '' collides with a macro-reserved record head'')
      else if obs_effect_event observable = reserved
      then refuse (obs_effect_event observable)
        (''observable `effect_event` '' @ quoted reserved @ '' collides with a macro-reserved record head'')
      else Ok ())"

definition check_fixed_verbs :: "request_variant_spec \<Rightarrow> (unit, syn_error) exec" where
  "check_fixed_verbs variant =
     (if rv_name variant = ''Tap''
      then refuse (rv_name variant)
        (''operation `Tap` collides with the macro-mandated observable open verb'' @ fixed_verbs_advice)
      else if rv_name variant = ''Untap''
      then refuse (rv_name variant)
        (''operation `Untap` collides with the macro-mandated observable close verb'' @ fixed_verbs_advice)
      else Ok ())"

definition check_opened_reply :: "reply_variant_spec \<Rightarrow> (unit, syn_error) exec" where
  "check_opened_reply variant =
     (if yv_name variant = ''ObserverSubscriptionOpened''
      then refuse (yv_name variant)
        ''reply variant `ObserverSubscriptionOpened` collides with the `observable` block's auto-injected reply variant''
      else Ok ())"

definition check_observable_event ::
  "string set \<Rightarrow> event_variant_spec \<Rightarrow> (unit, syn_error) exec" where
  "check_observable_event observable_event_names variant =
     (if evt_name variant \<in> observable_event_names
      then refuse (evt_name variant)
        (''event variant '' @ quoted (evt_name variant)
          @ '' collides with the `observable` block's auto-injected event variant'')
      else let payload_head = projected_record_head (evt_payload variant) in
        if payload_head \<in> observable_event_names
        then refuse (evt_name variant)
          (''event variant '' @ quoted (evt_name variant) @ '' projects to record head ''
            @ quoted payload_head
            @ '' which collides with the `observable` block's auto-injected event payload'')
        else Ok ())"

definition check_auto_stream :: "stream_block_spec \<Rightarrow> (unit, syn_error) exec" where
  "check_auto_stream stream =
     (if stream_name stream = ''ObserverStream''
      then refuse (stream_name stream)
        (''stream '' @ quoted ''ObserverStream''
          @ '' collides with the `observable` block's auto-injected stream'')
      else Ok ())"

definition validate_observable_does_not_collide :: "channel_spec \<Rightarrow> (unit, syn_error) exec" where
  "validate_observable_does_not_collide spec =
     (case channel_observable spec of
        None \<Rightarrow> Ok ()
      | Some observable \<Rightarrow>
          if obs_operation_event observable = obs_effect_event observable
          then refuse (obs_effect_event observable)
            ''observable `operation_event` and `effect_event` must declare distinct event record types''
          else
            and_then (check_each (check_reserved_head observable)
              [''ObserverSubscriptionToken'', ''ObserverSubscriptionOpened'']) (\<lambda>_.
            and_then (check_each check_fixed_verbs (request_variants (channel_request spec))) (\<lambda>_.
            and_then (check_each check_opened_reply (reply_variants (channel_reply spec))) (\<lambda>_.
            and_then (case channel_event spec of
                None \<Rightarrow> Ok ()
              | Some event_block \<Rightarrow>
                  check_each (check_observable_event (set (event_records observable)))
                    (event_variants event_block)) (\<lambda>_.
              check_each check_auto_stream (channel_streams spec))))))"

subsection \<open>Uniqueness\<close>

text \<open>The loop over one block: \<open>seen\<close> is the hash set of the names so far.\<close>

fun unique_names :: "string \<Rightarrow> string set \<Rightarrow> ident list \<Rightarrow> (unit, syn_error) exec" where
  "unique_names block seen [] = Ok ()"
| "unique_names block seen (name # names) =
     (if name \<in> seen
      then refuse name (''duplicate variant name '' @ quoted name @ '' in '' @ block @ '' block'')
      else unique_names block (insert name seen) names)"

definition validate_variant_uniqueness :: "channel_spec \<Rightarrow> (unit, syn_error) exec" where
  "validate_variant_uniqueness spec =
     and_then (unique_names ''request'' {} (map rv_name (request_variants (channel_request spec)))) (\<lambda>_.
     and_then (unique_names ''reply'' {} (map yv_name (reply_variants (channel_reply spec)))) (\<lambda>_.
       case channel_event spec of
         None \<Rightarrow> Ok ()
       | Some event \<Rightarrow> unique_names ''event'' {} (map evt_name (event_variants event))))"

subsection \<open>Stream relations\<close>

text \<open>The loop over the request variants, collecting the names of the opened streams.\<close>

fun collect_opened ::
  "string set \<Rightarrow> string set \<Rightarrow> request_variant_spec list \<Rightarrow> (string set, syn_error) exec" where
  "collect_opened stream_names opened [] = Ok opened"
| "collect_opened stream_names opened (variant # variants) =
     (case rv_opens variant of
        None \<Rightarrow> collect_opened stream_names opened variants
      | Some opens \<Rightarrow>
          if opens \<notin> stream_names
          then refuse opens (quoted (''opens '' @ opens) @ '' does not resolve to a declared stream block'')
          else collect_opened stream_names (insert opens opened) variants)"

definition check_not_orphaned :: "string set \<Rightarrow> stream_block_spec \<Rightarrow> (unit, syn_error) exec" where
  "check_not_orphaned opened_stream_names stream =
     (if stream_name stream \<notin> opened_stream_names
      then refuse (stream_name stream)
        (''stream '' @ quoted (stream_name stream) @ '' is orphaned '' @ em_dash
          @ '' no request operation opens it'')
      else Ok ())"

definition check_belongs :: "string set \<Rightarrow> event_variant_spec \<Rightarrow> (unit, syn_error) exec" where
  "check_belongs stream_names variant =
     (case evt_belongs variant of
        Some belongs \<Rightarrow>
          if belongs \<notin> stream_names
          then refuse belongs (quoted (''belongs '' @ belongs) @ '' does not resolve to a declared stream block'')
          else Ok ()
      | None \<Rightarrow>
          refuse (evt_name variant) ''event variant must annotate `belongs <StreamName>`'')"

definition check_stream_event ::
  "channel_spec \<Rightarrow> string set \<Rightarrow> stream_block_spec \<Rightarrow> ident \<Rightarrow> (unit, syn_error) exec" where
  "check_stream_event spec event_names stream event_variant_name =
     (if event_variant_name \<notin> event_names
      then refuse event_variant_name
        (''stream '' @ quoted (stream_name stream) @ '': '' @ quoted (''event '' @ event_variant_name)
          @ '' does not resolve to a variant in the event block'')
      else
        and_then (expect (case channel_event spec of
            None \<Rightarrow> None
          | Some event \<Rightarrow> find (\<lambda>variant. evt_name variant = event_variant_name) (event_variants event)))
          (\<lambda>event_variant.
        and_then (expect (evt_belongs event_variant)) (\<lambda>event_belongs.
          if event_belongs \<noteq> stream_name stream
          then refuse event_variant_name
            (''stream '' @ quoted (stream_name stream) @ '' names event '' @ quoted event_variant_name
              @ '' but that event belongs to stream '' @ quoted event_belongs)
          else Ok ())))"

definition check_stream ::
  "channel_spec \<Rightarrow> string set \<Rightarrow> string set \<Rightarrow> string set \<Rightarrow> stream_block_spec
     \<Rightarrow> (unit, syn_error) exec" where
  "check_stream spec reply_names request_names event_names stream =
     (if stream_opened stream \<notin> reply_names
      then refuse (stream_opened stream)
        (''stream '' @ quoted (stream_name stream) @ '': '' @ quoted (''opened '' @ stream_opened stream)
          @ '' does not resolve to a variant in the reply block'')
      else
        and_then (check_each (check_stream_event spec event_names stream) (stream_events stream)) (\<lambda>_.
        if stream_close stream \<notin> request_names
        then refuse (stream_close stream)
          (''stream '' @ quoted (stream_name stream) @ '': '' @ quoted (''close '' @ stream_close stream)
            @ '' does not resolve to a variant in the request block'')
        else
          and_then (expect (find (\<lambda>v. rv_name v = stream_close stream)
            (request_variants (channel_request spec)))) (\<lambda>close_variant.
          if stream_token stream \<noteq> rv_payload close_variant
          then refuse (stream_close stream)
            (''stream '' @ quoted (stream_name stream) @ '': close variant carries ''
              @ quoted (rv_payload close_variant) @ '' but stream's `token` is ''
              @ quoted (stream_token stream) @ '' '' @ em_dash @ '' types must match'')
          else Ok ())))"

definition validate_stream_relations :: "channel_spec \<Rightarrow> (unit, syn_error) exec" where
  "validate_stream_relations spec =
     (let has_streams = (channel_streams spec \<noteq> []);
          has_events = (channel_event spec \<noteq> None)
      in if has_streams \<and> \<not> has_events
         then refuse (channel_name spec)
           (''channel has `stream` blocks but no `event` block '' @ em_dash @ '' declare the event payloads'')
         else if has_events \<and> \<not> has_streams
         then refuse (channel_name spec)
           (''channel has an `event` block but no `stream` block '' @ em_dash
             @ '' events must belong to a declared stream'')
         else
           let stream_names = set (map stream_name (channel_streams spec)) in
           and_then (collect_opened stream_names {} (request_variants (channel_request spec)))
             (\<lambda>opened_stream_names.
           and_then (check_each (check_not_orphaned opened_stream_names) (channel_streams spec)) (\<lambda>_.
           and_then (case channel_event spec of
               None \<Rightarrow> Ok ()
             | Some event \<Rightarrow> check_each (check_belongs stream_names) (event_variants event)) (\<lambda>_.
           let reply_names = set (map yv_name (reply_variants (channel_reply spec)));
               request_names = set (map rv_name (request_variants (channel_request spec)));
               event_names = set (map evt_name (declared_events spec))
           in check_each (check_stream spec reply_names request_names event_names)
                (channel_streams spec)))))"

definition validate :: "channel_spec \<Rightarrow> (unit, syn_error) exec" where
  "validate spec =
     and_then (validate_observable_does_not_collide spec) (\<lambda>_.
     and_then (validate_variant_uniqueness spec) (\<lambda>_.
     and_then (validate_stream_relations spec) (\<lambda>_.
       Ok ())))"

subsection \<open>The well-formed channels\<close>

text \<open>The abstract specification of the three passes.\<close>

definition observable_wf :: "channel_spec \<Rightarrow> bool" where
  "observable_wf spec \<longleftrightarrow>
     (case channel_observable spec of
        None \<Rightarrow> True
      | Some ob \<Rightarrow>
          distinct (event_records ob)
          \<and> set (event_records ob) \<inter> {''ObserverSubscriptionToken'', ''ObserverSubscriptionOpened''} = {}
          \<and> (\<forall>v \<in> set (request_variants (channel_request spec)). rv_name v \<notin> {''Tap'', ''Untap''})
          \<and> (\<forall>v \<in> set (reply_variants (channel_reply spec)). yv_name v \<noteq> ''ObserverSubscriptionOpened'')
          \<and> (\<forall>v \<in> set (declared_events spec). evt_name v \<notin> set (event_records ob)
               \<and> projected_record_head (evt_payload v) \<notin> set (event_records ob))
          \<and> (\<forall>s \<in> set (channel_streams spec). stream_name s \<noteq> ''ObserverStream''))"

definition names_wf :: "channel_spec \<Rightarrow> bool" where
  "names_wf spec \<longleftrightarrow>
     distinct (map rv_name (request_variants (channel_request spec)))
     \<and> distinct (map yv_name (reply_variants (channel_reply spec)))
     \<and> distinct (map evt_name (declared_events spec))"

definition stream_wf :: "channel_spec \<Rightarrow> stream_block_spec \<Rightarrow> bool" where
  "stream_wf spec s \<longleftrightarrow>
     stream_opened s \<in> yv_name ` set (reply_variants (channel_reply spec))
     \<and> (\<forall>e \<in> set (stream_events s). \<exists>v \<in> set (declared_events spec).
          evt_name v = e \<and> evt_belongs v = Some (stream_name s))
     \<and> (\<exists>v \<in> set (request_variants (channel_request spec)).
          rv_name v = stream_close s \<and> rv_payload v = stream_token s)"

definition streams_wf :: "channel_spec \<Rightarrow> bool" where
  "streams_wf spec \<longleftrightarrow>
     (channel_streams spec = [] \<longleftrightarrow> channel_event spec = None)
     \<and> (\<forall>v \<in> set (request_variants (channel_request spec)). \<forall>target. rv_opens v = Some target \<longrightarrow>
          target \<in> stream_name ` set (channel_streams spec))
     \<and> (\<forall>s \<in> set (channel_streams spec). \<exists>v \<in> set (request_variants (channel_request spec)).
          rv_opens v = Some (stream_name s))
     \<and> (\<forall>v \<in> set (declared_events spec). \<exists>s \<in> set (channel_streams spec).
          evt_belongs v = Some (stream_name s))
     \<and> (\<forall>s \<in> set (channel_streams spec). stream_wf spec s)"

definition channel_wf :: "channel_spec \<Rightarrow> bool" where
  "channel_wf spec \<longleftrightarrow> observable_wf spec \<and> names_wf spec \<and> streams_wf spec"

subsection \<open>The passes decide their specification\<close>

lemma check_reserved_head_Ok [channel_simps]:
  "check_reserved_head ob r = Inr u \<longleftrightarrow> obs_operation_event ob \<noteq> r \<and> obs_effect_event ob \<noteq> r"
  by (simp add: check_reserved_head_def)

lemma check_fixed_verbs_Ok [channel_simps]:
  "check_fixed_verbs v = Inr u \<longleftrightarrow> rv_name v \<noteq> ''Tap'' \<and> rv_name v \<noteq> ''Untap''"
  by (auto simp: check_fixed_verbs_def)

lemma check_opened_reply_Ok [channel_simps]:
  "check_opened_reply v = Inr u \<longleftrightarrow> yv_name v \<noteq> ''ObserverSubscriptionOpened''"
  by (auto simp: check_opened_reply_def)

lemma check_observable_event_Ok [channel_simps]:
  "check_observable_event ns v = Inr u \<longleftrightarrow>
     evt_name v \<notin> ns \<and> projected_record_head (evt_payload v) \<notin> ns"
  by (auto simp: check_observable_event_def Let_def)

lemma check_auto_stream_Ok [channel_simps]:
  "check_auto_stream s = Inr u \<longleftrightarrow> stream_name s \<noteq> ''ObserverStream''"
  by (auto simp: check_auto_stream_def)

lemma validate_observable_Ok_iff:
  "validate_observable_does_not_collide spec = Inr u \<longleftrightarrow> observable_wf spec"
proof (cases "channel_observable spec")
  case None
  then show ?thesis by (simp add: validate_observable_does_not_collide_def observable_wf_def)
next
  case (Some ob)
  show ?thesis
    by (cases "channel_event spec")
      (auto simp: validate_observable_does_not_collide_def observable_wf_def Some event_records_def
        and_then_Inr_iff check_each_Ok_iff channel_simps simp del: check_each.simps)
qed

lemma unique_names_Ok [channel_simps]:
  "unique_names block seen names = Inr u \<longleftrightarrow> distinct names \<and> set names \<inter> seen = {}"
  by (induction names arbitrary: seen) auto

lemma validate_uniqueness_Ok_iff: "validate_variant_uniqueness spec = Inr u \<longleftrightarrow> names_wf spec"
  by (cases "channel_event spec")
    (simp_all add: validate_variant_uniqueness_def names_wf_def and_then_Inr_iff channel_simps)

lemma collect_opened_Ok [channel_simps]:
  "collect_opened ns opened vs = Inr result \<longleftrightarrow>
     (\<forall>v \<in> set vs. \<forall>target. rv_opens v = Some target \<longrightarrow> target \<in> ns)
     \<and> result = opened \<union> {target. \<exists>v \<in> set vs. rv_opens v = Some target}"
  by (induction vs arbitrary: opened) (auto split: option.splits)

lemma check_not_orphaned_Ok [channel_simps]:
  "check_not_orphaned opened s = Inr u \<longleftrightarrow> stream_name s \<in> opened"
  by (auto simp: check_not_orphaned_def)

lemma check_belongs_Ok [channel_simps]:
  "check_belongs ns v = Inr u \<longleftrightarrow> (\<exists>b \<in> ns. evt_belongs v = Some b)"
  by (auto simp: check_belongs_def split: option.splits)

lemma check_stream_event_find:
  assumes "distinct (map evt_name (declared_events spec))" "v \<in> set (declared_events spec)"
  shows "check_stream_event spec (evt_name ` set (declared_events spec)) s (evt_name v) =
     and_then (expect (evt_belongs v)) (\<lambda>event_belongs.
       if event_belongs \<noteq> stream_name s
       then refuse (evt_name v)
            (''stream '' @ quoted (stream_name s) @ '' names event '' @ quoted (evt_name v)
              @ '' but that event belongs to stream '' @ quoted event_belongs)
       else Ok ())"
proof (cases "channel_event spec")
  case (Some b)
  then show ?thesis
    using assms find_distinct [of evt_name "event_variants b" v]
    by (simp add: check_stream_event_def)
qed (use assms in simp)

lemma check_stream_event_Ok:
  assumes "distinct (map evt_name (declared_events spec))"
  shows "check_stream_event spec (evt_name ` set (declared_events spec)) s e = Inr u \<longleftrightarrow>
     (\<exists>v \<in> set (declared_events spec). evt_name v = e \<and> evt_belongs v = Some (stream_name s))"
proof (cases "e \<in> evt_name ` set (declared_events spec)")
  case True
  then obtain v where v: "v \<in> set (declared_events spec)" "e = evt_name v" by auto
  have "w = v" if "w \<in> set (declared_events spec)" "evt_name w = evt_name v" for w
    using that v(1) assms by (auto simp: distinct_map dest: inj_onD)
  then show ?thesis
    using v check_stream_event_find [OF assms v(1), of s] by (auto simp: fault_iffs split: if_splits)
next
  case False
  then show ?thesis by (auto simp: check_stream_event_def)
qed

lemma check_stream_Ok:
  assumes "names_wf spec"
  shows "check_stream spec (yv_name ` set (reply_variants (channel_reply spec)))
       (rv_name ` set (request_variants (channel_request spec)))
       (evt_name ` set (declared_events spec)) s = Inr u \<longleftrightarrow> stream_wf spec s"
proof -
  from assms have evs: "distinct (map evt_name (declared_events spec))"
    and rqs: "distinct (map rv_name (request_variants (channel_request spec)))"
    by (simp_all add: names_wf_def)
  let ?rvs = "request_variants (channel_request spec)"
  have close: "(find (\<lambda>v. rv_name v = stream_close s) ?rvs = Some v)
      \<longleftrightarrow> v \<in> set ?rvs \<and> rv_name v = stream_close s" for v
    using find_distinct [OF rqs, of v] find_Some_member [of _ ?rvs v] by auto
  have "check_stream spec (yv_name ` set (reply_variants (channel_reply spec))) (rv_name ` set ?rvs)
        (evt_name ` set (declared_events spec)) s = Inr u \<longleftrightarrow>
      stream_opened s \<in> yv_name ` set (reply_variants (channel_reply spec))
      \<and> (\<forall>e \<in> set (stream_events s). \<exists>v \<in> set (declared_events spec).
          evt_name v = e \<and> evt_belongs v = Some (stream_name s))
      \<and> stream_close s \<in> rv_name ` set ?rvs
      \<and> (\<exists>v. find (\<lambda>v. rv_name v = stream_close s) ?rvs = Some v \<and> stream_token s = rv_payload v)"
    by (simp add: check_stream_def and_then_Inr_iff check_each_Ok_iff expect_Inr_iff
        check_stream_event_Ok [OF evs] if_split_eq1 cong: conj_cong)
  then show ?thesis unfolding stream_wf_def close by (auto simp: image_iff) metis
qed

lemma validate_streams_Ok_iff:
  assumes "names_wf spec"
  shows "validate_stream_relations spec = Inr u \<longleftrightarrow> streams_wf spec"
proof -
  have belongs: "(case channel_event spec of None \<Rightarrow> Ok ()
      | Some event \<Rightarrow> check_each (check_belongs ns) (event_variants event)) = (Inr () :: (unit, syn_error) exec)
      \<longleftrightarrow> (\<forall>v \<in> set (declared_events spec). \<exists>b \<in> ns. evt_belongs v = Some b)" for ns
    by (cases "channel_event spec") (simp_all add: check_each_Ok_iff channel_simps)
  show ?thesis
    unfolding validate_stream_relations_def Let_def
    by (auto simp: streams_wf_def and_then_Inr_iff check_each_Ok_iff belongs channel_simps
        check_stream_Ok [OF assms])
qed

lemma validate_Ok_iff: "validate spec = Inr u \<longleftrightarrow> channel_wf spec"
  by (auto simp: validate_def channel_wf_def and_then_Inr_iff validate_observable_Ok_iff
      validate_uniqueness_Ok_iff validate_streams_Ok_iff)

subsection \<open>No check panics\<close>

lemma unique_names_never_panics [simp]: "never_panics (unique_names block seen names)"
  by (induction names arbitrary: seen) simp_all

lemma collect_opened_never_panics [simp]: "never_panics (collect_opened ns opened vs)"
  by (induction vs arbitrary: opened) (simp_all split: option.splits)

lemma validate_observable_never_panics: "never_panics (validate_observable_does_not_collide spec)"
  by (auto simp: validate_observable_does_not_collide_def check_reserved_head_def
      check_fixed_verbs_def check_opened_reply_def check_observable_event_def check_auto_stream_def
      Let_def simp del: check_each.simps intro!: never_panics_and_then check_each_never_panics
      split: option.splits)

lemma check_stream_never_panics:
  assumes "distinct (map evt_name (declared_events spec))"
    and "\<forall>v \<in> set (declared_events spec). evt_belongs v \<noteq> None"
  shows "never_panics (check_stream spec rs (rv_name ` set (request_variants (channel_request spec)))
           (evt_name ` set (declared_events spec)) s)"
proof -
  have event: "never_panics (check_stream_event spec (evt_name ` set (declared_events spec)) s e)" for e
  proof (cases "e \<in> evt_name ` set (declared_events spec)")
    case True
    then obtain v b where "v \<in> set (declared_events spec)" "e = evt_name v" "evt_belongs v = Some b"
      using assms(2) by auto
    then show ?thesis by (auto simp: check_stream_event_find [OF assms(1)])
  qed (simp add: check_stream_event_def)
  have close: "never_panics (expect (find (\<lambda>v. rv_name v = c) (request_variants (channel_request spec)))
        :: (request_variant_spec, syn_error) exec)"
    if "c \<in> rv_name ` set (request_variants (channel_request spec))" for c
    using that by (auto simp: never_panics_def expect_Inl_iff find_None_iff_member)
  show ?thesis
    by (auto simp: check_stream_def event close
        intro!: never_panics_and_then check_each_never_panics)
qed

lemma validate_uniqueness_never_panics: "never_panics (validate_variant_uniqueness spec)"
  by (auto simp: validate_variant_uniqueness_def intro!: never_panics_and_then split: option.splits)

lemma check_each_belongs:
  "check_each (check_belongs ns) vs = Inr u \<Longrightarrow> v \<in> set vs \<Longrightarrow> evt_belongs v \<noteq> None"
  by (auto simp: check_each_Ok_iff channel_simps)

lemma validate_streams_never_panics:
  assumes "names_wf spec"
  shows "never_panics (validate_stream_relations spec)"
proof (cases "channel_event spec")
  case None
  then show ?thesis
    by (cases "channel_streams spec")
      (auto simp: validate_stream_relations_def)
next
  case (Some a)
  have stream: "never_panics (check_stream spec rs (rv_name ` set (request_variants (channel_request spec)))
      (evt_name ` set (event_variants a)) s)"
    if "check_each (check_belongs ns) (event_variants a) = (Inr () :: (unit, syn_error) exec)" for rs s ns
    using check_stream_never_panics [of spec rs s] assms check_each_belongs [OF that]
    by (simp add: Some names_wf_def)
  have "never_panics (check_belongs ns v)" for ns v
    by (auto simp: check_belongs_def split: option.splits)
  then show ?thesis
    by (auto simp: validate_stream_relations_def Some Let_def check_not_orphaned_def
        intro!: never_panics_and_then check_each_never_panics stream)
qed

lemma validate_never_panics: "never_panics (validate spec)"
  by (auto simp: validate_def validate_uniqueness_Ok_iff intro!: never_panics_and_then
      validate_observable_never_panics validate_uniqueness_never_panics validate_streams_never_panics)

subsection \<open>Properties\<close>

text \<open>
  C8.  The macro's validation accepts a channel declaration exactly when it is well formed:
  variant names unique per block, streams and events declared together, every \<^verbatim>\<open>opens\<close>,
  \<^verbatim>\<open>belongs\<close>, \<^verbatim>\<open>opened\<close>, \<^verbatim>\<open>event\<close> and \<^verbatim>\<open>close\<close> reference resolved with matching stream and
  token type, every stream opened by an operation, and no name of the injected observer surface
  taken; on any declaration at all, none of its \<^verbatim>\<open>expect\<close> calls fails.
\<close>

theorem validate_exact:
  "(validate spec = Ok () \<longleftrightarrow> observable_wf spec \<and> names_wf spec \<and> streams_wf spec)
   \<and> never_panics (validate spec)"
  by (simp add: validate_Ok_iff channel_wf_def validate_never_panics)

text \<open>
  A duplicated variant is refused with its name: the error of the request block points at the
  first name that occurs before, whatever follows.
\<close>

theorem duplicate_variant_reported:
  "unique_names block {} (names @ name # rest) =
     (if distinct names
      then if name \<in> set names
        then Err (Failed (new_spanned name
          (''duplicate variant name '' @ quoted name @ '' in '' @ block @ '' block'')))
        else unique_names block (set (names @ [name])) rest
      else unique_names block {} names)"
proof -
  have "unique_names block seen (names @ name # rest) =
     (if distinct names \<and> set names \<inter> seen = {}
      then if name \<in> set names \<union> seen
        then refuse name (''duplicate variant name '' @ quoted name @ '' in '' @ block @ '' block'')
        else unique_names block (seen \<union> set (names @ [name])) rest
      else unique_names block seen names)" for seen
    by (induction names arbitrary: seen) (auto simp: insert_commute)
  from this [of "{}"] show ?thesis by (simp add: refuse_def)
qed

end
