(* ===== verification/Channel_Emit.thy ===== *)
theory Channel_Emit
  imports Channel_Validate
begin

text \<open>
  \<^verbatim>\<open>macros/src/emit.rs\<close>: the channel augmented with the observer surface, and what is emitted for
  it.  The token stream of an emitted item is the record of what the macro computes into it: the
  variants of the enums, the arms of the generated matches in their order, the frame aliases and
  the codec tables.  The \<^verbatim>\<open>expect\<close> calls of the emitter are outcomes \<open>Panicked\<close>.  What the emitted
  matches do is in \<^verbatim>\<open>Channel_Runtime\<close>.
\<close>

subsection \<open>Augmentation\<close>

definition filter_ident_for :: "channel_spec \<Rightarrow> observable_block_spec \<Rightarrow> ident" where
  "filter_ident_for spec observable =
     (case obs_filter observable of FilterNamed ident \<Rightarrow> ident | FilterDefault \<Rightarrow> ''ObserverFilter'')"

definition clone_request_variants :: "request_variant_spec list \<Rightarrow> request_variant_spec list" where
  "clone_request_variants vs =
     map (\<lambda>v. \<lparr>rv_name = rv_name v, rv_payload = rv_payload v, rv_opens = rv_opens v\<rparr>) vs"

definition clone_reply_variants :: "reply_variant_spec list \<Rightarrow> reply_variant_spec list" where
  "clone_reply_variants vs = map (\<lambda>v. \<lparr>yv_name = yv_name v, yv_payload = yv_payload v\<rparr>) vs"

definition clone_event_variants :: "event_variant_spec list \<Rightarrow> event_variant_spec list" where
  "clone_event_variants vs =
     map (\<lambda>v. \<lparr>evt_name = evt_name v, evt_payload = evt_payload v, evt_belongs = evt_belongs v\<rparr>) vs"

definition clone_streams :: "stream_block_spec list \<Rightarrow> stream_block_spec list" where
  "clone_streams ss =
     map (\<lambda>s. \<lparr>stream_name = stream_name s, stream_token = stream_token s,
       stream_opened = stream_opened s, stream_events = stream_events s,
       stream_close = stream_close s\<rparr>) ss"

lemma clones [simp]:
  "clone_request_variants vs = vs" "clone_reply_variants ws = ws"
  "clone_event_variants es = es" "clone_streams ss = ss"
  unfolding clone_request_variants_def clone_reply_variants_def clone_event_variants_def clone_streams_def
  by (auto intro!: map_idI request_variant_spec.equality reply_variant_spec.equality
      event_variant_spec.equality stream_block_spec.equality)

definition clone_channel_spec :: "channel_spec \<Rightarrow> channel_spec" where
  "clone_channel_spec spec =
     \<lparr>channel_name = channel_name spec,
      channel_contract = channel_contract spec,
      channel_request = \<lparr>request_name = request_name (channel_request spec),
        request_variants = clone_request_variants (request_variants (channel_request spec))\<rparr>,
      channel_reply = \<lparr>reply_name = reply_name (channel_reply spec),
        reply_variants = clone_reply_variants (reply_variants (channel_reply spec))\<rparr>,
      channel_event = map_option (\<lambda>event_block.
        \<lparr>event_name = event_name event_block,
         event_variants = clone_event_variants (event_variants event_block)\<rparr>) (channel_event spec),
      channel_streams = clone_streams (channel_streams spec),
      channel_observable = None\<rparr>"

definition augment_with_observable :: "channel_spec \<Rightarrow> channel_spec" where
  "augment_with_observable spec =
     (case channel_observable spec of
        None \<Rightarrow> clone_channel_spec spec
      | Some observable \<Rightarrow>
          let token_type = ''ObserverSubscriptionToken'';
              opened_type = ''ObserverSubscriptionOpened'';
              observer_stream_name = ''ObserverStream'';
              filter_type = filter_ident_for spec observable;
              open_variant_name = ''Tap'';
              close_variant_name = ''Untap'';
              opened_variant_name = ''ObserverSubscriptionOpened'';
              requests = clone_request_variants (request_variants (channel_request spec))
                @ [\<lparr>rv_name = open_variant_name, rv_payload = filter_type,
                    rv_opens = Some observer_stream_name\<rparr>,
                   \<lparr>rv_name = close_variant_name, rv_payload = token_type, rv_opens = None\<rparr>];
              replies = clone_reply_variants (reply_variants (channel_reply spec))
                @ [\<lparr>yv_name = opened_variant_name, yv_payload = Some opened_type\<rparr>];
              events = clone_event_variants
                  (case channel_event spec of None \<Rightarrow> [] | Some event_block \<Rightarrow> event_variants event_block)
                @ map (\<lambda>event_name. \<lparr>evt_name = event_name, evt_payload = event_name,
                    evt_belongs = Some observer_stream_name\<rparr>) (event_records observable);
              event_block_name =
                (case channel_event spec of None \<Rightarrow> ''Event'' | Some event_block \<Rightarrow> event_name event_block);
              streams = clone_streams (channel_streams spec)
                @ [\<lparr>stream_name = observer_stream_name, stream_token = token_type,
                    stream_opened = opened_variant_name, stream_events = event_records observable,
                    stream_close = close_variant_name\<rparr>]
          in \<lparr>channel_name = channel_name spec,
              channel_contract = channel_contract spec,
              channel_request = \<lparr>request_name = request_name (channel_request spec),
                request_variants = requests\<rparr>,
              channel_reply = \<lparr>reply_name = reply_name (channel_reply spec), reply_variants = replies\<rparr>,
              channel_event = Some \<lparr>event_name = event_block_name, event_variants = events\<rparr>,
              channel_streams = streams,
              channel_observable = None\<rparr>)"

subsection \<open>Emitted items\<close>

text \<open>\<^verbatim>\<open>iter().enumerate()\<close> with the index cast by \<^verbatim>\<open>as u8\<close>, which keeps its low eight bits.\<close>

definition indexed_u8 :: "'a list \<Rightarrow> (u8 \<times> 'a) list" where
  "indexed_u8 xs = map (\<lambda>(i, x). (word_of_nat i, x)) (enumerate 0 xs)"

definition emit_heads :: "request_block_spec \<Rightarrow> ident list" where
  "emit_heads block = map rv_name (request_variants block)"

definition emit_log_variant_arms :: "channel_spec \<Rightarrow> (ident \<times> u8) list" where
  "emit_log_variant_arms spec =
     map (\<lambda>(index, variant). (rv_name variant, index))
       (indexed_u8 (request_variants (channel_request spec)))"

text \<open>The two arms emitted for one operation: \<^verbatim>\<open>(index, 0)\<close> and \<^verbatim>\<open>(index, variant)\<close>.\<close>

datatype route_arm = KindArm u8 ident | UnknownVariantArm u8

definition emit_route_arms :: "request_block_spec \<Rightarrow> route_arm list" where
  "emit_route_arms block =
     concat (map (\<lambda>(index, v). [KindArm index (rv_name v), UnknownVariantArm index])
       (indexed_u8 (request_variants block)))"

record emitted_kind =
  kind_name :: ident
  kind_variants :: "ident list"
  kind_arms :: "(ident \<times> ident) list"

definition emit_request_kind :: "request_block_spec \<Rightarrow> emitted_kind" where
  "emit_request_kind block =
     \<lparr>kind_name = request_name block @ ''Kind'',
      kind_variants = map rv_name (request_variants block),
      kind_arms = map (\<lambda>v. (rv_name v, rv_name v)) (request_variants block)\<rparr>"

definition emit_reply_kind :: "reply_block_spec \<Rightarrow> emitted_kind" where
  "emit_reply_kind block =
     \<lparr>kind_name = reply_name block @ ''Kind'',
      kind_variants = map yv_name (reply_variants block),
      kind_arms = map (\<lambda>v. (yv_name v, yv_name v)) (reply_variants block)\<rparr>"

definition emit_event_kind :: "event_block_spec \<Rightarrow> emitted_kind" where
  "emit_event_kind block =
     \<lparr>kind_name = event_name block @ ''Kind'',
      kind_variants = map evt_name (event_variants block),
      kind_arms = map (\<lambda>v. (evt_name v, evt_name v)) (event_variants block)\<rparr>"

definition emit_opened_arms :: "channel_spec \<Rightarrow> (ident \<times> ident) list" where
  "emit_opened_arms spec =
     List.map_filter (\<lambda>v. map_option (\<lambda>target. (rv_name v, target)) (rv_opens v))
       (request_variants (channel_request spec))"

definition emit_closed_arms :: "channel_spec \<Rightarrow> (ident \<times> ident) list" where
  "emit_closed_arms spec = map (\<lambda>s. (stream_close s, stream_name s)) (channel_streams spec)"

fun emit_event_arms :: "event_variant_spec list \<Rightarrow> ((ident \<times> ident) list, 'e) exec" where
  "emit_event_arms [] = Ok []"
| "emit_event_arms (v # vs) =
     and_then (expect (evt_belongs v)) (\<lambda>belongs.
     and_then (emit_event_arms vs) (\<lambda>arms.
       Ok ((evt_name v, belongs) # arms)))"

record emitted_streams =
  stream_kinds :: "ident list"
  opened_arms :: "(ident \<times> ident) list"
  closed_arms :: "(ident \<times> ident) list"
  event_witness :: "(ident \<times> (ident \<times> ident) list) option"

definition emit_stream_kind_and_witnesses :: "channel_spec \<Rightarrow> (emitted_streams, 'e) exec" where
  "emit_stream_kind_and_witnesses spec =
     and_then
       (case channel_event spec of
          Some event_block \<Rightarrow>
            and_then (emit_event_arms (event_variants event_block)) (\<lambda>arms.
              Ok (Some (event_name event_block, arms)))
        | None \<Rightarrow> Ok None)
       (\<lambda>witness.
         Ok \<lparr>stream_kinds = map stream_name (channel_streams spec),
             opened_arms = emit_opened_arms spec,
             closed_arms = emit_closed_arms spec,
             event_witness = witness\<rparr>)"

datatype frame_alias =
    StreamingAlias syn_type ident ident ident
  | ExchangeAlias syn_type ident ident

definition emit_frame_aliases :: "channel_spec \<Rightarrow> (frame_alias, 'e) exec" where
  "emit_frame_aliases spec =
     (if is_streaming spec
      then and_then (expect (channel_event spec)) (\<lambda>event_block.
        Ok (StreamingAlias (channel_contract spec) (request_name (channel_request spec))
              (reply_name (channel_reply spec)) (event_name event_block)))
      else Ok (ExchangeAlias (channel_contract spec) (request_name (channel_request spec))
              (reply_name (channel_reply spec))))"

text \<open>The codec of one enum: the arms of \<^verbatim>\<open>to_dotos\<close>, and of \<^verbatim>\<open>from_dotos_block\<close> for variants with
  and without a payload.\<close>

record emitted_codec =
  codec_enum :: string
  encode_arms :: "(ident \<times> syn_type option) list"
  decode_payload_arms :: "(ident \<times> syn_type) list"
  decode_unit_arms :: "ident list"

definition emit_payload_enum_codec :: "ident \<Rightarrow> (ident \<times> syn_type option) list \<Rightarrow> emitted_codec" where
  "emit_payload_enum_codec name kinds =
     \<lparr>codec_enum = name,
      encode_arms = kinds,
      decode_payload_arms =
        List.map_filter (\<lambda>(variant, payload). map_option (\<lambda>ty. (variant, ty)) payload) kinds,
      decode_unit_arms =
        List.map_filter (\<lambda>(variant, payload). if payload = None then Some variant else None) kinds\<rparr>"

definition payload_kinds :: "request_block_spec \<Rightarrow> (ident \<times> syn_type option) list" where
  "payload_kinds block = map (\<lambda>v. (rv_name v, Some (rv_payload v))) (request_variants block)"

definition payload_kinds_reply :: "reply_block_spec \<Rightarrow> (ident \<times> syn_type option) list" where
  "payload_kinds_reply block = map (\<lambda>v. (yv_name v, yv_payload v)) (reply_variants block)"

definition payload_kinds_event :: "event_block_spec \<Rightarrow> (ident \<times> syn_type option) list" where
  "payload_kinds_event block = map (\<lambda>v. (evt_name v, Some (evt_payload v))) (event_variants block)"

record emitted_observable =
  runtime_filter :: ident
  runtime_default_filter :: bool
  runtime_operation_event :: ident
  runtime_effect_event :: ident
  runtime_operation_enum :: ident

definition emit_observable_runtime :: "channel_spec \<Rightarrow> observable_block_spec \<Rightarrow> emitted_observable" where
  "emit_observable_runtime augmented observable =
     \<lparr>runtime_filter = filter_ident_for augmented observable,
      runtime_default_filter = (obs_filter observable = FilterDefault),
      runtime_operation_event = obs_operation_event observable,
      runtime_effect_event = obs_effect_event observable,
      runtime_operation_enum = request_name (channel_request augmented)\<rparr>"

record emitted_channel =
  em_request_enum :: "(ident \<times> syn_type) list"
  em_reply_enum :: "(ident \<times> syn_type option) list"
  em_event_enum :: "(ident \<times> syn_type) list option"
  em_heads :: "ident list"
  em_log_variant_arms :: "(ident \<times> u8) list"
  em_request_kind :: emitted_kind
  em_route_arms :: "route_arm list"
  em_reply_kind :: emitted_kind
  em_event_kind :: "emitted_kind option"
  em_streams :: "emitted_streams option"
  em_frame :: frame_alias
  em_request_codec :: emitted_codec
  em_reply_codec :: emitted_codec
  em_event_codec :: "emitted_codec option"
  em_observable :: "emitted_observable option"

definition emit_request_enum :: "request_block_spec \<Rightarrow> (ident \<times> syn_type) list" where
  "emit_request_enum block = map (\<lambda>v. (rv_name v, rv_payload v)) (request_variants block)"

definition emit_reply_enum :: "reply_block_spec \<Rightarrow> (ident \<times> syn_type option) list" where
  "emit_reply_enum block = map (\<lambda>v. (yv_name v, yv_payload v)) (reply_variants block)"

definition emit_event_enum :: "event_block_spec \<Rightarrow> (ident \<times> syn_type) list" where
  "emit_event_enum block = map (\<lambda>v. (evt_name v, evt_payload v)) (event_variants block)"

definition emit :: "channel_spec \<Rightarrow> (emitted_channel, 'e) exec" where
  "emit spec =
     (let augmented = augment_with_observable spec in
      and_then (if is_streaming augmented
                then and_then (emit_stream_kind_and_witnesses augmented) (\<lambda>s. Ok (Some s))
                else Ok None) (\<lambda>streams.
      and_then (emit_frame_aliases augmented) (\<lambda>alias.
        Ok \<lparr>em_request_enum = emit_request_enum (channel_request augmented),
            em_reply_enum = emit_reply_enum (channel_reply augmented),
            em_event_enum = map_option emit_event_enum (channel_event augmented),
            em_heads = emit_heads (channel_request augmented),
            em_log_variant_arms = emit_log_variant_arms augmented,
            em_request_kind = emit_request_kind (channel_request augmented),
            em_route_arms = emit_route_arms (channel_request augmented),
            em_reply_kind = emit_reply_kind (channel_reply augmented),
            em_event_kind = map_option emit_event_kind (channel_event augmented),
            em_streams = streams,
            em_frame = alias,
            em_request_codec = emit_payload_enum_codec (request_name (channel_request augmented))
              (payload_kinds (channel_request augmented)),
            em_reply_codec = emit_payload_enum_codec (reply_name (channel_reply augmented))
              (payload_kinds_reply (channel_reply augmented)),
            em_event_codec = map_option (\<lambda>event.
              emit_payload_enum_codec (event_name event) (payload_kinds_event event))
                (channel_event augmented),
            em_observable = map_option (emit_observable_runtime augmented) (channel_observable spec)\<rparr>)))"

subsection \<open>The augmented channel\<close>

lemma augment_unobserved:
  "channel_observable spec = None \<Longrightarrow> augment_with_observable spec = spec"
  by (cases "channel_event spec")
    (simp_all add: augment_with_observable_def clone_channel_spec_def)

lemma augment_observed:
  assumes "channel_observable spec = Some ob"
  shows "request_variants (channel_request (augment_with_observable spec)) =
      request_variants (channel_request spec)
      @ [\<lparr>rv_name = ''Tap'', rv_payload = filter_ident_for spec ob, rv_opens = Some ''ObserverStream''\<rparr>,
         \<lparr>rv_name = ''Untap'', rv_payload = ''ObserverSubscriptionToken'', rv_opens = None\<rparr>]"
    and "reply_variants (channel_reply (augment_with_observable spec)) =
      reply_variants (channel_reply spec)
      @ [\<lparr>yv_name = ''ObserverSubscriptionOpened'', yv_payload = Some ''ObserverSubscriptionOpened''\<rparr>]"
    and "declared_events (augment_with_observable spec) =
      declared_events spec
      @ map (\<lambda>e. \<lparr>evt_name = e, evt_payload = e, evt_belongs = Some ''ObserverStream''\<rparr>) (event_records ob)"
    and "channel_streams (augment_with_observable spec) =
      channel_streams spec
      @ [\<lparr>stream_name = ''ObserverStream'', stream_token = ''ObserverSubscriptionToken'',
          stream_opened = ''ObserverSubscriptionOpened'', stream_events = event_records ob,
          stream_close = ''Untap''\<rparr>]"
    and "channel_event (augment_with_observable spec) \<noteq> None"
    and "channel_observable (augment_with_observable spec) = None"
    and "request_name (channel_request (augment_with_observable spec)) = request_name (channel_request spec)"
  by (simp_all add: augment_with_observable_def assms Let_def declared_events_def)

lemma augment_observable_None [simp]: "channel_observable (augment_with_observable spec) = None"
  by (cases "channel_observable spec") (simp_all add: augment_unobserved augment_observed)

lemma stream_wf_extend:
  assumes "stream_wf spec s"
    and "set (reply_variants (channel_reply spec)) \<subseteq> set (reply_variants (channel_reply spec'))"
    and "set (declared_events spec) \<subseteq> set (declared_events spec')"
    and "set (request_variants (channel_request spec)) \<subseteq> set (request_variants (channel_request spec'))"
  shows "stream_wf spec' s"
  using assms unfolding stream_wf_def by (meson image_mono subset_iff)

lemma augment_names_wf:
  assumes ob: "channel_observable spec = Some ob" and wf: "observable_wf spec" "names_wf spec"
  shows "names_wf (augment_with_observable spec)"
proof -
  from wf(1) ob have new: "distinct (event_records ob)"
    "\<forall>v \<in> set (request_variants (channel_request spec)). rv_name v \<notin> {''Tap'', ''Untap''}"
    "\<forall>v \<in> set (reply_variants (channel_reply spec)). yv_name v \<noteq> ''ObserverSubscriptionOpened''"
    "\<forall>v \<in> set (declared_events spec). evt_name v \<notin> set (event_records ob)"
    by (auto simp: observable_wf_def)
  with wf(2) show ?thesis
    by (auto simp: names_wf_def augment_observed [OF ob] comp_def)
qed

lemma augment_streams_wf:
  assumes ob: "channel_observable spec = Some ob" and wf: "streams_wf spec"
  shows "streams_wf (augment_with_observable spec)"
proof -
  let ?aug = "augment_with_observable spec"
  let ?obs = "\<lparr>stream_name = ''ObserverStream'', stream_token = ''ObserverSubscriptionToken'',
      stream_opened = ''ObserverSubscriptionOpened'', stream_events = event_records ob,
      stream_close = ''Untap''\<rparr>"
  have old: "stream_wf ?aug s" if "s \<in> set (channel_streams spec)" for s
    by (rule stream_wf_extend [of spec]) (use wf that in \<open>auto simp: streams_wf_def augment_observed [OF ob]\<close>)
  have new: "stream_wf ?aug ?obs"
    by (auto simp: stream_wf_def augment_observed [OF ob] bex_Un)
  show ?thesis
    unfolding streams_wf_def
  proof (intro conjI ballI allI impI)
    show "(channel_streams ?aug = []) = (channel_event ?aug = None)"
      by (simp add: augment_observed [OF ob])
    show "target \<in> stream_name ` set (channel_streams ?aug)"
      if "v \<in> set (request_variants (channel_request ?aug))" "rv_opens v = Some target" for v target
      using that wf by (auto simp: augment_observed [OF ob] streams_wf_def)
    show "\<exists>v \<in> set (request_variants (channel_request ?aug)). rv_opens v = Some (stream_name s)"
      if "s \<in> set (channel_streams ?aug)" for s
      using that wf by (auto simp: augment_observed [OF ob] streams_wf_def)
    show "\<exists>s \<in> set (channel_streams ?aug). evt_belongs v = Some (stream_name s)"
      if "v \<in> set (declared_events ?aug)" for v
      using that wf by (auto simp: augment_observed [OF ob] streams_wf_def)
    show "stream_wf ?aug s" if "s \<in> set (channel_streams ?aug)" for s
      using that old new by (auto simp: augment_observed [OF ob])
  qed
qed

lemma augment_channel_wf: "channel_wf spec \<Longrightarrow> channel_wf (augment_with_observable spec)"
proof (cases "channel_observable spec")
  case None
  then show "channel_wf spec \<Longrightarrow> ?thesis" by (simp add: augment_unobserved)
next
  case (Some ob)
  show "channel_wf spec \<Longrightarrow> ?thesis"
    using augment_names_wf [OF Some] augment_streams_wf [OF Some]
    by (auto simp: channel_wf_def observable_wf_def)
qed

subsection \<open>Emission\<close>

lemma emit_event_arms_Ok:
  "\<forall>v \<in> set vs. evt_belongs v \<noteq> None \<Longrightarrow>
     emit_event_arms vs = Ok (map (\<lambda>v. (evt_name v, the (evt_belongs v))) vs)"
  by (induction vs) auto

lemma streams_wf_belongs:
  "streams_wf spec \<Longrightarrow> v \<in> set (declared_events spec) \<Longrightarrow> evt_belongs v \<noteq> None"
  by (auto simp: streams_wf_def)

lemma is_streaming_augmented:
  "streams_wf spec \<Longrightarrow> channel_observable spec = None \<Longrightarrow>
     is_streaming spec \<longleftrightarrow> channel_event spec \<noteq> None"
  by (auto simp: is_streaming_def streams_wf_def)

lemma emit_streams_Ok:
  assumes "streams_wf spec"
  shows "\<exists>s. emit_stream_kind_and_witnesses spec = Ok s"
proof (cases "channel_event spec")
  case (Some b)
  then have "\<forall>v \<in> set (event_variants b). evt_belongs v \<noteq> None"
    using streams_wf_belongs [OF assms] by auto
  then show ?thesis
    by (simp add: emit_stream_kind_and_witnesses_def Some emit_event_arms_Ok)
qed (simp add: emit_stream_kind_and_witnesses_def)

lemma emit_aliases_Ok:
  "streams_wf spec \<Longrightarrow> channel_observable spec = None \<Longrightarrow>
     emit_frame_aliases spec = Ok (case channel_event spec of
       Some b \<Rightarrow> StreamingAlias (channel_contract spec) (request_name (channel_request spec))
          (reply_name (channel_reply spec)) (event_name b)
     | None \<Rightarrow> ExchangeAlias (channel_contract spec) (request_name (channel_request spec))
          (reply_name (channel_reply spec)))"
  by (auto simp: emit_frame_aliases_def is_streaming_augmented split: option.splits)

lemma emit_wf_Ok:
  assumes "channel_wf spec"
  shows "\<exists>e. emit spec = Ok e"
proof -
  have wf: "streams_wf (augment_with_observable spec)"
    using augment_channel_wf [OF assms] by (simp add: channel_wf_def)
  obtain s where "emit_stream_kind_and_witnesses (augment_with_observable spec) = (Ok s :: (_, 'a) exec)"
    using emit_streams_Ok [OF wf] by blast
  then show ?thesis
    by (simp add: emit_def Let_def emit_aliases_Ok [OF wf])
qed

text \<open>The alias is an exchange frame exactly when nothing is published.\<close>

lemma emitted_frame_kind:
  assumes "channel_wf spec" "emit spec = (Ok e :: (emitted_channel, syn_error) exec)"
  shows "(\<exists>contract request reply. em_frame e = ExchangeAlias contract request reply)
    \<longleftrightarrow> channel_event spec = None \<and> channel_observable spec = None"
proof -
  have streams: "streams_wf (augment_with_observable spec)"
    using augment_channel_wf [OF assms(1)] by (simp add: channel_wf_def)
  have "emit_frame_aliases (augment_with_observable spec) = (Ok (em_frame e) :: (_, syn_error) exec)"
    using assms(2) by (auto simp: emit_def Let_def and_then_Inr_iff)
  then have "(\<exists>contract request reply. em_frame e = ExchangeAlias contract request reply)
      \<longleftrightarrow> channel_event (augment_with_observable spec) = None"
    by (auto simp: emit_aliases_Ok [OF streams] eq_commute [of _ "em_frame e"] split: option.splits)
  then show ?thesis
    by (cases "channel_observable spec") (simp_all add: augment_unobserved augment_observed)
qed

subsection \<open>Properties\<close>

text \<open>
  C9.  Injecting the observer surface into a validated channel gives a channel that is itself
  valid, and emitting a validated channel never reaches the emitter's \<^verbatim>\<open>expect\<close> calls: code is
  produced, for a streaming frame exactly when the channel declares events, streams or an
  observable block.
\<close>

theorem augmentation_preserves_validity:
  assumes "validate spec = Ok ()"
  shows "validate (augment_with_observable spec) = Ok ()
    \<and> (\<exists>e. emit spec = (Ok e :: (emitted_channel, syn_error) exec)
         \<and> em_frame e = (case channel_event (augment_with_observable spec) of
             Some b \<Rightarrow> StreamingAlias (channel_contract (augment_with_observable spec))
               (request_name (channel_request (augment_with_observable spec)))
               (reply_name (channel_reply (augment_with_observable spec))) (event_name b)
           | None \<Rightarrow> ExchangeAlias (channel_contract (augment_with_observable spec))
               (request_name (channel_request (augment_with_observable spec)))
               (reply_name (channel_reply (augment_with_observable spec))))
         \<and> (em_streams e \<noteq> None) = is_streaming spec)"
proof -
  have wf: "channel_wf spec" using assms by (simp add: validate_Ok_iff)
  have wf': "channel_wf (augment_with_observable spec)" by (rule augment_channel_wf [OF wf])
  then have streams: "streams_wf (augment_with_observable spec)" by (simp add: channel_wf_def)
  have "is_streaming (augment_with_observable spec) = is_streaming spec"
    by (cases "channel_observable spec") (auto simp: augment_unobserved is_streaming_def augment_observed)
  moreover obtain s where "emit_stream_kind_and_witnesses (augment_with_observable spec)
      = (Ok s :: (_, syn_error) exec)"
    using emit_streams_Ok [OF streams] by blast
  ultimately show ?thesis
    using wf' by (auto simp: emit_def Let_def emit_aliases_Ok [OF streams] validate_Ok_iff)
qed

text \<open>A channel with an observable block, for the witnesses.\<close>

definition ledger_channel :: channel_spec where
  "ledger_channel =
     \<lparr>channel_name = ''Ledger'', channel_contract = ''crate :: LedgerContract'',
      channel_request = \<lparr>request_name = ''Operation'', request_variants =
        [\<lparr>rv_name = ''Deposit'', rv_payload = ''Deposit'', rv_opens = None\<rparr>,
         \<lparr>rv_name = ''Balance'', rv_payload = ''Account'', rv_opens = None\<rparr>]\<rparr>,
      channel_reply = \<lparr>reply_name = ''Reply'', reply_variants =
        [\<lparr>yv_name = ''Deposited'', yv_payload = Some ''Receipt''\<rparr>,
         \<lparr>yv_name = ''Refused'', yv_payload = None\<rparr>]\<rparr>,
      channel_event = None,
      channel_streams = [],
      channel_observable = Some \<lparr>obs_filter = FilterDefault,
        obs_operation_event = ''OperationReceived'', obs_effect_event = ''EffectEmitted''\<rparr>\<rparr>"

lemma ledger_channel_valid: "validate ledger_channel = Ok ()"
  by (simp add: validate_Ok_iff channel_wf_def observable_wf_def names_wf_def streams_wf_def
      ledger_channel_def event_records_def declared_events_def)

theorem augmentation_preserves_validity_witness:
  "validate (augment_with_observable ledger_channel) = Ok ()
    \<and> (\<exists>e. emit ledger_channel = (Ok e :: (emitted_channel, syn_error) exec))"
  using augmentation_preserves_validity [OF ledger_channel_valid] by blast

end
