(* ===== verification/Channel_Parse.thy ===== *)
theory Channel_Parse
  imports Channel_Emit Dotos_Text
begin

text \<open>
  \<^verbatim>\<open>macros/src/parse.rs\<close> and \<^verbatim>\<open>macros/src/lib.rs\<close>: the grammar of \<^verbatim>\<open>signal_channel!\<close> and the
  expansion that parses, validates and emits.  The \<^verbatim>\<open>syn\<close> crate's parse stream is an argument, a
  record of its operations on streams \<open>'s\<close>; the two laws name what is relied on: every token that
  is parsed is consumed, and the tokens of a stream are read in order.  The theorems show that the
  expansion returns on every input, and that the parser inverts the printing of a declaration.
\<close>

subsection \<open>The parse stream\<close>

record 's syn_stream =
  sy_ident :: "'s \<Rightarrow> (ident \<times> 's, syn_error) result"
  sy_type :: "'s \<Rightarrow> (syn_type \<times> 's, syn_error) result"
  sy_keyword :: "string \<Rightarrow> 's \<Rightarrow> ('s, syn_error) result"
  sy_punct :: "char \<Rightarrow> 's \<Rightarrow> ('s, syn_error) result"
  sy_braced :: "'s \<Rightarrow> ('s \<times> 's, syn_error) result"
  sy_parenthesized :: "'s \<Rightarrow> ('s \<times> 's, syn_error) result"
  sy_peek_keyword :: "string \<Rightarrow> 's \<Rightarrow> bool"
  sy_peek_paren :: "'s \<Rightarrow> bool"
  sy_is_empty :: "'s \<Rightarrow> bool"
  sy_error :: "'s \<Rightarrow> string \<Rightarrow> syn_error"
  sy_lookahead_error :: "string list \<Rightarrow> 's \<Rightarrow> syn_error"
  sy_check_unexpected :: "'s list \<Rightarrow> (unit, syn_error) result"

text \<open>
  A parser consumes a stream; it also gives the streams of the delimited groups it has closed, in
  the order they are dropped, because \<^verbatim>\<open>syn\<close> reports the tokens left in them when the whole parse
  has ended.  \<^const>\<open>None\<close> is a loop that does not end.
\<close>

type_synonym ('s, 'a) parser = "'s \<Rightarrow> ('a \<times> 's \<times> 's list, syn_error) result option"

definition parsed :: "'a \<Rightarrow> ('s, 'a) parser" where
  "parsed a s = Some (Ok (a, s, []))"

definition parse_error :: "syn_error \<Rightarrow> ('s, 'a) parser" where
  "parse_error e s = Some (Err e)"

definition parse_then :: "('s, 'a) parser \<Rightarrow> ('a \<Rightarrow> ('s, 'b) parser) \<Rightarrow> ('s, 'b) parser" where
  "parse_then p f s =
     Option.bind (p s) (\<lambda>r. case r of
         Err e \<Rightarrow> Some (Err e)
       | Ok (a, s1, dropped1) \<Rightarrow>
           Option.bind (f a s1) (\<lambda>r'. case r' of
               Err e \<Rightarrow> Some (Err e)
             | Ok (b, s2, dropped2) \<Rightarrow> Some (Ok (b, s2, dropped1 @ dropped2))))"

text \<open>One token, or one \<^verbatim>\<open>syn\<close> item.\<close>

definition parse_item :: "('s \<Rightarrow> ('a \<times> 's, syn_error) result) \<Rightarrow> ('s, 'a) parser" where
  "parse_item p s = Some (and_then (p s) (\<lambda>(a, rest). Ok (a, rest, [])))"

definition parse_token :: "('s \<Rightarrow> ('s, syn_error) result) \<Rightarrow> ('s, unit) parser" where
  "parse_token p s = Some (and_then (p s) (\<lambda>rest. Ok ((), rest, [])))"

text \<open>\<^verbatim>\<open>braced!\<close> and \<^verbatim>\<open>parenthesized!\<close>: parse inside the group, then drop what is left of it.\<close>

definition parse_inside ::
  "('s \<Rightarrow> ('s \<times> 's, syn_error) result) \<Rightarrow> ('s, 'a) parser \<Rightarrow> ('s, 'a) parser" where
  "parse_inside open_group p s =
     (case open_group s of
        Err e \<Rightarrow> Some (Err e)
      | Ok (body, rest) \<Rightarrow>
          Option.bind (p body) (\<lambda>r. case r of
              Err e \<Rightarrow> Some (Err e)
            | Ok (a, left, dropped) \<Rightarrow> Some (Ok (a, rest, dropped @ [left]))))"

lemma parse_then_mono [partial_function_mono]:
  fixes p :: "('f \<Rightarrow> 'c option) \<Rightarrow> ('s, 'a) parser" and g :: "('f \<Rightarrow> 'c option) \<Rightarrow> 'a \<Rightarrow> ('s, 'b) parser"
  assumes "mono_option (\<lambda>f. p f s)" and "\<And>a s. mono_option (\<lambda>f. g f a s)"
  shows "mono_option (\<lambda>f. parse_then (p f) (g f) s)"
  unfolding parse_then_def
proof (intro bind_mono assms(1))
  fix r :: "('a \<times> 's \<times> 's list, syn_error) result"
  show "mono_option (\<lambda>f. case r of Err e \<Rightarrow> Some (Err e)
      | Ok (a, s1, dropped1) \<Rightarrow> Option.bind (g f a s1) (\<lambda>r'. case r' of
            Err e \<Rightarrow> Some (Err e)
          | Ok (b, s2, dropped2) \<Rightarrow> Some (Ok (b, s2, dropped1 @ dropped2))))"
  proof (cases r)
    case (Inr t)
    then show ?thesis
      by (cases t) (auto intro!: bind_mono assms(2) option.const_mono)
  qed (simp add: option.const_mono)
qed

subsection \<open>The grammar\<close>

text \<open>The loop over the comma-separated variants of a block, to the end of its braces.\<close>

partial_function (option) parse_variants ::
  "'s syn_stream \<Rightarrow> ('s, 'v) parser \<Rightarrow> 's \<Rightarrow> ('v list \<times> 's \<times> 's list, syn_error) result option" where
  "parse_variants y variant body =
     (if sy_is_empty y body then parsed [] body
      else parse_then variant (\<lambda>v.
        parse_then (\<lambda>s. if sy_is_empty y s then parsed () s else parse_token (sy_punct y CHR '','') s) (\<lambda>_.
        parse_then (\<lambda>s. parse_variants y variant s) (\<lambda>vs.
          parsed (v # vs)))) body)"

definition parse_opt_keyword_ident :: "'s syn_stream \<Rightarrow> string \<Rightarrow> ('s, ident option) parser" where
  "parse_opt_keyword_ident y k s =
     (if sy_peek_keyword y k s
      then parse_then (parse_token (sy_keyword y k)) (\<lambda>_.
        parse_then (parse_item (sy_ident y)) (\<lambda>name. parsed (Some name))) s
      else parsed None s)"

definition parse_request_variant :: "'s syn_stream \<Rightarrow> ('s, request_variant_spec) parser" where
  "parse_request_variant y =
     parse_then (parse_token (sy_keyword y ''operation'')) (\<lambda>_.
     parse_then (parse_item (sy_ident y)) (\<lambda>variant_name.
     parse_then (parse_inside (sy_parenthesized y) (parse_item (sy_type y))) (\<lambda>payload_type.
     parse_then (parse_opt_keyword_ident y ''opens'') (\<lambda>target.
       parsed \<lparr>rv_name = variant_name, rv_payload = payload_type, rv_opens = target\<rparr>))))"

text \<open>The parser of a named operation block, which the crate declares and does not call.\<close>

definition parse_request_block :: "'s syn_stream \<Rightarrow> ('s, request_block_spec) parser" where
  "parse_request_block y =
     parse_then (parse_item (sy_ident y)) (\<lambda>name.
     parse_then (parse_inside (sy_braced y) (parse_variants y (parse_request_variant y))) (\<lambda>variants.
       parsed \<lparr>request_name = name, request_variants = variants\<rparr>))"

definition parse_reply_variant :: "'s syn_stream \<Rightarrow> ('s, reply_variant_spec) parser" where
  "parse_reply_variant y =
     parse_then (parse_item (sy_ident y)) (\<lambda>variant_name.
     parse_then (\<lambda>s. if sy_peek_paren y s
         then parse_then (parse_inside (sy_parenthesized y) (parse_item (sy_type y)))
           (\<lambda>payload. parsed (Some payload)) s
         else parsed None s) (\<lambda>payload_type.
       parsed \<lparr>yv_name = variant_name, yv_payload = payload_type\<rparr>))"

definition parse_event_variant :: "'s syn_stream \<Rightarrow> ('s, event_variant_spec) parser" where
  "parse_event_variant y =
     parse_then (parse_item (sy_ident y)) (\<lambda>variant_name.
     parse_then (parse_inside (sy_parenthesized y) (parse_item (sy_type y))) (\<lambda>payload_type.
     parse_then (parse_opt_keyword_ident y ''belongs'') (\<lambda>target.
       parsed \<lparr>evt_name = variant_name, evt_payload = payload_type, evt_belongs = target\<rparr>)))"

definition parse_reply_block :: "'s syn_stream \<Rightarrow> ('s, reply_block_spec) parser" where
  "parse_reply_block y =
     parse_then (parse_token (sy_keyword y ''reply'')) (\<lambda>_.
     parse_then (parse_item (sy_ident y)) (\<lambda>name.
     parse_then (parse_inside (sy_braced y) (parse_variants y (parse_reply_variant y))) (\<lambda>variants.
       parsed \<lparr>reply_name = name, reply_variants = variants\<rparr>)))"

definition parse_event_block :: "'s syn_stream \<Rightarrow> ('s, event_block_spec) parser" where
  "parse_event_block y =
     parse_then (parse_token (sy_keyword y ''event'')) (\<lambda>_.
     parse_then (parse_item (sy_ident y)) (\<lambda>name.
     parse_then (parse_inside (sy_braced y) (parse_variants y (parse_event_variant y))) (\<lambda>variants.
       parsed \<lparr>event_name = name, event_variants = variants\<rparr>)))"

text \<open>One slot \<^verbatim>\<open>keyword Name;\<close> of a stream or observable block.\<close>

definition parse_slot :: "'s syn_stream \<Rightarrow> string \<Rightarrow> ('s, ident) parser" where
  "parse_slot y k =
     parse_then (parse_token (sy_keyword y k)) (\<lambda>_.
     parse_then (parse_item (sy_ident y)) (\<lambda>name.
     parse_then (parse_token (sy_punct y CHR '';'')) (\<lambda>_.
       parsed name)))"

text \<open>The loop over the \<^verbatim>\<open>event\<close> slots of a stream block.\<close>

partial_function (option) parse_stream_events ::
  "'s syn_stream \<Rightarrow> 's \<Rightarrow> (ident list \<times> 's \<times> 's list, syn_error) result option" where
  "parse_stream_events y body =
     (if sy_peek_keyword y ''event'' body
      then parse_then (parse_slot y ''event'') (\<lambda>name.
        parse_then (\<lambda>s. parse_stream_events y s) (\<lambda>names.
          parsed (name # names))) body
      else parsed [] body)"

definition parse_stream_body ::
  "'s syn_stream \<Rightarrow> ('s, syn_type \<times> ident \<times> ident list \<times> ident) parser" where
  "parse_stream_body y =
     parse_then (parse_token (sy_keyword y ''token'')) (\<lambda>_.
     parse_then (parse_item (sy_type y)) (\<lambda>token.
     parse_then (parse_token (sy_punct y CHR '';'')) (\<lambda>_.
     parse_then (parse_slot y ''opened'') (\<lambda>opened.
     parse_then (parse_stream_events y) (\<lambda>events.
     parse_then (\<lambda>s. if events = []
         then parse_error (sy_error y s ''stream block requires at least one `event <Variant>;` slot'') s
         else parsed () s) (\<lambda>_.
     parse_then (parse_slot y ''close'') (\<lambda>close.
       parsed (token, opened, events, close))))))))"

definition parse_stream_block :: "'s syn_stream \<Rightarrow> ('s, stream_block_spec) parser" where
  "parse_stream_block y =
     parse_then (parse_token (sy_keyword y ''stream'')) (\<lambda>_.
     parse_then (parse_item (sy_ident y)) (\<lambda>name.
     parse_then (parse_inside (sy_braced y) (parse_stream_body y)) (\<lambda>(token, opened, events, close).
       parsed \<lparr>stream_name = name, stream_token = token, stream_opened = opened,
         stream_events = events, stream_close = close\<rparr>)))"

text \<open>A slot of the observable block, with the diagnostic for its absence at the block's keyword.\<close>

definition parse_required_slot :: "'s syn_stream \<Rightarrow> string \<Rightarrow> string \<Rightarrow> ('s, ident) parser" where
  "parse_required_slot y k message s =
     (if \<not> sy_peek_keyword y k s then parse_error (new_spanned ''observable'' message) s
      else parse_slot y k s)"

definition parse_observable_body ::
  "'s syn_stream \<Rightarrow> ('s, observable_block_spec) parser" where
  "parse_observable_body y =
     parse_then (parse_required_slot y ''filter''
       ''observable block requires `filter <FilterType>;` (or `filter default;` for the macro-generated closed-enum filter) as its first declaration'')
       (\<lambda>filter_token.
     parse_then (parse_required_slot y ''operation_event''
       (''observable block requires `operation_event <Type>;` after the `filter` line '' @ em_dash
         @ '' the event record published before lowering'')) (\<lambda>operation_event.
     parse_then (parse_required_slot y ''effect_event''
       (''observable block requires `effect_event <Type>;` after the `operation_event` line '' @ em_dash
         @ '' the event record published after atomic commit'')) (\<lambda>effect_event.
     parse_then (\<lambda>s. if \<not> sy_is_empty y s
         then parse_error (sy_error y s
           ''observable block accepts exactly three declarations: `filter`, `operation_event`, `effect_event`'') s
         else parsed () s) (\<lambda>_.
       parsed \<lparr>obs_filter = (if filter_token = ''default'' then FilterDefault else FilterNamed filter_token),
         obs_operation_event = operation_event, obs_effect_event = effect_event\<rparr>))))"

definition parse_observable_block :: "'s syn_stream \<Rightarrow> ('s, observable_block_spec) parser" where
  "parse_observable_block y =
     parse_then (parse_token (sy_keyword y ''observable'')) (\<lambda>_.
       parse_inside (sy_braced y) (parse_observable_body y))"

text \<open>The loop over the blocks after the operations, with the four variables it fills.\<close>

record channel_blocks =
  blk_reply :: "reply_block_spec option"
  blk_event :: "event_block_spec option"
  blk_streams :: "stream_block_spec list"
  blk_observable :: "observable_block_spec option"

definition no_blocks :: channel_blocks where
  "no_blocks = \<lparr>blk_reply = None, blk_event = None, blk_streams = [], blk_observable = None\<rparr>"

definition refuse_duplicate ::
  "'s syn_stream \<Rightarrow> bool \<Rightarrow> string \<Rightarrow> ('s, 'a) parser \<Rightarrow> ('s, 'a) parser" where
  "refuse_duplicate y present block p s =
     (if present then parse_error (sy_error y s (''duplicate '' @ quoted block @ '' block'')) s else p s)"

definition parse_block :: "'s syn_stream \<Rightarrow> channel_blocks \<Rightarrow> ('s, channel_blocks) parser" where
  "parse_block y blocks input =
     (if sy_peek_keyword y ''reply'' input
      then refuse_duplicate y (blk_reply blocks \<noteq> None) ''reply''
        (parse_then (parse_reply_block y) (\<lambda>r. parsed (blocks\<lparr>blk_reply := Some r\<rparr>))) input
      else if sy_peek_keyword y ''event'' input
      then refuse_duplicate y (blk_event blocks \<noteq> None) ''event''
        (parse_then (parse_event_block y) (\<lambda>e. parsed (blocks\<lparr>blk_event := Some e\<rparr>))) input
      else if sy_peek_keyword y ''stream'' input
      then parse_then (parse_stream_block y)
        (\<lambda>st. parsed (blocks\<lparr>blk_streams := blk_streams blocks @ [st]\<rparr>)) input
      else if sy_peek_keyword y ''observable'' input
      then refuse_duplicate y (blk_observable blocks \<noteq> None) ''observable''
        (parse_then (parse_observable_block y) (\<lambda>ob. parsed (blocks\<lparr>blk_observable := Some ob\<rparr>))) input
      else parse_error (sy_lookahead_error y [''reply'', ''event'', ''stream'', ''observable''] input) input)"

partial_function (option) parse_blocks ::
  "'s syn_stream \<Rightarrow> channel_blocks \<Rightarrow> 's \<Rightarrow> (channel_blocks \<times> 's \<times> 's list, syn_error) result option" where
  "parse_blocks y blocks input =
     (if sy_is_empty y input then parsed blocks input
      else parse_then (parse_block y blocks) (\<lambda>blocks'.
        (\<lambda>s. parse_blocks y blocks' s)) input)"

definition parse_channel_spec :: "'s syn_stream \<Rightarrow> ('s, channel_spec) parser" where
  "parse_channel_spec y =
     parse_then (parse_token (sy_keyword y ''channel'')) (\<lambda>_.
     parse_then (parse_item (sy_ident y)) (\<lambda>name.
     parse_then (parse_token (sy_keyword y ''contract'')) (\<lambda>_.
     parse_then (parse_item (sy_type y)) (\<lambda>contract.
     parse_then (parse_inside (sy_braced y) (parse_variants y (parse_request_variant y)))
       (\<lambda>requests.
     parse_then (parse_blocks y no_blocks) (\<lambda>blocks s.
       case blk_reply blocks of
         None \<Rightarrow> parse_error (new_spanned name ''channel declaration requires a `reply` block'') s
       | Some reply \<Rightarrow>
           parsed \<lparr>channel_name = name, channel_contract = contract,
             channel_request = \<lparr>request_name = ''Operation'', request_variants = requests\<rparr>,
             channel_reply = reply, channel_event = blk_event blocks,
             channel_streams = blk_streams blocks, channel_observable = blk_observable blocks\<rparr> s))))))"

subsection \<open>The expansion\<close>

text \<open>\<^verbatim>\<open>syn::parse\<close>: the parser, then the check that no group and not the input has tokens left.\<close>

definition syn_parse ::
  "'s syn_stream \<Rightarrow> ('s, 'a) parser \<Rightarrow> 's \<Rightarrow> ('a, syn_error) result option" where
  "syn_parse y p input =
     map_option (\<lambda>r. and_then r (\<lambda>(v, rest, dropped).
       and_then (sy_check_unexpected y (dropped @ [rest])) (\<lambda>_. Ok v))) (p input)"

datatype expansion =
    CompileError syn_error
  | Expanded emitted_channel
  | MacroPanicked

definition expand_signal_channel :: "'s syn_stream \<Rightarrow> 's \<Rightarrow> expansion option" where
  "expand_signal_channel y input =
     (case syn_parse y (parse_channel_spec y) input of
        None \<Rightarrow> None
      | Some (Err error) \<Rightarrow> Some (CompileError error)
      | Some (Ok spec) \<Rightarrow>
          Some (case validate spec of
              Err (Failed error) \<Rightarrow> CompileError error
            | Err Panicked \<Rightarrow> MacroPanicked
            | Ok _ \<Rightarrow>
                (case emit spec of
                   Ok e \<Rightarrow> Expanded e
                 | Err (Failed error) \<Rightarrow> CompileError error
                 | Err Panicked \<Rightarrow> MacroPanicked)))"

subsection \<open>Every parse ends\<close>

text \<open>\<^verbatim>\<open>syn\<close> consumes what it parses: a measure of the tokens left decreases with every token and from
  a group to its contents.\<close>

definition syn_consuming :: "'s syn_stream \<Rightarrow> ('s \<Rightarrow> nat) \<Rightarrow> bool" where
  "syn_consuming y left \<longleftrightarrow>
     (\<forall>s a r. sy_ident y s = Ok (a, r) \<longrightarrow> left r < left s)
     \<and> (\<forall>s a r. sy_type y s = Ok (a, r) \<longrightarrow> left r < left s)
     \<and> (\<forall>k s r. sy_keyword y k s = Ok r \<longrightarrow> left r < left s)
     \<and> (\<forall>c s r. sy_punct y c s = Ok r \<longrightarrow> left r < left s)
     \<and> (\<forall>s b r. sy_braced y s = Ok (b, r) \<longrightarrow> left b < left s \<and> left r < left s)
     \<and> (\<forall>s b r. sy_parenthesized y s = Ok (b, r) \<longrightarrow> left b < left s \<and> left r < left s)"

text \<open>\<open>ends_at left n p s\<close>: the parser returns on \<open>s\<close>, and with fewer than \<open>n\<close> tokens left if it
  succeeds.\<close>

definition ends_at :: "('s \<Rightarrow> nat) \<Rightarrow> nat \<Rightarrow> ('s, 'a) parser \<Rightarrow> 's \<Rightarrow> bool" where
  "ends_at left n p s \<longleftrightarrow> (\<exists>r. p s = Some r \<and> (\<forall>a s' d. r = Ok (a, s', d) \<longrightarrow> left s' < n))"

lemma ends_mono: "ends_at left n p s \<Longrightarrow> n \<le> m \<Longrightarrow> ends_at left m p s"
  by (fastforce simp: ends_at_def)

lemma ends_then:
  assumes "ends_at left n p s" and "\<And>a s'. left s' < n \<Longrightarrow> ends_at left m (f a) s'"
  shows "ends_at left m (parse_then p f) s"
proof -
  obtain r where r: "p s = Some r" "\<forall>a s' d. r = Ok (a, s', d) \<longrightarrow> left s' < n"
    using assms(1) by (auto simp: ends_at_def)
  show ?thesis
  proof (cases r)
    case (Inr t)
    obtain a s' d where t: "t = (a, s', d)" by (cases t)
    then obtain r' where "f a s' = Some r'" "\<forall>b s'' d. r' = Ok (b, s'', d) \<longrightarrow> left s'' < m"
      using assms(2) [of s' a] r(2) Inr by (auto simp: ends_at_def)
    with r(1) Inr t show ?thesis
      by (auto simp: ends_at_def parse_then_def split: sum.splits prod.splits)
  qed (simp add: ends_at_def parse_then_def r(1))
qed

lemma ends_parsed: "left s < n \<Longrightarrow> ends_at left n (parsed a) s"
  by (simp add: ends_at_def parsed_def)

lemma ends_error: "ends_at left n (parse_error e) s" "ends_at left n (\<lambda>s. parse_error (g s) s) s"
  by (simp_all add: ends_at_def parse_error_def)

lemma ends_items:
  assumes "syn_consuming y left"
  shows "ends_at left (left s) (parse_item (sy_ident y)) s"
    and "ends_at left (left s) (parse_item (sy_type y)) s"
    and "ends_at left (left s) (parse_token (sy_keyword y k)) s"
    and "ends_at left (left s) (parse_token (sy_punct y c)) s"
  using assms
  by (auto simp: ends_at_def parse_item_def parse_token_def fault_iffs syn_consuming_def)

lemma ends_if:
  "ends_at left n (\<lambda>s. if c s then p s else q s) s \<longleftrightarrow>
     (if c s then ends_at left n p s else ends_at left n q s)"
  by (simp add: ends_at_def)

lemma ends_group:
  assumes "\<And>b r. open_group s = Ok (b, r) \<Longrightarrow> left b < left s \<and> left r < left s"
    and "\<And>b. left b < left s \<Longrightarrow> ends_at left (left s) p b"
  shows "ends_at left (left s) (parse_inside open_group p) s"
proof (cases "open_group s")
  case (Inr t)
  obtain b r where t: "t = (b, r)" by (cases t)
  with assms Inr have "left r < left s" "ends_at left (left s) p b" by auto
  with Inr t show ?thesis
    by (auto simp: ends_at_def parse_inside_def split: sum.splits prod.splits)
qed (simp add: ends_at_def parse_inside_def)

lemma ends_inside:
  assumes "syn_consuming y left" and "\<And>b. left b < left s \<Longrightarrow> ends_at left (left s) p b"
  shows "ends_at left (left s) (parse_inside (sy_braced y) p) s"
    and "ends_at left (left s) (parse_inside (sy_parenthesized y) p) s"
  by (rule ends_group; use assms in \<open>auto simp: syn_consuming_def\<close>)+

lemma ends_variants:
  assumes "syn_consuming y left" and "\<And>s. ends_at left (left s) variant s"
  shows "left s < n \<Longrightarrow> ends_at left n (parse_variants y variant) s"
proof (induction "left s" arbitrary: s n rule: less_induct)
  case less
  let ?body = "parse_then variant (\<lambda>v.
      parse_then (\<lambda>s. if sy_is_empty y s then parsed () s else parse_token (sy_punct y CHR '','') s) (\<lambda>_.
      parse_then (\<lambda>s. parse_variants y variant s) (\<lambda>vs. parsed (v # vs))))"
  have sep: "ends_at left (Suc (left t))
      (\<lambda>s. if sy_is_empty y s then parsed () s else parse_token (sy_punct y CHR '','') s) t" for t
    by (auto simp: ends_if intro: ends_parsed ends_mono [OF ends_items(4) [OF assms(1)]])
  have "ends_at left n ?body s"
    using less.prems
    by (intro ends_then [OF assms(2)] ends_then [OF sep] ends_then [OF less.hyps] ends_parsed) auto
  then have "ends_at left n (\<lambda>s. if sy_is_empty y s then parsed [] s else ?body s) s"
    using less.prems by (simp add: ends_if ends_parsed)
  then show ?case
    by (simp only: ends_at_def parse_variants.simps [of y variant s])
qed

lemma ends_seq:
  assumes "syn_consuming y left"
  shows "(\<And>a s'. left s' < left s \<Longrightarrow> ends_at left m (f a) s') \<Longrightarrow>
      ends_at left m (parse_then (parse_item (sy_ident y)) f) s"
    and "(\<And>a s'. left s' < left s \<Longrightarrow> ends_at left m (g a) s') \<Longrightarrow>
      ends_at left m (parse_then (parse_item (sy_type y)) g) s"
    and "(\<And>s'. left s' < left s \<Longrightarrow> ends_at left m (h ()) s') \<Longrightarrow>
      ends_at left m (parse_then (parse_token (sy_keyword y k)) h) s"
    and "(\<And>s'. left s' < left s \<Longrightarrow> ends_at left m (h ()) s') \<Longrightarrow>
      ends_at left m (parse_then (parse_token (sy_punct y c)) h) s"
    and "(\<And>b. left b < left s \<Longrightarrow> ends_at left (left s) p b) \<Longrightarrow>
      (\<And>a s'. left s' < left s \<Longrightarrow> ends_at left m (q a) s') \<Longrightarrow>
      ends_at left m (parse_then (parse_inside (sy_parenthesized y) p) q) s"
    and "(\<And>b. left b < left s \<Longrightarrow> ends_at left (left s) p b) \<Longrightarrow>
      (\<And>a s'. left s' < left s \<Longrightarrow> ends_at left m (q a) s') \<Longrightarrow>
      ends_at left m (parse_then (parse_inside (sy_braced y) p) q) s"
  by (rule ends_then [OF ends_items(1) [OF assms]], blast)
    (rule ends_then [OF ends_items(2) [OF assms]], blast,
     rule ends_then [OF ends_items(3) [OF assms]], simp,
     rule ends_then [OF ends_items(4) [OF assms]], simp,
     rule ends_then [OF ends_inside(2) [OF assms]], blast, blast,
     rule ends_then [OF ends_inside(1) [OF assms]], blast, blast)

lemma ends_opt_keyword_ident:
  assumes "syn_consuming y left" "left s < n"
  shows "ends_at left n (parse_opt_keyword_ident y k) s"
proof -
  have "ends_at left n (parse_then (parse_token (sy_keyword y k)) (\<lambda>_.
        parse_then (parse_item (sy_ident y)) (\<lambda>name. parsed (Some name)))) s"
    using assms(2) by (intro ends_seq [OF assms(1)] ends_parsed) auto
  then show ?thesis
    using assms(2) by (simp add: parse_opt_keyword_ident_def [abs_def] ends_if ends_parsed)
qed

lemma ends_type:
  "syn_consuming y left \<Longrightarrow> left b < n \<Longrightarrow> ends_at left n (parse_item (sy_type y)) b"
  by (rule ends_mono [OF ends_items(2)]) auto

lemma ends_request_variant:
  assumes "syn_consuming y left"
  shows "ends_at left (left s) (parse_request_variant y) s"
  unfolding parse_request_variant_def
  by (intro ends_seq [OF assms] ends_type [OF assms] ends_parsed
      ends_then [OF ends_opt_keyword_ident [OF assms lessI]]) auto

lemma ends_event_variant:
  assumes "syn_consuming y left"
  shows "ends_at left (left s) (parse_event_variant y) s"
  unfolding parse_event_variant_def
  by (intro ends_seq [OF assms] ends_type [OF assms] ends_parsed
      ends_then [OF ends_opt_keyword_ident [OF assms lessI]]) auto

lemma ends_reply_variant:
  assumes "syn_consuming y left"
  shows "ends_at left (left s) (parse_reply_variant y) s"
proof -
  have payload: "ends_at left (Suc (left t)) (\<lambda>s. if sy_peek_paren y s
         then parse_then (parse_inside (sy_parenthesized y) (parse_item (sy_type y)))
           (\<lambda>payload. parsed (Some payload)) s
         else parsed None s) t" for t
    by (auto simp: ends_if intro!: ends_parsed ends_seq [OF assms] ends_type [OF assms])
  then show ?thesis
    unfolding parse_reply_variant_def
    by (intro ends_seq [OF assms] ends_then [OF payload] ends_parsed) auto
qed

lemma ends_slot:
  assumes "syn_consuming y left"
  shows "ends_at left (left s) (parse_slot y k) s"
  unfolding parse_slot_def by (intro ends_seq [OF assms] ends_parsed) auto

lemma ends_stream_events:
  assumes "syn_consuming y left"
  shows "left s < n \<Longrightarrow> ends_at left n (parse_stream_events y) s"
proof (induction "left s" arbitrary: s n rule: less_induct)
  case less
  have "ends_at left n (parse_then (parse_slot y ''event'') (\<lambda>name.
      parse_then (\<lambda>s. parse_stream_events y s) (\<lambda>names. parsed (name # names)))) s"
    using less.prems by (intro ends_then [OF ends_slot [OF assms]] ends_then [OF less.hyps] ends_parsed) auto
  then have "ends_at left n (\<lambda>s. if sy_peek_keyword y ''event'' s
      then parse_then (parse_slot y ''event'') (\<lambda>name.
        parse_then (\<lambda>s. parse_stream_events y s) (\<lambda>names. parsed (name # names))) s
      else parsed [] s) s"
    using less.prems by (simp add: ends_if ends_parsed)
  then show ?case
    by (simp only: ends_at_def parse_stream_events.simps [of y s])
qed

lemma ends_reply_block:
  assumes "syn_consuming y left"
  shows "ends_at left (left s) (parse_reply_block y) s"
  unfolding parse_reply_block_def
  by (intro ends_seq [OF assms] ends_variants [OF assms] ends_reply_variant [OF assms] ends_parsed) auto

lemma ends_event_block:
  assumes "syn_consuming y left"
  shows "ends_at left (left s) (parse_event_block y) s"
  unfolding parse_event_block_def
  by (intro ends_seq [OF assms] ends_variants [OF assms] ends_event_variant [OF assms] ends_parsed) auto

lemma ends_guard:
  "left s < n \<Longrightarrow> ends_at left n (\<lambda>s. if c s then parse_error (e s) s else parsed () s) s"
  by (simp add: ends_if ends_error ends_parsed)

lemma ends_stream_block:
  assumes "syn_consuming y left"
  shows "ends_at left (left s) (parse_stream_block y) s"
proof -
  have body: "ends_at left n (parse_stream_body y) b" if "left b < n" for b n
    unfolding parse_stream_body_def using that
    by (intro ends_seq [OF assms] ends_then [OF ends_slot [OF assms]]
        ends_then [OF ends_stream_events [OF assms lessI]] ends_then [OF ends_guard [OF lessI]]
        ends_parsed) auto
  show ?thesis
    unfolding parse_stream_block_def
    by (intro ends_seq [OF assms] body) (auto split: prod.splits intro!: ends_parsed)
qed

lemma ends_required_slot:
  assumes "syn_consuming y left"
  shows "ends_at left (left s) (parse_required_slot y k message) s"
  using ends_slot [OF assms, of s k]
  by (simp add: parse_required_slot_def [abs_def] ends_if ends_error)

lemma ends_observable_block:
  assumes "syn_consuming y left"
  shows "ends_at left (left s) (parse_observable_block y) s"
proof -
  have body: "ends_at left n (parse_observable_body y) b" if "left b < n" for b n
    unfolding parse_observable_body_def using that
    by (intro ends_then [OF ends_required_slot [OF assms]] ends_then [OF ends_guard [OF lessI]]
        ends_parsed) auto
  show ?thesis
    unfolding parse_observable_block_def
    by (intro ends_seq [OF assms] ends_mono [OF ends_inside(1) [OF assms]] body) auto
qed

lemma ends_refuse_duplicate:
  "ends_at left n p s \<Longrightarrow> ends_at left n (refuse_duplicate y present block p) s"
  by (simp add: refuse_duplicate_def [abs_def] ends_at_def parse_error_def)

lemma ends_block:
  assumes "syn_consuming y left"
  shows "ends_at left (left s) (parse_block y blocks) s"
  unfolding parse_block_def [abs_def] ends_if
  by (auto intro!: ends_refuse_duplicate ends_error ends_parsed
      ends_then [OF ends_reply_block [OF assms]] ends_then [OF ends_event_block [OF assms]]
      ends_then [OF ends_stream_block [OF assms]] ends_then [OF ends_observable_block [OF assms]])

lemma ends_blocks:
  assumes "syn_consuming y left"
  shows "left s < n \<Longrightarrow> ends_at left n (parse_blocks y blocks) s"
proof (induction "left s" arbitrary: s n blocks rule: less_induct)
  case less
  have "ends_at left n (parse_then (parse_block y blocks) (\<lambda>blocks' s. parse_blocks y blocks' s)) s"
    using less.prems by (intro ends_then [OF ends_block [OF assms]] less.hyps) auto
  then have "ends_at left n (\<lambda>s. if sy_is_empty y s then parsed blocks s
      else parse_then (parse_block y blocks) (\<lambda>blocks' s. parse_blocks y blocks' s) s) s"
    using less.prems by (simp add: ends_if ends_parsed)
  then show ?case
    by (simp only: ends_at_def parse_blocks.simps [of y blocks s])
qed

lemma ends_channel_spec:
  assumes "syn_consuming y left"
  shows "ends_at left (left s) (parse_channel_spec y) s"
proof -
  have final: "ends_at left n (\<lambda>s. case r of None \<Rightarrow> parse_error e s | Some reply \<Rightarrow> parsed (f reply) s) t"
    if "left t < n" for r :: "'b option" and f :: "'b \<Rightarrow> 'c" and e t n
    using that by (cases r) (simp_all add: ends_at_def parse_error_def parsed_def)
  show ?thesis
    unfolding parse_channel_spec_def
    by (intro ends_seq [OF assms] ends_variants [OF assms] ends_request_variant [OF assms]
        ends_then [OF ends_blocks [OF assms lessI]] final) auto
qed

subsection \<open>Printing a declaration\<close>

datatype token =
    TIdent string
  | TPunct char
  | TBraces "token list"
  | TParens "token list"

fun comma_tokens :: "('v \<Rightarrow> token list) \<Rightarrow> 'v list \<Rightarrow> token list" where
  "comma_tokens f [] = []"
| "comma_tokens f [v] = f v"
| "comma_tokens f (v # w # vs) = f v @ TPunct CHR '','' # comma_tokens f (w # vs)"

definition opt_keyword_tokens :: "string \<Rightarrow> ident option \<Rightarrow> token list" where
  "opt_keyword_tokens k name = (case name of None \<Rightarrow> [] | Some n \<Rightarrow> [TIdent k, TIdent n])"

definition request_variant_tokens :: "(syn_type \<Rightarrow> token list) \<Rightarrow> request_variant_spec \<Rightarrow> token list" where
  "request_variant_tokens ty v =
     [TIdent ''operation'', TIdent (rv_name v), TParens (ty (rv_payload v))]
     @ opt_keyword_tokens ''opens'' (rv_opens v)"

definition reply_variant_tokens :: "(syn_type \<Rightarrow> token list) \<Rightarrow> reply_variant_spec \<Rightarrow> token list" where
  "reply_variant_tokens ty v =
     TIdent (yv_name v) # (case yv_payload v of None \<Rightarrow> [] | Some payload \<Rightarrow> [TParens (ty payload)])"

definition event_variant_tokens :: "(syn_type \<Rightarrow> token list) \<Rightarrow> event_variant_spec \<Rightarrow> token list" where
  "event_variant_tokens ty v =
     [TIdent (evt_name v), TParens (ty (evt_payload v))] @ opt_keyword_tokens ''belongs'' (evt_belongs v)"

definition slot_tokens :: "string \<Rightarrow> ident \<Rightarrow> token list" where
  "slot_tokens k name = [TIdent k, TIdent name, TPunct CHR '';'']"

definition stream_tokens :: "(syn_type \<Rightarrow> token list) \<Rightarrow> stream_block_spec \<Rightarrow> token list" where
  "stream_tokens ty s =
     [TIdent ''stream'', TIdent (stream_name s),
      TBraces (TIdent ''token'' # ty (stream_token s) @ TPunct CHR '';''
        # slot_tokens ''opened'' (stream_opened s)
        @ concat (map (slot_tokens ''event'') (stream_events s))
        @ slot_tokens ''close'' (stream_close s))]"

definition observable_tokens :: "observable_block_spec \<Rightarrow> token list" where
  "observable_tokens ob =
     [TIdent ''observable'',
      TBraces (slot_tokens ''filter''
          (case obs_filter ob of FilterDefault \<Rightarrow> ''default'' | FilterNamed name \<Rightarrow> name)
        @ slot_tokens ''operation_event'' (obs_operation_event ob)
        @ slot_tokens ''effect_event'' (obs_effect_event ob))]"

definition reply_tokens :: "(syn_type \<Rightarrow> token list) \<Rightarrow> reply_block_spec \<Rightarrow> token list" where
  "reply_tokens ty b =
     [TIdent ''reply'', TIdent (reply_name b),
      TBraces (comma_tokens (reply_variant_tokens ty) (reply_variants b))]"

definition event_tokens :: "(syn_type \<Rightarrow> token list) \<Rightarrow> event_block_spec \<Rightarrow> token list" where
  "event_tokens ty b =
     [TIdent ''event'', TIdent (event_name b),
      TBraces (comma_tokens (event_variant_tokens ty) (event_variants b))]"

definition block_tokens :: "(syn_type \<Rightarrow> token list) \<Rightarrow> channel_spec \<Rightarrow> token list" where
  "block_tokens ty spec =
     reply_tokens ty (channel_reply spec)
     @ (case channel_event spec of None \<Rightarrow> [] | Some b \<Rightarrow> event_tokens ty b)
     @ concat (map (stream_tokens ty) (channel_streams spec))
     @ (case channel_observable spec of None \<Rightarrow> [] | Some ob \<Rightarrow> observable_tokens ob)"

definition channel_tokens :: "(syn_type \<Rightarrow> token list) \<Rightarrow> channel_spec \<Rightarrow> token list" where
  "channel_tokens ty spec =
     [TIdent ''channel'', TIdent (channel_name spec), TIdent ''contract'']
     @ ty (channel_contract spec)
     @ TBraces (comma_tokens (request_variant_tokens ty) (request_variants (channel_request spec)))
     # block_tokens ty spec"

text \<open>The tokens that can follow a type in the grammar.\<close>

fun ends_type_tokens :: "token list \<Rightarrow> bool" where
  "ends_type_tokens [] = True"
| "ends_type_tokens (TBraces _ # _) = True"
| "ends_type_tokens (TPunct c # _) = (c = CHR '';'')"
| "ends_type_tokens _ = False"

text \<open>
  What \<^verbatim>\<open>syn\<close> documents: the stream \<open>stream ts\<close> of a token sequence is read from its front.
  \<open>ident_ok\<close> are the identifiers that are no reserved words, \<open>type_ok\<close> and \<open>ty\<close> the types with
  their tokens.
\<close>

definition syn_tokens_law ::
  "(token list \<Rightarrow> 's) \<Rightarrow> (ident \<Rightarrow> bool) \<Rightarrow> (syn_type \<Rightarrow> bool) \<Rightarrow> (syn_type \<Rightarrow> token list)
     \<Rightarrow> 's syn_stream \<Rightarrow> bool" where
  "syn_tokens_law stream ident_ok type_ok ty y \<longleftrightarrow>
     (\<forall>x ts. ident_ok x \<longrightarrow> sy_ident y (stream (TIdent x # ts)) = Ok (x, stream ts))
     \<and> (\<forall>t ts. type_ok t \<longrightarrow> ends_type_tokens ts \<longrightarrow>
          sy_type y (stream (ty t @ ts)) = Ok (t, stream ts))
     \<and> (\<forall>k ts. sy_keyword y k (stream (TIdent k # ts)) = Ok (stream ts))
     \<and> (\<forall>c ts. sy_punct y c (stream (TPunct c # ts)) = Ok (stream ts))
     \<and> (\<forall>body ts. sy_braced y (stream (TBraces body # ts)) = Ok (stream body, stream ts))
     \<and> (\<forall>body ts. sy_parenthesized y (stream (TParens body # ts)) = Ok (stream body, stream ts))
     \<and> (\<forall>k ts. sy_peek_keyword y k (stream ts) \<longleftrightarrow> (\<exists>rest. ts = TIdent k # rest))
     \<and> (\<forall>ts. sy_peek_paren y (stream ts) \<longleftrightarrow> (\<exists>body rest. ts = TParens body # rest))
     \<and> (\<forall>ts. sy_is_empty y (stream ts) \<longleftrightarrow> ts = [])
     \<and> (\<forall>bs. sy_check_unexpected y bs = Ok () \<longleftrightarrow> list_all (sy_is_empty y) bs)
     \<and> ident_ok ''default''"

text \<open>The declarations that can be written down in the grammar.\<close>

definition printable :: "(ident \<Rightarrow> bool) \<Rightarrow> (syn_type \<Rightarrow> bool) \<Rightarrow> channel_spec \<Rightarrow> bool" where
  "printable ident_ok type_ok spec \<longleftrightarrow>
     ident_ok (channel_name spec) \<and> type_ok (channel_contract spec)
     \<and> request_name (channel_request spec) = ''Operation''
     \<and> list_all (\<lambda>v. ident_ok (rv_name v) \<and> type_ok (rv_payload v) \<and> pred_option ident_ok (rv_opens v))
         (request_variants (channel_request spec))
     \<and> ident_ok (reply_name (channel_reply spec))
     \<and> list_all (\<lambda>v. ident_ok (yv_name v) \<and> pred_option type_ok (yv_payload v))
         (reply_variants (channel_reply spec))
     \<and> pred_option (\<lambda>b. ident_ok (event_name b)
         \<and> list_all (\<lambda>v. ident_ok (evt_name v) \<and> type_ok (evt_payload v)
             \<and> pred_option ident_ok (evt_belongs v)) (event_variants b)) (channel_event spec)
     \<and> list_all (\<lambda>s. ident_ok (stream_name s) \<and> type_ok (stream_token s) \<and> ident_ok (stream_opened s)
         \<and> stream_events s \<noteq> [] \<and> list_all ident_ok (stream_events s) \<and> ident_ok (stream_close s))
         (channel_streams spec)
     \<and> pred_option (\<lambda>ob. (\<forall>name. obs_filter ob = FilterNamed name \<longrightarrow> ident_ok name \<and> name \<noteq> ''default'')
         \<and> ident_ok (obs_operation_event ob) \<and> ident_ok (obs_effect_event ob)) (channel_observable spec)"

subsection \<open>Reading what was printed\<close>

text \<open>\<open>reads stream y p ts a rest\<close>: on the tokens \<open>ts\<close> the parser gives \<open>a\<close> with \<open>rest\<close> left, and has
  emptied every group it closed.\<close>

definition reads ::
  "(token list \<Rightarrow> 's) \<Rightarrow> 's syn_stream \<Rightarrow> ('s, 'a) parser \<Rightarrow> token list \<Rightarrow> 'a \<Rightarrow> token list \<Rightarrow> bool" where
  "reads stream y p ts a rest \<longleftrightarrow>
     (\<exists>dropped. p (stream ts) = Some (Ok (a, stream rest, dropped)) \<and> list_all (sy_is_empty y) dropped)"

lemma reads_then:
  assumes "reads stream y p ts a mid" "reads stream y (f a) mid b rest"
  shows "reads stream y (parse_then p f) ts b rest"
  using assms by (auto simp: reads_def parse_then_def)

lemma reads_parsed: "reads stream y (parsed a) ts a ts"
  by (simp add: reads_def parsed_def)

lemma reads_if:
  "reads stream y (\<lambda>s. if c s then p s else q s) ts a rest \<longleftrightarrow>
     (if c (stream ts) then reads stream y p ts a rest else reads stream y q ts a rest)"
  by (simp add: reads_def)

lemma reads_items:
  assumes "syn_tokens_law stream ident_ok type_ok ty y"
  shows "ident_ok x \<Longrightarrow> reads stream y (parse_item (sy_ident y)) (TIdent x # ts) x ts"
    and "type_ok t \<Longrightarrow> ends_type_tokens ts \<Longrightarrow> reads stream y (parse_item (sy_type y)) (ty t @ ts) t ts"
    and "type_ok t \<Longrightarrow> reads stream y (parse_item (sy_type y)) (ty t) t []"
    and "reads stream y (parse_token (sy_keyword y k)) (TIdent k # ts) () ts"
    and "reads stream y (parse_token (sy_punct y c)) (TPunct c # ts) () ts"
proof -
  have "type_ok t \<Longrightarrow> ends_type_tokens us \<Longrightarrow> sy_type y (stream (ty t @ us)) = Ok (t, stream us)" for us
    using assms by (simp add: syn_tokens_law_def)
  from this [of ts] this [of "[]"] show
    "type_ok t \<Longrightarrow> ends_type_tokens ts \<Longrightarrow> reads stream y (parse_item (sy_type y)) (ty t @ ts) t ts"
    "type_ok t \<Longrightarrow> reads stream y (parse_item (sy_type y)) (ty t) t []"
    by (simp_all add: reads_def parse_item_def)
qed (use assms in \<open>auto simp: reads_def parse_item_def parse_token_def syn_tokens_law_def\<close>)

lemma reads_groups:
  assumes "syn_tokens_law stream ident_ok type_ok ty y" "reads stream y p body a []"
  shows "reads stream y (parse_inside (sy_braced y) p) (TBraces body # ts) a ts"
    and "reads stream y (parse_inside (sy_parenthesized y) p) (TParens body # ts) a ts"
  using assms by (auto simp: reads_def parse_inside_def syn_tokens_law_def)

lemma peeks:
  assumes "syn_tokens_law stream ident_ok type_ok ty y"
  shows "sy_peek_keyword y k (stream ts) \<longleftrightarrow> (\<exists>rest. ts = TIdent k # rest)"
    and "sy_peek_paren y (stream ts) \<longleftrightarrow> (\<exists>body rest. ts = TParens body # rest)"
    and "sy_is_empty y (stream ts) \<longleftrightarrow> ts = []"
    and "ident_ok ''default''"
  using assms by (simp_all add: syn_tokens_law_def)

lemma reads_opt_keyword_ident:
  assumes law: "syn_tokens_law stream ident_ok type_ok ty y"
    and "pred_option ident_ok name" "\<And>rest. ts \<noteq> TIdent k # rest"
  shows "reads stream y (parse_opt_keyword_ident y k) (opt_keyword_tokens k name @ ts) name ts"
proof (cases name)
  case None
  then show ?thesis
    using assms(3)
    by (simp add: parse_opt_keyword_ident_def [abs_def] reads_if opt_keyword_tokens_def peeks [OF law]
        reads_parsed)
next
  case (Some n)
  then have "ident_ok n" using assms(2) by simp
  then show ?thesis
    by (auto simp: parse_opt_keyword_ident_def [abs_def] reads_if opt_keyword_tokens_def peeks [OF law] Some
        intro!: reads_then [OF reads_items(4) [OF law]] reads_then [OF reads_items(1) [OF law]] reads_parsed)
qed

text \<open>A comma or the end of the block follows a variant.\<close>

fun ends_variant_tokens :: "token list \<Rightarrow> bool" where
  "ends_variant_tokens [] = True"
| "ends_variant_tokens (TPunct c # _) = (c = CHR '','')"
| "ends_variant_tokens _ = False"

lemma ends_variant_tokens_not [simp]:
  "ends_variant_tokens ts \<Longrightarrow> ts \<noteq> TIdent k # rest" "ends_variant_tokens ts \<Longrightarrow> ts \<noteq> TParens body # rest"
  by auto

lemma reads_request_variant:
  assumes law: "syn_tokens_law stream ident_ok type_ok ty y"
    and "ident_ok (rv_name v)" "type_ok (rv_payload v)" "pred_option ident_ok (rv_opens v)"
    and "ends_variant_tokens ts"
  shows "reads stream y (parse_request_variant y) (request_variant_tokens ty v @ ts) v ts"
  unfolding parse_request_variant_def request_variant_tokens_def append.simps append_assoc
  using assms(2-5)
  by (intro reads_then [OF reads_items(4) [OF law]] reads_then [OF reads_items(1) [OF law]]
      reads_then [OF reads_groups(2) [OF law reads_items(3) [OF law]]]
      reads_then [OF reads_opt_keyword_ident [OF law]]) (auto simp: reads_def parsed_def)

lemma reads_event_variant:
  assumes law: "syn_tokens_law stream ident_ok type_ok ty y"
    and "ident_ok (evt_name v)" "type_ok (evt_payload v)" "pred_option ident_ok (evt_belongs v)"
    and "ends_variant_tokens ts"
  shows "reads stream y (parse_event_variant y) (event_variant_tokens ty v @ ts) v ts"
  unfolding parse_event_variant_def event_variant_tokens_def append.simps append_assoc
  using assms(2-5)
  by (intro reads_then [OF reads_items(1) [OF law]]
      reads_then [OF reads_groups(2) [OF law reads_items(3) [OF law]]]
      reads_then [OF reads_opt_keyword_ident [OF law]]) (auto simp: reads_def parsed_def)

lemma reads_reply_variant:
  assumes law: "syn_tokens_law stream ident_ok type_ok ty y"
    and "ident_ok (yv_name v)" "pred_option type_ok (yv_payload v)" "ends_variant_tokens ts"
  shows "reads stream y (parse_reply_variant y) (reply_variant_tokens ty v @ ts) v ts"
proof -
  have payload: "reads stream y (\<lambda>s. if sy_peek_paren y s
      then parse_then (parse_inside (sy_parenthesized y) (parse_item (sy_type y)))
        (\<lambda>payload. parsed (Some payload)) s
      else parsed None s)
      ((case yv_payload v of None \<Rightarrow> [] | Some payload \<Rightarrow> [TParens (ty payload)]) @ ts) (yv_payload v) ts"
    using assms(3,4)
    by (cases "yv_payload v")
      (auto simp: reads_if peeks [OF law] reads_parsed
        intro!: reads_then [OF reads_groups(2) [OF law reads_items(3) [OF law]]])
  show ?thesis
    unfolding parse_reply_variant_def reply_variant_tokens_def append.simps
    using assms(2)
    by (intro reads_then [OF reads_items(1) [OF law]] reads_then [OF payload])
      (auto simp: reads_def parsed_def)
qed

lemma reads_variants_step:
  assumes law: "syn_tokens_law stream ident_ok type_ok ty y"
  shows "reads stream y (parse_variants y variant) [] [] []"
    and "ts \<noteq> [] \<Longrightarrow> reads stream y variant ts v mid \<Longrightarrow>
      reads stream y (\<lambda>s. if sy_is_empty y s then parsed () s else parse_token (sy_punct y CHR '','') s)
        mid () mid' \<Longrightarrow>
      reads stream y (parse_variants y variant) mid' vs rest \<Longrightarrow>
      reads stream y (parse_variants y variant) ts (v # vs) rest"
proof -
  show "reads stream y (parse_variants y variant) [] [] []"
    by (simp add: reads_def parse_variants.simps peeks [OF law] parsed_def)
next
  assume nonempty: "ts \<noteq> []" and first: "reads stream y variant ts v mid"
    and sep: "reads stream y (\<lambda>s. if sy_is_empty y s then parsed () s
      else parse_token (sy_punct y CHR '','') s) mid () mid'"
    and tail: "reads stream y (parse_variants y variant) mid' vs rest"
  have "reads stream y (parse_then (\<lambda>s. parse_variants y variant s) (\<lambda>vs. parsed (v # vs))) mid' (v # vs) rest"
    by (rule reads_then [OF tail]) (rule reads_parsed)
  then have "reads stream y (parse_then variant (\<lambda>v.
      parse_then (\<lambda>s. if sy_is_empty y s then parsed () s else parse_token (sy_punct y CHR '','') s) (\<lambda>_.
      parse_then (\<lambda>s. parse_variants y variant s) (\<lambda>vs. parsed (v # vs))))) ts (v # vs) rest"
    by (intro reads_then [OF first] reads_then [OF sep])
  then show "reads stream y (parse_variants y variant) ts (v # vs) rest"
    using nonempty by (simp add: reads_def parse_variants.simps [of y variant "stream ts"] peeks [OF law])
qed

lemma reads_variants:
  assumes law: "syn_tokens_law stream ident_ok type_ok ty y"
    and "\<And>v ts. v \<in> set vs \<Longrightarrow> ends_variant_tokens ts \<Longrightarrow> reads stream y variant (f v @ ts) v ts"
    and "\<And>v. v \<in> set vs \<Longrightarrow> f v \<noteq> []"
  shows "reads stream y (parse_variants y variant) (comma_tokens f vs) vs []"
  using assms(2,3)
proof (induction f vs rule: comma_tokens.induct [case_names empty single more])
  case (empty f)
  show ?case by (simp add: reads_variants_step(1) [OF law])
next
  case (single f v)
  have "reads stream y variant (f v) v []"
    using single.prems(1) [of v "[]"] by simp
  then have "reads stream y (parse_variants y variant) (f v) [v] []"
    by (rule reads_variants_step(2) [OF law single.prems(2) _ _ reads_variants_step(1) [OF law], rotated])
      (simp_all add: reads_if peeks [OF law] reads_parsed)
  then show ?case by simp
next
  case (more f v w vs)
  let ?rest = "comma_tokens f (w # vs)"
  have comma: "reads stream y (\<lambda>s. if sy_is_empty y s then parsed () s else parse_token (sy_punct y CHR '','') s)
      (TPunct CHR '','' # ?rest) () ?rest"
    by (simp add: reads_if peeks [OF law] reads_items(5) [OF law])
  have tail: "reads stream y (parse_variants y variant) ?rest (w # vs) []"
    using more.prems by (intro more.IH) auto
  have head: "reads stream y variant (f v @ TPunct CHR '','' # ?rest) v (TPunct CHR '','' # ?rest)"
    by (rule more.prems(1)) simp_all
  have "reads stream y (parse_variants y variant) (f v @ TPunct CHR '','' # ?rest) (v # w # vs) []"
    by (rule reads_variants_step(2) [OF law _ head comma tail]) simp
  then show ?case by simp
qed

lemma reads_slot:
  assumes law: "syn_tokens_law stream ident_ok type_ok ty y" and "ident_ok name"
  shows "reads stream y (parse_slot y k) (slot_tokens k name @ ts) name ts"
  unfolding parse_slot_def slot_tokens_def append.simps
  by (intro reads_then [OF reads_items(4) [OF law]] reads_then [OF reads_items(1) [OF law]]
      reads_then [OF reads_items(5) [OF law]] reads_parsed assms(2))

lemma reads_stream_events:
  assumes law: "syn_tokens_law stream ident_ok type_ok ty y"
    and "list_all ident_ok names" "\<And>rest. ts \<noteq> TIdent ''event'' # rest"
  shows "reads stream y (parse_stream_events y) (concat (map (slot_tokens ''event'') names) @ ts) names ts"
  using assms(2)
proof (induction names)
  case Nil
  then show ?case
    using assms(3) by (simp add: reads_def parse_stream_events.simps peeks [OF law] parsed_def)
next
  case (Cons name names)
  let ?rest = "concat (map (slot_tokens ''event'') names) @ ts"
  let ?body = "parse_then (parse_slot y ''event'') (\<lambda>name.
      parse_then (\<lambda>s. parse_stream_events y s) (\<lambda>names. parsed (name # names)))"
  have "reads stream y (parse_stream_events y) ?rest names ts"
    using Cons by simp
  then have "reads stream y (parse_then (\<lambda>s. parse_stream_events y s) (\<lambda>names. parsed (name # names)))
      ?rest (name # names) ts"
    by (rule reads_then) (rule reads_parsed)
  then have "reads stream y ?body (slot_tokens ''event'' name @ ?rest) (name # names) ts"
    using Cons.prems by (intro reads_then [OF reads_slot [OF law]]) auto
  moreover have "sy_peek_keyword y ''event'' (stream (slot_tokens ''event'' name @ ?rest))"
    by (simp add: peeks [OF law] slot_tokens_def)
  ultimately have "reads stream y (parse_stream_events y) (slot_tokens ''event'' name @ ?rest) (name # names) ts"
    by (simp add: reads_def parse_stream_events.simps [of y "stream (slot_tokens ''event'' name @ ?rest)"])
  then show ?case by simp
qed

lemma reads_blocks_of_variants:
  assumes law: "syn_tokens_law stream ident_ok type_ok ty y"
  shows "ident_ok (reply_name b) \<Longrightarrow>
      list_all (\<lambda>v. ident_ok (yv_name v) \<and> pred_option type_ok (yv_payload v)) (reply_variants b) \<Longrightarrow>
      reads stream y (parse_reply_block y) (reply_tokens ty b @ ts) b ts"
    and "ident_ok (event_name e) \<Longrightarrow>
      list_all (\<lambda>v. ident_ok (evt_name v) \<and> type_ok (evt_payload v) \<and> pred_option ident_ok (evt_belongs v))
        (event_variants e) \<Longrightarrow>
      reads stream y (parse_event_block y) (event_tokens ty e @ ts) e ts"
proof -
  assume ok: "ident_ok (reply_name b)"
    "list_all (\<lambda>v. ident_ok (yv_name v) \<and> pred_option type_ok (yv_payload v)) (reply_variants b)"
  have variants: "reads stream y (parse_variants y (parse_reply_variant y))
      (comma_tokens (reply_variant_tokens ty) (reply_variants b)) (reply_variants b) []"
    using ok(2) by (intro reads_variants [OF law] reads_reply_variant [OF law])
      (auto simp: list_all_iff reply_variant_tokens_def)
  show "reads stream y (parse_reply_block y) (reply_tokens ty b @ ts) b ts"
    unfolding parse_reply_block_def reply_tokens_def append.simps
    by (intro reads_then [OF reads_items(4) [OF law]] reads_then [OF reads_items(1) [OF law ok(1)]]
        reads_then [OF reads_groups(1) [OF law variants]]) (simp add: reads_def parsed_def)
next
  assume ok: "ident_ok (event_name e)"
    "list_all (\<lambda>v. ident_ok (evt_name v) \<and> type_ok (evt_payload v) \<and> pred_option ident_ok (evt_belongs v))
       (event_variants e)"
  have variants: "reads stream y (parse_variants y (parse_event_variant y))
      (comma_tokens (event_variant_tokens ty) (event_variants e)) (event_variants e) []"
    using ok(2) by (intro reads_variants [OF law] reads_event_variant [OF law])
      (auto simp: list_all_iff event_variant_tokens_def)
  show "reads stream y (parse_event_block y) (event_tokens ty e @ ts) e ts"
    unfolding parse_event_block_def event_tokens_def append.simps
    by (intro reads_then [OF reads_items(4) [OF law]] reads_then [OF reads_items(1) [OF law ok(1)]]
        reads_then [OF reads_groups(1) [OF law variants]]) (simp add: reads_def parsed_def)
qed

lemma reads_stream_block:
  assumes law: "syn_tokens_law stream ident_ok type_ok ty y"
    and ok: "ident_ok (stream_name b)" "type_ok (stream_token b)" "ident_ok (stream_opened b)"
      "stream_events b \<noteq> []" "list_all ident_ok (stream_events b)" "ident_ok (stream_close b)"
  shows "reads stream y (parse_stream_block y) (stream_tokens ty b @ ts) b ts"
proof -
  let ?close = "slot_tokens ''close'' (stream_close b)"
  have close: "reads stream y (parse_then (parse_slot y ''close'')
      (\<lambda>close. parsed (stream_token b, stream_opened b, stream_events b, close))) ?close
      (stream_token b, stream_opened b, stream_events b, stream_close b) []"
    using reads_then [OF reads_slot [OF law ok(6), of "''close''" "[]"] reads_parsed] by simp
  have guarded: "reads stream y (\<lambda>s. if stream_events b = [] then parse_error (e s) s else parsed () s) us () us"
    for e us
    using ok(4) by (simp add: reads_parsed)
  have events: "reads stream y (parse_stream_events y)
      (concat (map (slot_tokens ''event'') (stream_events b)) @ ?close) (stream_events b) ?close"
    by (rule reads_stream_events [OF law ok(5)]) (simp add: slot_tokens_def)
  have body: "reads stream y (parse_stream_body y)
      (TIdent ''token'' # ty (stream_token b) @ TPunct CHR '';''
        # slot_tokens ''opened'' (stream_opened b)
        @ concat (map (slot_tokens ''event'') (stream_events b)) @ ?close)
      (stream_token b, stream_opened b, stream_events b, stream_close b) []"
    unfolding parse_stream_body_def
    by (rule reads_then [OF reads_items(4) [OF law]], rule reads_then [OF reads_items(2) [OF law ok(2)]],
        simp, rule reads_then [OF reads_items(5) [OF law]], rule reads_then [OF reads_slot [OF law ok(3)]],
        rule reads_then [OF events], rule reads_then [OF guarded], rule close)
  have "reads stream y (\<lambda>s. parsed \<lparr>stream_name = stream_name b, stream_token = stream_token b,
      stream_opened = stream_opened b, stream_events = stream_events b, stream_close = stream_close b\<rparr> s)
      ts b ts"
    by (simp add: reads_def parsed_def)
  then show ?thesis
    unfolding parse_stream_block_def stream_tokens_def append.simps
    by (intro reads_then [OF reads_items(4) [OF law]] reads_then [OF reads_items(1) [OF law ok(1)]]
        reads_then [OF reads_groups(1) [OF law body]]) simp
qed

lemma reads_required_slot:
  assumes law: "syn_tokens_law stream ident_ok type_ok ty y" and "ident_ok name"
  shows "reads stream y (parse_required_slot y k message) (slot_tokens k name @ ts) name ts"
  using reads_slot [OF assms, of k ts]
  by (simp add: reads_def parse_required_slot_def peeks [OF law] slot_tokens_def)

lemma reads_observable_block:
  assumes law: "syn_tokens_law stream ident_ok type_ok ty y"
    and "\<And>name. obs_filter ob = FilterNamed name \<Longrightarrow> ident_ok name \<and> name \<noteq> ''default''"
    and ok: "ident_ok (obs_operation_event ob)" "ident_ok (obs_effect_event ob)"
  shows "reads stream y (parse_observable_block y) (observable_tokens ob @ ts) ob ts"
proof -
  define name where
    "name = (case obs_filter ob of FilterDefault \<Rightarrow> ''default'' | FilterNamed name \<Rightarrow> name)"
  have name: "ident_ok name"
    "(if name = ''default'' then FilterDefault else FilterNamed name) = obs_filter ob"
    using assms(2) peeks(4) [OF law] by (auto simp: name_def split: filter_decl.splits)
  have last: "reads stream y (parse_required_slot y ''effect_event'' message)
      (slot_tokens ''effect_event'' (obs_effect_event ob)) (obs_effect_event ob) []" for message
    using reads_required_slot [OF law ok(2), of "''effect_event''" message "[]"] by simp
  have nothing_left: "reads stream y (\<lambda>s. if \<not> sy_is_empty y s then parse_error (e s) s else parsed () s) [] () []"
    for e
    by (simp add: reads_def peeks [OF law] parsed_def)
  have ob: "reads stream y (parsed \<lparr>obs_filter = (if name = ''default'' then FilterDefault else FilterNamed name),
      obs_operation_event = obs_operation_event ob, obs_effect_event = obs_effect_event ob\<rparr>) [] ob []"
    by (simp add: reads_def parsed_def name(2))
  have "reads stream y (parse_observable_body y)
      (slot_tokens ''filter'' name @ slot_tokens ''operation_event'' (obs_operation_event ob)
        @ slot_tokens ''effect_event'' (obs_effect_event ob)) ob []"
    unfolding parse_observable_body_def
    by (rule reads_then [OF reads_required_slot [OF law name(1)]],
        rule reads_then [OF reads_required_slot [OF law ok(1)]], rule reads_then [OF last],
        rule reads_then [OF nothing_left], rule ob)
  from reads_groups(1) [OF law this] show ?thesis
    unfolding parse_observable_block_def observable_tokens_def append.simps name_def
    by (intro reads_then [OF reads_items(4) [OF law]])
qed

lemma parse_blocks_step:
  assumes law: "syn_tokens_law stream ident_ok type_ok ty y"
  shows "reads stream y (parse_blocks y blocks) [] blocks []"
    and "ts \<noteq> [] \<Longrightarrow> reads stream y (parse_block y blocks) ts blocks' mid \<Longrightarrow>
      reads stream y (parse_blocks y blocks') mid blocks'' rest \<Longrightarrow>
      reads stream y (parse_blocks y blocks) ts blocks'' rest"
proof -
  show "reads stream y (parse_blocks y blocks) [] blocks []"
    by (simp add: reads_def parse_blocks.simps peeks [OF law] parsed_def)
next
  assume nonempty: "ts \<noteq> []" and first: "reads stream y (parse_block y blocks) ts blocks' mid"
    and tail: "reads stream y (parse_blocks y blocks') mid blocks'' rest"
  have "reads stream y (parse_then (parse_block y blocks) (\<lambda>blocks' s. parse_blocks y blocks' s)) ts blocks'' rest"
    by (rule reads_then [OF first]) (rule tail)
  then show "reads stream y (parse_blocks y blocks) ts blocks'' rest"
    using nonempty by (simp add: reads_def parse_blocks.simps [of y blocks "stream ts"] peeks [OF law])
qed

lemma reads_block:
  assumes law: "syn_tokens_law stream ident_ok type_ok ty y"
  shows "blk_reply blocks = None \<Longrightarrow> reads stream y (parse_reply_block y) (reply_tokens ty b @ ts) b ts \<Longrightarrow>
      reads stream y (parse_block y blocks) (reply_tokens ty b @ ts) (blocks\<lparr>blk_reply := Some b\<rparr>) ts"
    and "blk_event blocks = None \<Longrightarrow> reads stream y (parse_event_block y) (event_tokens ty e @ ts) e ts \<Longrightarrow>
      reads stream y (parse_block y blocks) (event_tokens ty e @ ts) (blocks\<lparr>blk_event := Some e\<rparr>) ts"
    and "reads stream y (parse_stream_block y) (stream_tokens ty s @ ts) s ts \<Longrightarrow>
      reads stream y (parse_block y blocks) (stream_tokens ty s @ ts)
        (blocks\<lparr>blk_streams := blk_streams blocks @ [s]\<rparr>) ts"
    and "blk_observable blocks = None \<Longrightarrow>
      reads stream y (parse_observable_block y) (observable_tokens ob @ ts) ob ts \<Longrightarrow>
      reads stream y (parse_block y blocks) (observable_tokens ob @ ts) (blocks\<lparr>blk_observable := Some ob\<rparr>) ts"
  unfolding parse_block_def [abs_def] refuse_duplicate_def [abs_def]
  by (simp_all add: reads_if peeks [OF law] reply_tokens_def event_tokens_def stream_tokens_def
      observable_tokens_def) (erule reads_then, rule reads_parsed)+

lemma reads_streams:
  assumes law: "syn_tokens_law stream ident_ok type_ok ty y"
    and "\<And>b us. b \<in> set bs \<Longrightarrow> reads stream y (parse_stream_block y) (stream_tokens ty b @ us) b us"
    and "reads stream y (parse_blocks y (blocks\<lparr>blk_streams := blk_streams blocks @ bs\<rparr>)) ts final rest"
  shows "reads stream y (parse_blocks y blocks) (concat (map (stream_tokens ty) bs) @ ts) final rest"
  using assms(2,3)
proof (induction bs arbitrary: blocks)
  case (Cons b bs)
  let ?us = "concat (map (stream_tokens ty) bs) @ ts"
  have head: "reads stream y (parse_block y blocks) (stream_tokens ty b @ ?us)
      (blocks\<lparr>blk_streams := blk_streams blocks @ [b]\<rparr>) ?us"
    by (rule reads_block(3) [OF law]) (simp add: Cons.prems(1))
  have tail: "reads stream y (parse_blocks y (blocks\<lparr>blk_streams := blk_streams blocks @ [b]\<rparr>)) ?us final rest"
    using Cons.prems by (intro Cons.IH) auto
  have "stream_tokens ty b @ ?us \<noteq> []" by (simp add: stream_tokens_def)
  from parse_blocks_step(2) [OF law this head tail] show ?case by simp
qed simp

lemma reads_block_tokens:
  assumes law: "syn_tokens_law stream ident_ok type_ok ty y" and ok: "printable ident_ok type_ok spec"
  shows "reads stream y (parse_blocks y no_blocks) (block_tokens ty spec)
    \<lparr>blk_reply = Some (channel_reply spec), blk_event = channel_event spec,
     blk_streams = channel_streams spec, blk_observable = channel_observable spec\<rparr> []"
proof -
  let ?b0 = "no_blocks\<lparr>blk_reply := Some (channel_reply spec)\<rparr>"
  let ?b1 = "?b0\<lparr>blk_event := channel_event spec\<rparr>"
  let ?b2 = "?b1\<lparr>blk_streams := channel_streams spec\<rparr>"
  let ?b3 = "?b2\<lparr>blk_observable := channel_observable spec\<rparr>"
  let ?t2 = "case channel_observable spec of None \<Rightarrow> [] | Some ob \<Rightarrow> observable_tokens ob"
  let ?t1 = "concat (map (stream_tokens ty) (channel_streams spec)) @ ?t2"
  let ?t0 = "(case channel_event spec of None \<Rightarrow> [] | Some b \<Rightarrow> event_tokens ty b) @ ?t1"
  have r2: "reads stream y (parse_blocks y ?b2) ?t2 ?b3 []"
  proof (cases "channel_observable spec")
    case None
    then show ?thesis by (simp add: parse_blocks_step(1) [OF law] no_blocks_def)
  next
    case (Some ob)
    with ok have "reads stream y (parse_block y ?b2) (observable_tokens ob @ []) (?b2\<lparr>blk_observable := Some ob\<rparr>) []"
      by (intro reads_block(4) [OF law] reads_observable_block [OF law])
        (auto simp: no_blocks_def printable_def)
    moreover have "observable_tokens ob @ [] \<noteq> []" by (simp add: observable_tokens_def)
    ultimately show ?thesis
      using parse_blocks_step(2) [OF law _ _ parse_blocks_step(1) [OF law]] Some by fastforce
  qed
  have streams: "reads stream y (parse_stream_block y) (stream_tokens ty b @ us) b us"
    if "b \<in> set (channel_streams spec)" for b us
    using ok that by (intro reads_stream_block [OF law]) (auto simp: printable_def list_all_iff)
  have r1: "reads stream y (parse_blocks y ?b1) ?t1 ?b3 []"
    by (rule reads_streams [OF law streams]) (use r2 in \<open>simp_all add: no_blocks_def\<close>)
  have r0: "reads stream y (parse_blocks y ?b0) ?t0 ?b3 []"
  proof (cases "channel_event spec")
    case None
    with r1 show ?thesis by (simp add: no_blocks_def)
  next
    case (Some e)
    with ok have head: "reads stream y (parse_block y ?b0) (event_tokens ty e @ ?t1) (?b0\<lparr>blk_event := Some e\<rparr>) ?t1"
      by (intro reads_block(2) [OF law] reads_blocks_of_variants(2) [OF law])
        (auto simp: no_blocks_def printable_def)
    have "event_tokens ty e @ ?t1 \<noteq> []" by (simp add: event_tokens_def)
    from parse_blocks_step(2) [OF law this head] r1 Some show ?thesis by simp
  qed
  have head: "reads stream y (parse_block y no_blocks) (reply_tokens ty (channel_reply spec) @ ?t0) ?b0 ?t0"
    using ok by (intro reads_block(1) [OF law] reads_blocks_of_variants(1) [OF law])
      (auto simp: no_blocks_def printable_def)
  have "reply_tokens ty (channel_reply spec) @ ?t0 \<noteq> []" by (simp add: reply_tokens_def)
  from parse_blocks_step(2) [OF law this head r0] show ?thesis
    by (simp add: block_tokens_def no_blocks_def)
qed

lemma reads_channel:
  assumes law: "syn_tokens_law stream ident_ok type_ok ty y" and ok: "printable ident_ok type_ok spec"
  shows "reads stream y (parse_channel_spec y) (channel_tokens ty spec) spec []"
proof -
  let ?vs = "request_variants (channel_request spec)"
  let ?ts = "TBraces (comma_tokens (request_variant_tokens ty) ?vs) # block_tokens ty spec"
  have names: "ident_ok (channel_name spec)" "type_ok (channel_contract spec)"
    using ok by (auto simp: printable_def)
  have variants: "reads stream y (parse_variants y (parse_request_variant y))
      (comma_tokens (request_variant_tokens ty) ?vs) ?vs []"
    using ok by (intro reads_variants [OF law] reads_request_variant [OF law])
      (auto simp: printable_def list_all_iff request_variant_tokens_def)
  have request: "channel_request spec = \<lparr>request_name = ''Operation'', request_variants = ?vs\<rparr>"
    using ok by (simp add: printable_def)
  show ?thesis
    unfolding parse_channel_spec_def channel_tokens_def append.simps
    apply (rule reads_then [OF reads_items(4) [OF law]])
    apply (rule reads_then [OF reads_items(1) [OF law names(1)]])
    apply (rule reads_then [OF reads_items(4) [OF law]])
    apply (rule reads_then [OF reads_items(2) [OF law names(2)]], simp)
    apply (rule reads_then [OF reads_groups(1) [OF law variants]])
    apply (rule reads_then [OF reads_block_tokens [OF law ok]])
    apply (simp add: reads_def parsed_def flip: request)
    done
qed

lemma syn_parse_reads:
  assumes law: "syn_tokens_law stream ident_ok type_ok ty y" and "reads stream y p ts a []"
  shows "syn_parse y p (stream ts) = Some (Ok a)"
proof -
  obtain d where d: "p (stream ts) = Some (Ok (a, stream [], d))" "list_all (sy_is_empty y) d"
    using assms(2) by (auto simp: reads_def)
  have "sy_check_unexpected y (d @ [stream []]) = Ok ()"
    using law d(2) by (simp add: syn_tokens_law_def)
  with d(1) show ?thesis by (simp add: syn_parse_def)
qed

subsection \<open>What the grammar accepts\<close>

lemma parse_then_Ok:
  "parse_then p f s = Some (Ok (b, s2, d)) \<longleftrightarrow>
     (\<exists>a s1 d1 d2. p s = Some (Ok (a, s1, d1)) \<and> f a s1 = Some (Ok (b, s2, d2)) \<and> d = d1 @ d2)"
proof (cases "\<exists>a s1 d1. p s = Some (Ok (a, s1, d1))")
  case True
  then obtain a s1 d1 where p: "p s = Some (Ok (a, s1, d1))" by blast
  show ?thesis
  proof (cases "\<exists>b' s2' d2. f a s1 = Some (Ok (b', s2', d2))")
    case False
    then show ?thesis
      by (cases "f a s1") (auto simp: parse_then_def p split: sum.splits)
  qed (auto simp: parse_then_def p)
next
  case False
  then show ?thesis
    by (cases "p s") (auto simp: parse_then_def split: sum.splits)
qed

lemma parse_inside_Ok:
  "parse_inside g p s = Some (Ok (a, rest, d)) \<longleftrightarrow>
     (\<exists>body left d1. g s = Ok (body, rest) \<and> p body = Some (Ok (a, left, d1)) \<and> d = d1 @ [left])"
proof (cases "g s")
  case (Inr t)
  obtain body rest' where t: "t = (body, rest')" by (cases t)
  show ?thesis
  proof (cases "\<exists>a' left d1. p body = Some (Ok (a', left, d1))")
    case False
    then show ?thesis
      by (cases "p body") (auto simp: parse_inside_def Inr t split: sum.splits)
  qed (auto simp: parse_inside_def Inr t)
qed (simp add: parse_inside_def)

lemmas parse_Ok = parse_then_Ok parse_inside_Ok

definition grammar_blocks :: "channel_blocks \<Rightarrow> bool" where
  "grammar_blocks blocks \<longleftrightarrow>
     (\<forall>s \<in> set (blk_streams blocks). stream_events s \<noteq> [])
     \<and> pred_option (\<lambda>ob. obs_filter ob \<noteq> FilterNamed ''default'') (blk_observable blocks)"

lemma parse_stream_block_events:
  "parse_stream_block y s = Some (Ok (b, s', d)) \<Longrightarrow> stream_events b \<noteq> []"
  by (auto simp: parse_stream_block_def parse_stream_body_def parse_Ok parsed_def parse_error_def
      split: if_splits)

lemma parse_observable_block_filter:
  "parse_observable_block y s = Some (Ok (ob, s', d)) \<Longrightarrow> obs_filter ob \<noteq> FilterNamed ''default''"
  by (auto simp: parse_observable_block_def parse_observable_body_def parse_Ok parsed_def parse_error_def
      split: if_splits)

lemma parse_block_grammar:
  "parse_block y blocks s = Some (Ok (blocks', s', d)) \<Longrightarrow> grammar_blocks blocks \<Longrightarrow> grammar_blocks blocks'"
  by (auto simp: parse_block_def refuse_duplicate_def parse_Ok parsed_def parse_error_def grammar_blocks_def
      dest: parse_stream_block_events parse_observable_block_filter split: if_splits)

lemma parse_blocks_grammar:
  assumes "parse_blocks y blocks s = Some (Ok (blocks', s', d))" "grammar_blocks blocks"
  shows "grammar_blocks blocks'"
proof -
  have "grammar_blocks blocks \<longrightarrow>
      (\<forall>blocks' s' d. r = Ok (blocks', s', d) \<longrightarrow> grammar_blocks blocks')"
    if "parse_blocks y blocks s = Some r" for r
    using that
  proof (rule parse_blocks.raw_induct [where P = "\<lambda>y blocks s r. grammar_blocks blocks \<longrightarrow>
      (\<forall>blocks' s' d. r = Ok (blocks', s', d) \<longrightarrow> grammar_blocks blocks')", rotated])
    fix parse and y :: "'a syn_stream" and blocks input r
    assume IH: "\<And>y blocks s r. parse y blocks s = Some r \<Longrightarrow> grammar_blocks blocks \<longrightarrow>
        (\<forall>blocks' s' d. r = Ok (blocks', s', d) \<longrightarrow> grammar_blocks blocks')"
      and step: "(if sy_is_empty y input then parsed blocks input
        else parse_then (parse_block y blocks) (parse y) input) = Some r"
    show "grammar_blocks blocks \<longrightarrow>
        (\<forall>blocks' s' d. r = Ok (blocks', s', d) \<longrightarrow> grammar_blocks blocks')"
    proof (cases "sy_is_empty y input")
      case True
      with step show ?thesis by (auto simp: parsed_def)
    next
      case False
      show ?thesis
      proof (intro impI allI)
        fix blocks' s' d
        assume wf: "grammar_blocks blocks" and r: "r = Ok (blocks', s', d)"
        obtain a s1 d1 d2 where head: "parse_block y blocks input = Some (Ok (a, s1, d1))"
          and tail: "parse y a s1 = Some (Ok (blocks', s', d2))"
          using False step r by (auto simp: parse_then_Ok)
        have "grammar_blocks a" by (rule parse_block_grammar [OF head wf])
        with IH [OF tail] show "grammar_blocks blocks'" by blast
      qed
    qed
  qed
  with assms show ?thesis by blast
qed

lemma parse_channel_spec_grammar:
  assumes "parse_channel_spec y s = Some (Ok (spec, s', d))"
  shows "request_name (channel_request spec) = ''Operation''
    \<and> (\<forall>b \<in> set (channel_streams spec). stream_events b \<noteq> [])
    \<and> pred_option (\<lambda>ob. obs_filter ob \<noteq> FilterNamed ''default'') (channel_observable spec)"
proof -
  obtain blocks s1 s2 d1 where blocks: "parse_blocks y no_blocks s1 = Some (Ok (blocks, s2, d1))"
    and spec: "request_name (channel_request spec) = ''Operation''"
      "channel_streams spec = blk_streams blocks" "channel_observable spec = blk_observable blocks"
    using assms
    by (auto simp: parse_channel_spec_def parse_Ok parsed_def parse_error_def split: option.splits)
  have "grammar_blocks blocks"
    by (rule parse_blocks_grammar [OF blocks]) (simp add: grammar_blocks_def no_blocks_def)
  with spec show ?thesis by (simp add: grammar_blocks_def)
qed

subsection \<open>A stream of tokens\<close>

text \<open>A parse stream on token lists, with single identifiers as types; it satisfies both laws.\<close>

definition token_error :: "token list \<Rightarrow> string \<Rightarrow> syn_error" where
  "token_error ts message = new_spanned (case ts of TIdent x # _ \<Rightarrow> x | _ \<Rightarrow> []) message"

definition token_ident :: "string \<Rightarrow> token list \<Rightarrow> (ident \<times> token list, syn_error) result" where
  "token_ident wanted ts =
     (case ts of
        TIdent x # rest \<Rightarrow> if identifier_text x then Ok (x, rest) else Err (token_error ts wanted)
      | _ \<Rightarrow> Err (token_error ts wanted))"

definition token_stream :: "token list syn_stream" where
  "token_stream =
     \<lparr>sy_ident = token_ident ''expected identifier'',
      sy_type = token_ident ''expected type'',
      sy_keyword = (\<lambda>k ts. case ts of
          TIdent x # rest \<Rightarrow> if x = k then Ok rest else Err (token_error ts (''expected '' @ quoted k))
        | _ \<Rightarrow> Err (token_error ts (''expected '' @ quoted k))),
      sy_punct = (\<lambda>c ts. case ts of
          TPunct d # rest \<Rightarrow> if d = c then Ok rest else Err (token_error ts (''expected '' @ quoted [c]))
        | _ \<Rightarrow> Err (token_error ts (''expected '' @ quoted [c]))),
      sy_braced = (\<lambda>ts. case ts of
          TBraces body # rest \<Rightarrow> Ok (body, rest)
        | _ \<Rightarrow> Err (token_error ts ''expected curly braces'')),
      sy_parenthesized = (\<lambda>ts. case ts of
          TParens body # rest \<Rightarrow> Ok (body, rest)
        | _ \<Rightarrow> Err (token_error ts ''expected parentheses'')),
      sy_peek_keyword = (\<lambda>k ts. case ts of TIdent x # _ \<Rightarrow> x = k | _ \<Rightarrow> False),
      sy_peek_paren = (\<lambda>ts. case ts of TParens _ # _ \<Rightarrow> True | _ \<Rightarrow> False),
      sy_is_empty = (\<lambda>ts. ts = []),
      sy_error = token_error,
      sy_lookahead_error = (\<lambda>ks ts. token_error ts (''expected one of: '' @ concat (map quoted ks))),
      sy_check_unexpected = (\<lambda>bs. case find (\<lambda>ts. ts \<noteq> []) bs of
          None \<Rightarrow> Ok ()
        | Some ts \<Rightarrow> Err (token_error ts ''unexpected token''))\<rparr>"

lemma token_stream_consuming: "syn_consuming token_stream (size_list size)"
  by (auto simp: syn_consuming_def token_stream_def token_ident_def
      split: list.splits token.splits if_splits)

lemma token_stream_law:
  "syn_tokens_law (\<lambda>ts. ts) identifier_text identifier_text (\<lambda>t. [TIdent t]) token_stream"
proof -
  have "(case find (\<lambda>ts. ts \<noteq> []) bs of None \<Rightarrow> Ok () | Some ts \<Rightarrow> Err (token_error ts ''unexpected token''))
      = Ok () \<longleftrightarrow> list_all (\<lambda>ts. ts = []) bs" for bs
    by (auto simp: list_all_iff find_None_iff split: option.splits dest: find_Some_member)
  moreover have "(case ts of TIdent x # _ \<Rightarrow> x = k | _ \<Rightarrow> False) \<longleftrightarrow> (\<exists>rest. ts = TIdent k # rest)" for ts k
    by (auto split: list.splits token.splits)
  moreover have "(case ts of TParens _ # _ \<Rightarrow> True | _ \<Rightarrow> False) \<longleftrightarrow> (\<exists>body rest. ts = TParens body # rest)" for ts
    by (auto split: list.splits token.splits)
  ultimately show ?thesis
    by (simp add: syn_tokens_law_def token_stream_def token_ident_def identifier_text_simps)
qed

definition feed_channel :: channel_spec where
  "feed_channel =
     \<lparr>channel_name = ''Feed'', channel_contract = ''FeedWire'',
      channel_request = \<lparr>request_name = ''Operation'', request_variants =
        [\<lparr>rv_name = ''Follow'', rv_payload = ''Topic'', rv_opens = Some ''TopicStream''\<rparr>,
         \<lparr>rv_name = ''Leave'', rv_payload = ''TopicToken'', rv_opens = None\<rparr>]\<rparr>,
      channel_reply = \<lparr>reply_name = ''Reply'', reply_variants =
        [\<lparr>yv_name = ''Followed'', yv_payload = Some ''TopicToken''\<rparr>,
         \<lparr>yv_name = ''Left'', yv_payload = None\<rparr>]\<rparr>,
      channel_event = Some \<lparr>event_name = ''Event'', event_variants =
        [\<lparr>evt_name = ''Posted'', evt_payload = ''Post'', evt_belongs = Some ''TopicStream''\<rparr>]\<rparr>,
      channel_streams = [\<lparr>stream_name = ''TopicStream'', stream_token = ''TopicToken'',
        stream_opened = ''Followed'', stream_events = [''Posted''], stream_close = ''Leave''\<rparr>],
      channel_observable = Some \<lparr>obs_filter = FilterDefault,
        obs_operation_event = ''OperationReceived'', obs_effect_event = ''EffectEmitted''\<rparr>\<rparr>"

definition feed_tokens :: "token list" where
  "feed_tokens = channel_tokens (\<lambda>t. [TIdent t]) feed_channel"

lemma feed_printable: "printable identifier_text identifier_text feed_channel"
  by (simp add: printable_def feed_channel_def identifier_text_simps)

lemma feed_wf: "channel_wf feed_channel"
  by (simp add: channel_wf_def observable_wf_def names_wf_def streams_wf_def stream_wf_def
      feed_channel_def event_records_def declared_events_def projected_record_head_def rfind_def
      starts_with_def)

lemma feed_parses: "syn_parse token_stream (parse_channel_spec token_stream) feed_tokens = Some (Ok feed_channel)"
  unfolding feed_tokens_def
  by (rule syn_parse_reads [OF token_stream_law reads_channel [OF token_stream_law feed_printable]])

subsection \<open>Properties\<close>

text \<open>
  C7.  The macro's parser inverts the printing of declarations: from the tokens of any channel
  declaration that the grammar can express, whatever its blocks, variants, streams and observer
  declaration, it reads back exactly that declaration, with no token left in any group.
\<close>

theorem parse_inverts_printing:
  assumes "syn_tokens_law stream ident_ok type_ok ty y" and "printable ident_ok type_ok spec"
  shows "syn_parse y (parse_channel_spec y) (stream (channel_tokens ty spec)) = Some (Ok spec)"
  by (rule syn_parse_reads [OF assms(1) reads_channel [OF assms]])

text \<open>
  C31.  What the grammar accepts: the operations are always the block \<^verbatim>\<open>Operation\<close>, every stream
  declares an event, and no filter is a type named \<^verbatim>\<open>default\<close>, which always means the generated
  filter.
\<close>

theorem parsed_declaration_shape:
  assumes "syn_parse y (parse_channel_spec y) input = Some (Ok spec)"
  shows "request_name (channel_request spec) = ''Operation''
    \<and> (\<forall>b \<in> set (channel_streams spec). stream_events b \<noteq> [])
    \<and> pred_option (\<lambda>ob. obs_filter ob \<noteq> FilterNamed ''default'') (channel_observable spec)"
proof -
  obtain s' d where "parse_channel_spec y input = Some (Ok (spec, s', d))"
    using assms by (auto simp: syn_parse_def fault_iffs)
  then show ?thesis by (rule parse_channel_spec_grammar)
qed

text \<open>
  C6.  The expansion of the macro ends on every input and never panics: it emits code exactly for
  the inputs that parse to a well-formed channel, and every other input is a compile error.
\<close>

theorem expansion_exact:
  assumes "syn_consuming y left"
  shows "\<exists>x. expand_signal_channel y input = Some x \<and> x \<noteq> MacroPanicked
    \<and> (\<forall>e. x = Expanded e \<longleftrightarrow>
         (\<exists>spec. syn_parse y (parse_channel_spec y) input = Some (Ok spec)
            \<and> channel_wf spec \<and> emit spec = (Ok e :: (emitted_channel, syn_error) exec)))"
proof -
  obtain r where r: "syn_parse y (parse_channel_spec y) input = Some r"
    using ends_channel_spec [OF assms, of input] by (auto simp: ends_at_def syn_parse_def)
  show ?thesis
  proof (cases r)
    case (Inl e)
    with r show ?thesis by (simp add: expand_signal_channel_def)
  next
    case (Inr spec)
    show ?thesis
    proof (cases "channel_wf spec")
      case True
      obtain e where "emit spec = (Ok e :: (emitted_channel, syn_error) exec)"
        using emit_wf_Ok [OF True] by blast
      moreover have "validate spec = Ok ()" using True by (simp add: validate_Ok_iff)
      ultimately show ?thesis using True r Inr by (auto simp: expand_signal_channel_def)
    next
      case False
      then obtain e where "validate spec = Err (Failed e)"
        using validate_never_panics [of spec] validate_Ok_iff [of spec "()"]
        by (cases "validate spec") (auto simp: never_panics_def, metis fault.exhaust)
      with False r Inr show ?thesis by (simp add: expand_signal_channel_def)
    qed
  qed
qed

theorem parse_inverts_printing_witness:
  "syn_parse token_stream (parse_channel_spec token_stream)
     (channel_tokens (\<lambda>t. [TIdent t]) feed_channel) = Some (Ok feed_channel)"
  by (rule parse_inverts_printing [OF token_stream_law feed_printable])

theorem parsed_declaration_shape_witness:
  "\<exists>spec. syn_parse token_stream (parse_channel_spec token_stream) feed_tokens = Some (Ok spec)
     \<and> request_name (channel_request spec) = ''Operation''
     \<and> (\<forall>b \<in> set (channel_streams spec). stream_events b \<noteq> [])"
  using parsed_declaration_shape [OF feed_parses] feed_parses by blast

theorem expansion_exact_witness:
  "\<exists>e. expand_signal_channel token_stream feed_tokens = Some (Expanded e)"
  using expansion_exact [OF token_stream_consuming, of feed_tokens] feed_parses feed_wf emit_wf_Ok [OF feed_wf]
  by auto

end
