(* ===== verification/Channel_Runtime.thy ===== *)
theory Channel_Runtime
  imports Channel_Emit Request
begin

text \<open>
  What the code emitted by \<^verbatim>\<open>signal_channel!\<close> does (the quoted bodies of \<^verbatim>\<open>macros/src/emit.rs\<close>):
  \<^verbatim>\<open>log_variant\<close>, \<^verbatim>\<open>kind\<close>, \<^verbatim>\<open>route_kind_from_short_header\<close>, \<^verbatim>\<open>opened_stream\<close>,
  \<^verbatim>\<open>closed_stream\<close>, \<^verbatim>\<open>stream_kind\<close>, \<^verbatim>\<open>contains_head\<close> of \<^verbatim>\<open>src/operation_heads.rs\<close> and the DOTOS codecs of
  the payload enums.  A value of a generated enum is the name of its variant with its payload; a
  match runs the first arm whose pattern accepts, over the arms in the order they are emitted.
\<close>

record 'v enum_value =
  variant_of :: ident
  payload_of :: "'v option"

definition unit_value :: "ident \<Rightarrow> 'v enum_value" where
  "unit_value name = \<lparr>variant_of = name, payload_of = None\<rparr>"

definition payload_value :: "ident \<Rightarrow> 'v \<Rightarrow> 'v enum_value" where
  "payload_value name v = \<lparr>variant_of = name, payload_of = Some v\<rparr>"

subsection \<open>Routing\<close>

definition contains_head :: "ident list \<Rightarrow> string \<Rightarrow> bool" where
  "contains_head heads head = (head \<in> set heads)"

definition generated_log_variant :: "(ident \<times> u8) list \<Rightarrow> 'v enum_value log_variant" where
  "generated_log_variant arms v =
     (let bytes = replicate 8 0;
          bytes = (case map_of arms (variant_of v) of
            Some index \<Rightarrow> bytes[0 := index]
          | None \<Rightarrow> bytes)
      in u64_from_le_bytes bytes)"

definition generated_kind :: "emitted_kind \<Rightarrow> 'v enum_value \<Rightarrow> ident option" where
  "generated_kind k v = map_of (kind_arms k) (variant_of v)"

text \<open>\<^verbatim>\<open>kind as u8\<close>: the low eight bits of the position of the variant.\<close>

definition kind_as_u8 :: "emitted_kind \<Rightarrow> ident \<Rightarrow> u8" where
  "kind_as_u8 k name = word_of_nat (length (takeWhile (\<lambda>n. n \<noteq> name) (kind_variants k)))"

datatype operation_dispatch_error =
    UnexpectedFrameBody
  | MultipleOperations usize
  | UnknownOperationRoot u8
  | UnknownOperationVariant u8 u8
  | HeaderRouteMismatch wire_route wire_route
  | HeaderOperationMismatch u8 u8

definition wire_route_debug :: "wire_route \<Rightarrow> string" where
  "wire_route_debug r =
     ''WireRoute { root: RootCode('' @ decimal (unat (root_code_value (route_root r)))
     @ ''), variant: VariantCode('' @ decimal (unat (variant_code_value (route_variant r))) @ '') }''"

fun operation_dispatch_error_display :: "operation_dispatch_error \<Rightarrow> string" where
  "operation_dispatch_error_display UnexpectedFrameBody =
     ''operation dispatch requires a request frame body''"
| "operation_dispatch_error_display (MultipleOperations count) =
     ''operation dispatch accepts exactly one operation, found '' @ decimal count"
| "operation_dispatch_error_display (UnknownOperationRoot root) =
     ''unknown operation root byte '' @ decimal (unat root)"
| "operation_dispatch_error_display (UnknownOperationVariant root variant) =
     ''unknown operation route variant '' @ decimal (unat variant) @ '' for root '' @ decimal (unat root)"
| "operation_dispatch_error_display (HeaderRouteMismatch expected actual) =
     ''short-header route mismatch: expected '' @ wire_route_debug expected
     @ '', decoded '' @ wire_route_debug actual"
| "operation_dispatch_error_display (HeaderOperationMismatch expected actual) =
     ''short-header operation root mismatch: expected '' @ decimal (unat expected)
     @ '', decoded '' @ decimal (unat actual)"

fun route_arm_accepts ::
  "route_arm \<Rightarrow> u8 \<times> u8 \<Rightarrow> (ident, operation_dispatch_error) result option" where
  "route_arm_accepts (KindArm index name) (root, variant) =
     (if root = index \<and> variant = 0 then Some (Ok name) else None)"
| "route_arm_accepts (UnknownVariantArm index) (root, variant) =
     (if root = index then Some (Err (UnknownOperationVariant index variant)) else None)"

definition route_kind_from_short_header ::
  "route_arm list \<Rightarrow> short_header \<Rightarrow> (ident, operation_dispatch_error) result" where
  "route_kind_from_short_header arms h =
     (case first_match (map route_arm_accepts arms)
         (root_code_value (route_root (header_route h)),
          variant_code_value (route_variant (header_route h))) of
        Some r \<Rightarrow> r
      | None \<Rightarrow> Err (UnknownOperationRoot (root_code_value (route_root (header_route h)))))"

subsection \<open>Streams\<close>

definition opened_stream :: "emitted_streams \<Rightarrow> 'v enum_value \<Rightarrow> ident option" where
  "opened_stream s v = map_of (opened_arms s) (variant_of v)"

definition closed_stream :: "emitted_streams \<Rightarrow> 'v enum_value \<Rightarrow> ident option" where
  "closed_stream s v = map_of (closed_arms s) (variant_of v)"

definition event_stream_kind :: "emitted_streams \<Rightarrow> 'v enum_value \<Rightarrow> ident option" where
  "event_stream_kind s v =
     (case event_witness s of None \<Rightarrow> None | Some (_, arms) \<Rightarrow> map_of arms (variant_of v))"

subsection \<open>The text form of payload enums\<close>

text \<open>
  The codec of each payload type is an argument: \<open>encode_payload\<close> and \<open>decode_payload\<close>.  The result
  \<^const>\<open>None\<close> of the encoder stands for a value that is not of the enum.
\<close>

definition generated_to_dotos ::
  "('b, 'x) dotos_blocks \<Rightarrow> (syn_type \<Rightarrow> 'v \<Rightarrow> string) \<Rightarrow> emitted_codec \<Rightarrow> 'v enum_value
     \<Rightarrow> string option" where
  "generated_to_dotos d encode_payload codec v =
     (case map_of (encode_arms codec) (variant_of v) of
        None \<Rightarrow> None
      | Some ty \<Rightarrow>
          (case (ty, payload_of v) of
             (Some ty, Some payload) \<Rightarrow>
               Some (wrap_parenthesis d [variant_of v, encode_payload ty payload])
           | (None, None) \<Rightarrow> Some (variant_of v)
           | _ \<Rightarrow> None))"

definition generated_from_dotos_block ::
  "('b, 'x) dotos_blocks \<Rightarrow> (syn_type \<Rightarrow> 'b \<Rightarrow> ('v, 'x dotos_decode_error) result) \<Rightarrow> emitted_codec
     \<Rightarrow> 'b \<Rightarrow> ('v enum_value, 'x dotos_decode_error) exec" where
  "generated_from_dotos_block d decode_payload codec block =
     (case demote_to_string d block of
        Some head \<Rightarrow>
          if head \<in> set (decode_unit_arms codec) then Ok (unit_value head)
          else Err (Failed (UnknownVariant (codec_enum codec) head))
      | None \<Rightarrow>
          and_then (returning (expect_children d block (codec_enum codec) 2)) (\<lambda>children.
          and_then (index_at children 0) (\<lambda>child.
          and_then (returning (ok_or (ExpectedAtom (codec_enum codec)) (demote_to_string d child)))
            (\<lambda>head.
            case map_of (decode_payload_arms codec) head of
              Some ty \<Rightarrow>
                and_then (index_at children 1) (\<lambda>child1.
                and_then (returning (decode_payload ty child1)) (\<lambda>payload.
                  Ok (payload_value head payload)))
            | None \<Rightarrow> Err (Failed (UnknownVariant (codec_enum codec) head))))))"

text \<open>
  \<open>has_type ty p\<close>: the payload \<open>p\<close> is a value of the Rust type \<open>ty\<close>.  The codec of a payload type is
  assumed to read back the values of that type, and to read only values of that type.
\<close>

definition payload_codec_law ::
  "(syn_type \<Rightarrow> 'v \<Rightarrow> bool) \<Rightarrow> (string \<Rightarrow> bool) \<Rightarrow> (string \<Rightarrow> 'b) \<Rightarrow> (syn_type \<Rightarrow> 'v \<Rightarrow> string)
     \<Rightarrow> (syn_type \<Rightarrow> 'b \<Rightarrow> ('v, 'x dotos_decode_error) result) \<Rightarrow> bool" where
  "payload_codec_law has_type block_text parse encode_payload decode_payload \<longleftrightarrow>
     (\<forall>ty v. has_type ty v \<longrightarrow>
        block_text (encode_payload ty v) \<and> decode_payload ty (parse (encode_payload ty v)) = Ok v)"

definition typed_value ::
  "(syn_type \<Rightarrow> 'v \<Rightarrow> bool) \<Rightarrow> (ident \<times> syn_type option) list \<Rightarrow> 'v enum_value \<Rightarrow> bool" where
  "typed_value has_type kinds v \<longleftrightarrow>
     (\<exists>ty. (variant_of v, ty) \<in> set kinds
        \<and> (case ty of None \<Rightarrow> payload_of v = None
           | Some t \<Rightarrow> (\<exists>p. payload_of v = Some p \<and> has_type t p)))"

lemma codec_lookup:
  assumes "distinct (map fst kinds)" "(name, ty) \<in> set kinds"
  shows "map_of kinds name = Some ty"
    and "ty = Some t \<Longrightarrow>
      map_of (decode_payload_arms (emit_payload_enum_codec enum kinds)) name = Some t"
    and "ty = None \<Longrightarrow> name \<in> set (decode_unit_arms (emit_payload_enum_codec enum kinds))"
proof -
  show "map_of kinds name = Some ty" using assms by simp
  show "map_of (decode_payload_arms (emit_payload_enum_codec enum kinds)) name = Some t" if "ty = Some t"
    using assms that unfolding emit_payload_enum_codec_def emitted_codec.simps
    by (induction kinds) (force simp: List.map_filter_simps split: option.splits)+
  show "name \<in> set (decode_unit_arms (emit_payload_enum_codec enum kinds))" if "ty = None"
    using assms(2) that by (force simp: emit_payload_enum_codec_def List.map_filter_def image_iff)
qed

lemma generated_codec_roundtrip:
  assumes "dotos_blocks_law block_text parse d"
    and "payload_codec_law has_type block_text parse encode_payload decode_payload"
    and "distinct (map fst kinds)" "typed_value has_type kinds v" "identifier_text (variant_of v)"
  shows "\<exists>text. generated_to_dotos d encode_payload (emit_payload_enum_codec enum kinds) v = Some text
    \<and> generated_from_dotos_block d decode_payload (emit_payload_enum_codec enum kinds) (parse text) = Ok v"
proof -
  obtain ty where ty: "(variant_of v, ty) \<in> set kinds"
      "case ty of None \<Rightarrow> payload_of v = None | Some t \<Rightarrow> (\<exists>p. payload_of v = Some p \<and> has_type t p)"
    using assms(4) by (auto simp: typed_value_def)
  have arms: "encode_arms (emit_payload_enum_codec enum kinds) = kinds"
    by (simp add: emit_payload_enum_codec_def)
  note look = codec_lookup [OF assms(3) ty(1)]
  note laws = dotos_blocks_lawD [OF assms(1)] assms(5)
  show ?thesis
  proof (cases ty)
    case None
    with ty(2) have "v = unit_value (variant_of v)" by (simp add: unit_value_def)
    with None ty(2) look(1,3) laws show ?thesis
      by (simp add: generated_to_dotos_def generated_from_dotos_block_def arms)
  next
    case (Some t)
    with ty(2) obtain p where p: "payload_of v = Some p" "has_type t p" by auto
    then have "v = payload_value (variant_of v) p" by (simp add: payload_value_def)
    with Some p look(1,2) laws assms(2) show ?thesis
      by (simp add: generated_to_dotos_def generated_from_dotos_block_def arms payload_codec_law_def)
  qed
qed

lemma generated_decode_never_panics:
  assumes "dotos_blocks_law block_text parse d"
  shows "never_panics (generated_from_dotos_block d decode_payload codec block)"
  unfolding generated_from_dotos_block_def
  by (auto intro!: never_panics_and_then simp: fault_iffs dest!: dotos_blocks_lawD(5) [OF assms]
      split: option.splits)

subsection \<open>Lemmas on indexes\<close>

lemma indexed_u8_nth: "indexed_u8 xs = map (\<lambda>i. (word_of_nat i, xs ! i)) [0..<length xs]"
  by (rule nth_equalityI) (simp_all add: indexed_u8_def nth_enumerate_eq)

lemma length_indexed_u8 [simp]: "length (indexed_u8 xs) = length xs"
  by (simp add: indexed_u8_nth)

lemma log_variant_arms_nth:
  "emit_log_variant_arms spec =
     map (\<lambda>i. (rv_name (request_variants (channel_request spec) ! i), word_of_nat i))
       [0..<length (request_variants (channel_request spec))]"
  by (simp add: emit_log_variant_arms_def indexed_u8_nth comp_def)

lemma map_of_distinct_nth:
  assumes "distinct (map key xs)" "i < length xs"
  shows "map_of (map (\<lambda>i. (key (xs ! i), g i)) [0..<length xs]) (key (xs ! i)) = Some (g i)"
proof -
  have "map fst (map (\<lambda>i. (key (xs ! i), g i)) [0..<length xs]) = map key xs"
    by (rule nth_equalityI) simp_all
  then have "distinct (map fst (map (\<lambda>i. (key (xs ! i), g i)) [0..<length xs]))"
    using assms(1) by simp
  then show ?thesis using assms(2) by (intro map_of_is_SomeI) auto
qed

lemma map_of_members:
  "map_of (map (\<lambda>x. (key x, val x)) xs) k = None \<longleftrightarrow> k \<notin> key ` set xs"
  by (induction xs) auto

lemma bytes_with_root:
  "u64_from_le_bytes ((replicate 8 0)[0 := b]) = ucast b"
  by (simp add: u64_from_le_bytes_def numeral_eq_Suc)

lemma log_variant_of_root_route:
  "log_variant_of_route (wire_route_new (RootCode b) (VariantCode 0)) = ucast b"
  by (simp add: log_variant_of_route_def wire_route_new_def)

definition root_of_arms :: "(ident \<times> u8) list \<Rightarrow> 'v enum_value \<Rightarrow> u8" where
  "root_of_arms arms v = (case map_of arms (variant_of v) of Some index \<Rightarrow> index | None \<Rightarrow> 0)"

lemma generated_log_variant_root: "generated_log_variant arms v = ucast (root_of_arms arms v)"
proof (cases "map_of arms (variant_of v)")
  case None
  have "u64_from_le_bytes (replicate 8 0) = ucast (0 :: u8)"
    using bytes_with_root [of 0] by (simp add: numeral_eq_Suc)
  with None show ?thesis by (simp add: generated_log_variant_def root_of_arms_def)
next
  case (Some b)
  then show ?thesis using bytes_with_root [of b] by (simp add: generated_log_variant_def root_of_arms_def)
qed

text \<open>The generated \<^verbatim>\<open>LogVariant\<close> is a route projection: byte 0 is the root, the variant is zero.\<close>

interpretation generated_routes: route_projection "generated_log_variant arms"
  "\<lambda>v. wire_route_new (RootCode (root_of_arms arms v)) (VariantCode 0)" for arms
  by unfold_locales (simp add: generated_log_variant_root log_variant_of_root_route)

subsection \<open>Routing exactly\<close>

lemma first_match_skip:
  "(\<And>a. a \<in> set as \<Longrightarrow> f a s = None) \<Longrightarrow> first_match (map f (as @ bs)) s = first_match (map f bs) s"
  by (induction as) auto

lemma route_arms_block:
  "emit_route_arms block =
     concat (map (\<lambda>i. [KindArm (word_of_nat i) (rv_name (request_variants block ! i)),
       UnknownVariantArm (word_of_nat i)]) [0..<length (request_variants block)])"
  by (simp add: emit_route_arms_def indexed_u8_nth comp_def)

lemma word_of_nat_u8_less: "i < unat (r :: u8) \<Longrightarrow> word_of_nat i \<noteq> r"
  using unsigned_less [of r] by (auto simp: unat_of_nat take_bit_nat_eq_self_iff)

lemma route_arms_reject:
  "word_of_nat i \<noteq> root \<Longrightarrow> a \<in> set [KindArm (word_of_nat i) name, UnknownVariantArm (word_of_nat i)] \<Longrightarrow>
     route_arm_accepts a (root, variant) = None"
  by auto

lemma route_kind_known:
  fixes root variant :: u8
  assumes "unat root < length (request_variants block)"
  shows "first_match (map route_arm_accepts (emit_route_arms block)) (root, variant) =
    Some (if variant = 0 then Ok (rv_name (request_variants block ! unat root))
      else Err (UnknownOperationVariant root variant))"
proof -
  let ?arms = "\<lambda>i. [KindArm (word_of_nat i) (rv_name (request_variants block ! i)),
       UnknownVariantArm (word_of_nat i :: u8)]"
  let ?n = "length (request_variants block)"
  have "[0..<?n] = [0..<unat root] @ unat root # [Suc (unat root)..<?n]"
    using assms upt_add_eq_append [of 0 "unat root" "?n - unat root"] by (simp add: upt_conv_Cons)
  then have split: "emit_route_arms block =
      concat (map ?arms [0..<unat root]) @ ?arms (unat root) @ concat (map ?arms [Suc (unat root)..<?n])"
    unfolding route_arms_block by simp
  have skip: "route_arm_accepts a (root, variant) = None" if "a \<in> set (concat (map ?arms [0..<unat root]))" for a
  proof -
    from that obtain i where "i < unat root" "a \<in> set (?arms i)" by auto
    then show ?thesis by (rule route_arms_reject [OF word_of_nat_u8_less])
  qed
  show ?thesis
    by (simp only: split first_match_skip [where f = route_arm_accepts, OF skip]) simp
qed

lemma route_kind_unknown:
  fixes root variant :: u8
  assumes "length (request_variants block) \<le> unat root"
  shows "first_match (map route_arm_accepts (emit_route_arms block)) (root, variant) = None"
proof -
  have "route_arm_accepts a (root, variant) = None" if "a \<in> set (emit_route_arms block)" for a
  proof -
    from that obtain i where "i < length (request_variants block)"
        "a \<in> set [KindArm (word_of_nat i) (rv_name (request_variants block ! i)),
          UnknownVariantArm (word_of_nat i)]"
      unfolding route_arms_block by auto
    moreover from this assms have "i < unat root" by simp
    ultimately show ?thesis using route_arms_reject [OF word_of_nat_u8_less] by blast
  qed
  then show ?thesis by (simp add: first_match_None_iff)
qed

lemma route_kind_exact:
  "route_kind_from_short_header (emit_route_arms block) h =
     (let root = root_code_value (route_root (header_route h));
          variant = variant_code_value (route_variant (header_route h))
      in if unat root < length (request_variants block)
         then if variant = 0 then Ok (rv_name (request_variants block ! unat root))
              else Err (UnknownOperationVariant root variant)
         else Err (UnknownOperationRoot root))"
  by (simp add: route_kind_from_short_header_def Let_def route_kind_known route_kind_unknown)

lemma root_of_arms_nth:
  assumes "distinct (map rv_name (request_variants (channel_request spec)))"
    and "i < length (request_variants (channel_request spec))"
    and "variant_of v = rv_name (request_variants (channel_request spec) ! i)"
  shows "root_of_arms (emit_log_variant_arms spec) v = word_of_nat i"
  using map_of_distinct_nth [OF assms(1,2), of "word_of_nat :: nat \<Rightarrow> u8"] assms(3)
  by (simp add: root_of_arms_def log_variant_arms_nth)

lemma generated_kind_iff:
  "generated_kind (emit_request_kind block) v = Some k \<longleftrightarrow>
     k = variant_of v \<and> k \<in> rv_name ` set (request_variants block)"
proof -
  have "map_of (map (\<lambda>v. (rv_name v, rv_name v)) vs) n = Some k \<longleftrightarrow> k = n \<and> k \<in> rv_name ` set vs"
    for vs n by (induction vs) auto
  then show ?thesis by (simp add: generated_kind_def emit_request_kind_def)
qed

subsection \<open>Stream witnesses\<close>

lemma opened_arms_map_of:
  "distinct (map rv_name vs) \<Longrightarrow> v \<in> set vs \<Longrightarrow>
     map_of (List.map_filter (\<lambda>v. map_option (\<lambda>target. (rv_name v, target)) (rv_opens v)) vs) (rv_name v)
       = rv_opens v"
proof (induction vs)
  case (Cons w ws)
  have absent: "map_of (List.map_filter (\<lambda>v. map_option (\<lambda>target. (rv_name v, target)) (rv_opens v)) ws) n
      = None" if "n \<notin> rv_name ` set ws" for n
    using that by (induction ws) (auto simp: List.map_filter_simps split: option.splits)
  show ?case
  proof (cases "v = w")
    case True
    then show ?thesis using Cons.prems absent [of "rv_name w"]
      by (auto simp: List.map_filter_simps split: option.splits)
  next
    case False
    with Cons.prems have "v \<in> set ws" by simp
    with Cons.prems have "rv_name v \<noteq> rv_name w" by (metis distinct.simps(2) image_eqI list.simps(9) set_map)
    with \<open>v \<in> set ws\<close> Cons show ?thesis by (auto simp: List.map_filter_simps split: option.splits)
  qed
qed simp

lemma closed_arms_first:
  "map_of (emit_closed_arms spec) name =
     map_option stream_name (find (\<lambda>s. stream_close s = name) (channel_streams spec))"
proof -
  have "map_of (map (\<lambda>s. (stream_close s, stream_name s)) ss) name =
     map_option stream_name (find (\<lambda>s. stream_close s = name) ss)" for ss
    by (induction ss) auto
  then show ?thesis by (simp add: emit_closed_arms_def)
qed

lemma event_arms_map_of:
  "distinct (map evt_name vs) \<Longrightarrow> v \<in> set vs \<Longrightarrow>
     map_of (map (\<lambda>v. (evt_name v, the (evt_belongs v))) vs) (evt_name v) = Some (the (evt_belongs v))"
  by (rule map_of_is_SomeI) (auto simp: comp_def)

lemma emitted_stream_tables:
  assumes "channel_wf spec" "emit spec = (Ok e :: (emitted_channel, 'e) exec)" "em_streams e = Some s"
  shows "opened_arms s = emit_opened_arms (augment_with_observable spec)"
    and "closed_arms s = emit_closed_arms (augment_with_observable spec)"
    and "v \<in> set (declared_events (augment_with_observable spec)) \<Longrightarrow> variant_of val = evt_name v \<Longrightarrow>
      event_stream_kind s val = evt_belongs v"
proof -
  let ?aug = "augment_with_observable spec"
  have wf: "channel_wf ?aug" by (rule augment_channel_wf [OF assms(1)])
  then have streams: "streams_wf ?aug" and names: "names_wf ?aug" by (simp_all add: channel_wf_def)
  from assms(2,3) have s: "emit_stream_kind_and_witnesses ?aug = (Ok s :: (_, 'e) exec)"
    by (auto simp: emit_def Let_def and_then_Inr_iff split: if_splits)
  then show "opened_arms s = emit_opened_arms ?aug" "closed_arms s = emit_closed_arms ?aug"
    by (auto simp: emit_stream_kind_and_witnesses_def and_then_Inr_iff)
  show "event_stream_kind s val = evt_belongs v"
    if v: "v \<in> set (declared_events ?aug)" "variant_of val = evt_name v"
  proof (cases "channel_event ?aug")
    case (Some b)
    have all: "\<forall>v \<in> set (event_variants b). evt_belongs v \<noteq> None"
      using streams_wf_belongs [OF streams] Some by auto
    then have "event_witness s = Some (event_name b,
        map (\<lambda>v. (evt_name v, the (evt_belongs v))) (event_variants b))"
      using s by (auto simp: emit_stream_kind_and_witnesses_def Some emit_event_arms_Ok)
    moreover have "map_of (map (\<lambda>v. (evt_name v, the (evt_belongs v))) (event_variants b)) (evt_name v)
        = Some (the (evt_belongs v))"
      by (rule event_arms_map_of) (use names v Some in \<open>simp_all add: names_wf_def\<close>)
    ultimately show ?thesis
      using v all Some by (auto simp: event_stream_kind_def)
  qed (use v in simp)
qed

subsection \<open>Properties\<close>

text \<open>
  C26.  The generated routing table answers exactly: the root of a header selects the operation at
  that position when there is one, the route's variant must then be zero, and each refusal names
  the bytes it read.
\<close>

theorem operation_route_exact:
  "route_kind_from_short_header (emit_route_arms block) (header_bound b r) =
     (let root = root_code_value (route_root r); variant = variant_code_value (route_variant r)
      in if unat root < length (request_variants block)
         then if variant = 0 then Ok (rv_name (request_variants block ! unat root))
              else Err (UnknownOperationVariant root variant)
         else Err (UnknownOperationRoot root))"
  by (simp add: route_kind_exact)

text \<open>
  C27.  In the code emitted for a validated channel, an operation opens exactly the stream it
  declares, an operation closes the first stream that names it as its \<^verbatim>\<open>close\<close>, and an event is of
  the stream it \<^verbatim>\<open>belongs\<close> to, for the injected observer stream as for the declared ones.
\<close>

theorem stream_witnesses_exact:
  assumes "validate spec = Ok ()" "emit spec = (Ok e :: (emitted_channel, 'e) exec)"
    and "em_streams e = Some s"
  shows "(v \<in> set (request_variants (channel_request (augment_with_observable spec)))
        \<and> variant_of operation = rv_name v \<longrightarrow> opened_stream s operation = rv_opens v)
    \<and> closed_stream s operation = map_option stream_name
        (find (\<lambda>st. stream_close st = variant_of operation)
          (channel_streams (augment_with_observable spec)))
    \<and> (ev \<in> set (declared_events (augment_with_observable spec))
        \<and> variant_of event = evt_name ev \<longrightarrow> event_stream_kind s event = evt_belongs ev)"
proof -
  have wf: "channel_wf spec" using assms(1) by (simp add: validate_Ok_iff)
  have names: "names_wf (augment_with_observable spec)"
    using augment_channel_wf [OF wf] by (simp add: channel_wf_def)
  show ?thesis
    using emitted_stream_tables [OF wf assms(2,3)] names
    by (auto simp: opened_stream_def closed_stream_def closed_arms_first emit_opened_arms_def
        names_wf_def opened_arms_map_of)
qed

theorem stream_witnesses_exact_witness:
  "\<exists>e s. emit ledger_channel = (Ok e :: (emitted_channel, syn_error) exec) \<and> em_streams e = Some s
    \<and> opened_stream s (payload_value ''Tap'' (0 :: nat)) = Some ''ObserverStream''
    \<and> closed_stream s (payload_value ''Untap'' (0 :: nat)) = Some ''ObserverStream''
    \<and> event_stream_kind s (payload_value ''EffectEmitted'' (0 :: nat)) = Some ''ObserverStream''"
proof -
  obtain e where e: "emit ledger_channel = (Ok e :: (emitted_channel, syn_error) exec)"
    using emit_wf_Ok [of ledger_channel] ledger_channel_valid by (auto simp: validate_Ok_iff)
  have "is_streaming (augment_with_observable ledger_channel)"
    by (simp add: augment_with_observable_def ledger_channel_def Let_def is_streaming_def)
  with e obtain s where s: "em_streams e = Some s"
    by (auto simp: emit_def Let_def and_then_Inr_iff)
  note * = stream_witnesses_exact [OF ledger_channel_valid e s]
  note tap = * [of "\<lparr>rv_name = ''Tap'', rv_payload = ''ObserverFilter'', rv_opens = Some ''ObserverStream''\<rparr>"
      "payload_value ''Tap'' (0 :: nat)"
      "\<lparr>evt_name = ''EffectEmitted'', evt_payload = ''EffectEmitted'', evt_belongs = Some ''ObserverStream''\<rparr>"
      "payload_value ''EffectEmitted'' (0 :: nat)"]
  have "closed_stream s (payload_value ''Untap'' (0 :: nat)) = Some ''ObserverStream''"
    using * [where operation = "payload_value ''Untap'' (0 :: nat)", THEN conjunct2, THEN conjunct1]
    by (simp add: payload_value_def augment_with_observable_def ledger_channel_def Let_def)
  with e s tap show ?thesis
    by (auto simp: payload_value_def augment_with_observable_def ledger_channel_def Let_def
        filter_ident_for_def event_records_def declared_events_def)
qed

text \<open>
  C29.  Every typed value of a generated payload enum, with or without payload, whose variant's name
  is an ASCII identifier, is read back from its DOTOS text to the same value when the codec of each
  payload type reads back the values of that type; and reading any block never panics on the child
  indexes.
\<close>

theorem enum_codec_roundtrip:
  assumes "dotos_blocks_law block_text parse d"
    and "payload_codec_law has_type block_text parse encode_payload decode_payload"
    and "distinct (map fst kinds)" "typed_value has_type kinds v" "identifier_text (variant_of v)"
  shows "(\<exists>text. generated_to_dotos d encode_payload (emit_payload_enum_codec enum kinds) v = Some text
      \<and> generated_from_dotos_block d decode_payload (emit_payload_enum_codec enum kinds) (parse text) = Ok v)
    \<and> never_panics (generated_from_dotos_block d decode_payload (emit_payload_enum_codec enum kinds) block)"
  using generated_codec_roundtrip [OF assms] generated_decode_never_panics [OF assms(1)] by blast

text \<open>
  Two payload types with different values, as the operations of the ledger have: a deposit is a
  number, written as that many strokes, and every other payload is a text.
\<close>

definition ledger_has_type :: "syn_type \<Rightarrow> nat + string \<Rightarrow> bool" where
  "ledger_has_type ty v \<longleftrightarrow> (case v of Inl _ \<Rightarrow> ty = ''Deposit'' | Inr _ \<Rightarrow> ty \<noteq> ''Deposit'')"

definition ledger_encode :: "syn_type \<Rightarrow> nat + string \<Rightarrow> string" where
  "ledger_encode ty v = (case v of Inl n \<Rightarrow> replicate n CHR ''1'' | Inr s \<Rightarrow> s)"

definition ledger_decode :: "syn_type \<Rightarrow> string \<Rightarrow> (nat + string, unit dotos_decode_error) result" where
  "ledger_decode ty block =
     (if ty = ''Deposit''
      then if list_all (\<lambda>c. c = CHR ''1'') block then Ok (Inl (length block)) else Err (DotosOther ())
      else Ok (Inr block))"

lemma ledger_payloads: "payload_codec_law ledger_has_type (\<lambda>_. True) (\<lambda>s. s) ledger_encode ledger_decode"
  by (auto simp: payload_codec_law_def ledger_has_type_def ledger_encode_def ledger_decode_def
      list_all_iff split: sum.splits)

theorem enum_codec_roundtrip_witness:
  "\<exists>text. generated_to_dotos text_blocks ledger_encode
       (emit_payload_enum_codec ''Operation'' (payload_kinds (channel_request ledger_channel)))
       (payload_value ''Deposit'' (Inl 3)) = Some text
     \<and> generated_from_dotos_block text_blocks ledger_decode
       (emit_payload_enum_codec ''Operation'' (payload_kinds (channel_request ledger_channel))) text
       = Ok (payload_value ''Deposit'' (Inl 3))"
proof -
  let ?kinds = "payload_kinds (channel_request ledger_channel)"
  have "distinct (map fst ?kinds)" "typed_value ledger_has_type ?kinds (payload_value ''Deposit'' (Inl 3))"
    "identifier_text (variant_of (payload_value ''Deposit'' (Inl 3 :: nat + string)))"
    by (simp_all add: payload_kinds_def ledger_channel_def typed_value_def payload_value_def
        ledger_has_type_def identifier_text_simps)
  from enum_codec_roundtrip [OF text_blocks_law ledger_payloads this, of "''Operation''"] show ?thesis by simp
qed

end
