(* ===== verification/Operation_Dispatch.thy ===== *)
theory Operation_Dispatch
  imports Channel_Runtime Frame_Codec
begin

text \<open>
  The generated wire ingress (\<^verbatim>\<open>emit_operation_dispatch\<close> and \<^verbatim>\<open>emit_frame_builders\<close> of
  \<^verbatim>\<open>macros/src/emit.rs\<close>), for the exchange frame and the streaming frame of a channel.  The
  component's handler is a function on its state \<open>'h\<close>; awaiting it is calling it.  The conversions
  \<^verbatim>\<open>From<OperationDispatchError>\<close> and \<^verbatim>\<open>From<FrameError>\<close> of the handler's error type are
  arguments.
\<close>

datatype 'v validated_operation = Validated (as_operation: "'v enum_value")

definition validated_kind :: "emitted_channel \<Rightarrow> 'v validated_operation \<Rightarrow> ident option" where
  "validated_kind em w = generated_kind (em_request_kind em) (as_operation w)"

text \<open>Everything \<^verbatim>\<open>dispatch\<close> does before it calls the handler.\<close>

definition dispatch_checks ::
  "emitted_channel \<Rightarrow> contract_binding \<Rightarrow> (operation_dispatch_error \<Rightarrow> 'e) \<Rightarrow> ('x frame_error \<Rightarrow> 'e)
     \<Rightarrow> short_header \<Rightarrow> 'v enum_value request option \<Rightarrow> ('v validated_operation, 'e) exec" where
  "dispatch_checks em binding from_dispatch from_frame short_header body =
     and_then (map_err (map_fault from_frame) (validate_header binding short_header)) (\<lambda>_.
     and_then (returning (ok_or (from_dispatch UnexpectedFrameBody) body)) (\<lambda>request.
     case ne_into_head_and_tail (req_payloads request) of (operation, tail) \<Rightarrow>
       if tail \<noteq> [] then Err (Failed (from_dispatch (MultipleOperations (1 + length tail))))
       else
         let actual_route = header_route short_header in
         and_then (returning (map_err from_dispatch
             (route_kind_from_short_header (em_route_arms em) short_header))) (\<lambda>expected_kind.
         and_then (expect (generated_kind (em_request_kind em) operation)) (\<lambda>actual_kind.
         if actual_kind \<noteq> expected_kind
         then Err (Failed (from_dispatch (HeaderOperationMismatch
             (root_code_value (route_root actual_route)) (kind_as_u8 (em_request_kind em) actual_kind))))
         else
           and_then (returning (map_err (\<lambda>e. from_frame (InvalidRoute e))
             (try_from_log_variant (generated_log_variant (em_log_variant_arms em) operation))))
             (\<lambda>expected_route.
           if expected_route \<noteq> actual_route
           then Err (Failed (from_dispatch (HeaderRouteMismatch expected_route actual_route)))
           else Ok (Validated operation))))))"

definition dispatch ::
  "emitted_channel \<Rightarrow> contract_binding \<Rightarrow> (operation_dispatch_error \<Rightarrow> 'e) \<Rightarrow> ('x frame_error \<Rightarrow> 'e)
     \<Rightarrow> ('v validated_operation \<Rightarrow> 'h \<Rightarrow> ('r, 'e) exec \<times> 'h)
     \<Rightarrow> short_header \<Rightarrow> 'v enum_value request option \<Rightarrow> 'h \<Rightarrow> ('r, 'e) exec \<times> 'h" where
  "dispatch em binding from_dispatch from_frame handle_validated short_header body st =
     (case dispatch_checks em binding from_dispatch from_frame short_header body of
        Err f \<Rightarrow> (Err f, st)
      | Ok operation \<Rightarrow> handle_validated operation st)"

fun exchange_body_request :: "('p, 'r) exchange_frame_body \<Rightarrow> 'p request option" where
  "exchange_body_request (ExRequest _ request) = Some request"
| "exchange_body_request _ = None"

fun streaming_body_request :: "('p, 'r, 'ev) streaming_frame_body \<Rightarrow> 'p request option" where
  "streaming_body_request (StRequest _ request) = Some request"
| "streaming_body_request _ = None"

definition exchange_dispatch where
  "exchange_dispatch em binding from_dispatch from_frame handle_validated frame st =
     dispatch em binding from_dispatch from_frame handle_validated
       (ex_short_header frame) (exchange_body_request (ex_body frame)) st"

definition streaming_dispatch where
  "streaming_dispatch em binding from_dispatch from_frame handle_validated frame st =
     dispatch em binding from_dispatch from_frame handle_validated
       (st_short_header frame) (streaming_body_request (st_body frame)) st"

text \<open>\<^verbatim>\<open>into_frame\<close> of the generated operation enum, for the two frame kinds.\<close>

definition exchange_into_frame ::
  "emitted_channel \<Rightarrow> contract_binding \<Rightarrow> exchange_identifier \<Rightarrow> 'v enum_value
     \<Rightarrow> (('v enum_value, 'r) bound_exchange_frame, wire_route_error) result" where
  "exchange_into_frame em binding exchange operation =
     (let request = request_from_payload operation in
      and_then (request_route (generated_log_variant (em_log_variant_arms em)) request) (\<lambda>route.
        Ok (exchange_frame_new binding route (ExRequest exchange request))))"

definition streaming_into_frame ::
  "emitted_channel \<Rightarrow> contract_binding \<Rightarrow> exchange_identifier \<Rightarrow> 'v enum_value
     \<Rightarrow> (('v enum_value, 'r, 'ev) bound_streaming_frame, wire_route_error) result" where
  "streaming_into_frame em binding exchange operation =
     (let request = request_from_payload operation in
      and_then (request_route (generated_log_variant (em_log_variant_arms em)) request) (\<lambda>route.
        Ok (streaming_frame_new binding route (StRequest exchange request))))"

subsection \<open>The tables of a validated channel\<close>

text \<open>The operations of a channel as emitted, the injected ones included.\<close>

definition emitted_operations :: "channel_spec \<Rightarrow> ident list" where
  "emitted_operations spec =
     map rv_name (request_variants (channel_request (augment_with_observable spec)))"

definition operation_route :: "nat \<Rightarrow> wire_route" where
  "operation_route i = wire_route_new (RootCode (word_of_nat i)) (VariantCode 0)"

lemma emitted_tables:
  assumes "emit spec = Ok e"
  shows "em_route_arms e = emit_route_arms (channel_request (augment_with_observable spec))"
    and "em_request_kind e = emit_request_kind (channel_request (augment_with_observable spec))"
    and "em_log_variant_arms e = emit_log_variant_arms (augment_with_observable spec)"
  using assms by (auto simp: emit_def Let_def and_then_Inr_iff)

lemma emitted_operations_distinct:
  "validate spec = Ok () \<Longrightarrow> distinct (emitted_operations spec)"
  using augment_channel_wf [of spec]
  by (simp add: validate_Ok_iff channel_wf_def names_wf_def emitted_operations_def)

lemma emitted_root:
  assumes "validate spec = Ok ()" "emit spec = Ok e"
    and "i < length (emitted_operations spec)" "variant_of v = emitted_operations spec ! i"
  shows "root_of_arms (em_log_variant_arms e) v = word_of_nat i"
  using emitted_operations_distinct [OF assms(1)] assms(3,4)
  by (simp add: emitted_tables [OF assms(2)] emitted_operations_def root_of_arms_nth)

lemma emitted_route_kind:
  assumes "emit spec = Ok e"
  shows "route_kind_from_short_header (em_route_arms e) h = Ok k \<longleftrightarrow>
    (\<exists>i < length (emitted_operations spec). i < 256 \<and> header_route h = operation_route i
       \<and> k = emitted_operations spec ! i)"
proof -
  let ?r = "header_route h"
  let ?ops = "emitted_operations spec"
  have "route_kind_from_short_header (em_route_arms e) h = Ok k \<longleftrightarrow>
     unat (root_code_value (route_root ?r)) < length ?ops \<and> variant_code_value (route_variant ?r) = 0
     \<and> k = ?ops ! unat (root_code_value (route_root ?r))"
    by (auto simp: emitted_tables [OF assms] route_kind_exact emitted_operations_def Let_def)
  also have "\<dots> \<longleftrightarrow> (\<exists>i < length ?ops. i < 256 \<and> ?r = operation_route i \<and> k = ?ops ! i)"
  proof
    assume l: "unat (root_code_value (route_root ?r)) < length ?ops
      \<and> variant_code_value (route_variant ?r) = 0 \<and> k = ?ops ! unat (root_code_value (route_root ?r))"
    then have "route_variant ?r = VariantCode 0"
      by (metis VariantCode_value)
    then have "?r = operation_route (unat (root_code_value (route_root ?r)))"
      by (simp add: operation_route_def wire_route_new_def)
    moreover have "unat (root_code_value (route_root ?r)) < 256"
      using unsigned_less [of "root_code_value (route_root ?r)"] by simp
    ultimately show "\<exists>i < length ?ops. i < 256 \<and> ?r = operation_route i \<and> k = ?ops ! i"
      using l by blast
  qed (auto simp: operation_route_def wire_route_new_def unat_of_nat take_bit_nat_eq_self_iff)
  finally show ?thesis .
qed

text \<open>What dispatch accepts: one operation of the channel, under the header of its own route.\<close>

definition accepts_operation ::
  "channel_spec \<Rightarrow> contract_binding \<Rightarrow> short_header \<Rightarrow> 'v enum_value request option
     \<Rightarrow> 'v enum_value \<Rightarrow> bool" where
  "accepts_operation spec binding h body operation \<longleftrightarrow>
     (\<exists>i < length (emitted_operations spec).
        i < 256 \<and> h = header_bound binding (operation_route i)
        \<and> variant_of operation = emitted_operations spec ! i)
     \<and> (\<exists>request. body = Some request \<and> req_payloads request = ne_single operation)"

subsection \<open>Dispatch accepts exactly these\<close>

lemma single_head_and_tail:
  "ne_into_head_and_tail ps = (operation, []) \<longleftrightarrow> ps = ne_single operation"
  by (cases ps) (auto simp: ne_into_head_and_tail_def ne_single_def)

lemma emitted_expected_route:
  assumes "validate spec = Ok ()" "emit spec = Ok e"
    and "i < length (emitted_operations spec)" "variant_of v = emitted_operations spec ! i"
  shows "try_from_log_variant (generated_log_variant (em_log_variant_arms e) v) = Ok (operation_route i)"
  by (simp add: generated_routes.projects emitted_root [OF assms] operation_route_def)

lemma emitted_kind_member:
  assumes "emit spec = Ok e"
  shows "generated_kind (em_request_kind e) v = Some k \<longleftrightarrow>
    k = variant_of v \<and> k \<in> set (emitted_operations spec)"
  by (simp add: emitted_tables [OF assms] generated_kind_iff emitted_operations_def)

lemma dispatch_checks_accepted:
  assumes "validate spec = Ok ()" "emit spec = Ok e" "accepts_operation spec b h body operation"
  shows "dispatch_checks e b fd ff h body = Ok (Validated operation)"
proof -
  obtain i request where i: "i < length (emitted_operations spec)" "i < 256"
    and h: "h = header_bound b (operation_route i)"
    and v: "variant_of operation = emitted_operations spec ! i"
    and body: "body = Some request" "req_payloads request = ne_single operation"
    using assms(3) by (auto simp: accepts_operation_def)
  have "route_kind_from_short_header (em_route_arms e) h = Ok (emitted_operations spec ! i)"
    using i by (auto simp: emitted_route_kind [OF assms(2)] h)
  moreover have "generated_kind (em_request_kind e) operation = Some (emitted_operations spec ! i)"
    using i by (simp add: emitted_kind_member [OF assms(2)] v)
  moreover have "ne_into_head_and_tail (ne_single operation) = (operation, [])"
    by (simp add: single_head_and_tail)
  ultimately show ?thesis
    using emitted_expected_route [OF assms(1,2) i(1) v]
    by (simp add: dispatch_checks_def body h)
qed

lemma dispatch_checks_sound:
  assumes "validate spec = Ok ()" "emit spec = Ok e" "dispatch_checks e b fd ff h body = Ok w"
  shows "accepts_operation spec b h body (as_operation w)"
proof -
  from assms(3) obtain route request k where
      h: "h = header_bound b route" and body: "body = Some request"
    and ps: "ne_tail (req_payloads request) = []"
    and rk: "route_kind_from_short_header (em_route_arms e) h = Ok k"
    and kind: "generated_kind (em_request_kind e) (ne_head (req_payloads request)) = Some k"
    and w: "w = Validated (ne_head (req_payloads request))"
    by (auto simp: dispatch_checks_def ne_into_head_and_tail_def and_then_Inr_iff returning_Inr_iff
        map_err_Inr_iff ok_or_Inr_iff expect_Inr_iff validate_header_Ok_iff Let_def split: if_splits)
  from rk obtain i where i: "i < length (emitted_operations spec)" "i < 256"
      "header_route h = operation_route i" "k = emitted_operations spec ! i"
    by (auto simp: emitted_route_kind [OF assms(2)])
  then have "h = header_bound b (operation_route i)" using h by simp
  moreover have "variant_of (ne_head (req_payloads request)) = emitted_operations spec ! i"
    using kind i(4) by (simp add: emitted_kind_member [OF assms(2)])
  moreover have "req_payloads request = ne_single (ne_head (req_payloads request))"
    using ps by (auto simp: ne_tail_empty_iff ne_single_def)
  ultimately show ?thesis
    using i(1,2) body w by (auto simp: accepts_operation_def)
qed

text \<open>Dispatch panics on no frame whose operation is a value of the enum.\<close>

lemma dispatch_checks_never_panics:
  assumes "emit spec = Ok e" "header_wf h"
    and "\<And>request. body = Some request \<Longrightarrow>
      variant_of (ne_head (req_payloads request)) \<in> set (emitted_operations spec)"
  shows "never_panics (dispatch_checks e b fd ff h body)"
proof -
  have kind: "generated_kind (em_request_kind e) (ne_head (req_payloads request))
      = Some (variant_of (ne_head (req_payloads request)))" if "body = Some request" for request
    using assms(3) [OF that] by (simp add: emitted_kind_member [OF assms(1)])
  show ?thesis
    unfolding dispatch_checks_def
    by (auto simp: Let_def ne_into_head_and_tail_def ok_or_Inr_iff returning_Inr_iff kind
        validate_header_never_panics assms(2) intro!: never_panics_and_then)
qed

lemma dispatch_exact:
  assumes "validate spec = Ok ()" "emit spec = Ok e"
  shows "(\<exists>operation. accepts_operation spec b h body operation
      \<and> dispatch e b fd ff handler h body st = handler (Validated operation) st)
    \<or> ((\<nexists>operation. accepts_operation spec b h body operation)
      \<and> (\<exists>f. dispatch e b fd ff handler h body st = (Err f, st)))"
proof (cases "\<exists>operation. accepts_operation spec b h body operation")
  case True
  then obtain operation where acc: "accepts_operation spec b h body operation" ..
  from dispatch_checks_accepted [OF assms acc, of fd ff]
  have "dispatch e b fd ff handler h body st = handler (Validated operation) st"
    by (simp add: dispatch_def)
  with acc show ?thesis by blast
next
  case False
  then have "\<exists>f. dispatch_checks e b fd ff h body = Err f"
    using dispatch_checks_sound [OF assms, of b fd ff h body]
    by (cases "dispatch_checks e b fd ff h body") auto
  with False show ?thesis by (auto simp: dispatch_def)
qed

subsection \<open>Dispatching what the generated builders build\<close>

lemma into_frame_route:
  assumes "validate spec = Ok ()" "emit spec = Ok e"
    and "i < length (emitted_operations spec)" "variant_of v = emitted_operations spec ! i"
  shows "request_route (generated_log_variant (em_log_variant_arms e)) (request_from_payload v)
    = Ok (operation_route i)"
  by (simp add: generated_routes.request_routed request_from_payload_def ne_single_def
      emitted_root [OF assms] operation_route_def)

lemma word_u8_mod: "(word_of_nat (i mod 256) :: u8) = word_of_nat i"
  by (simp add: word_unat_eq_iff unat_of_nat take_bit_eq_mod)

lemma operation_route_mod: "operation_route (i mod 256) = operation_route i"
  by (simp add: operation_route_def word_u8_mod)

lemma takeWhile_distinct:
  "distinct xs \<Longrightarrow> i < length xs \<Longrightarrow> length (takeWhile (\<lambda>x. x \<noteq> xs ! i) xs) = i"
proof (induction xs arbitrary: i)
  case (Cons x xs)
  then show ?case by (cases i) (auto dest: nth_mem)
qed simp

lemma emitted_kind_as_u8:
  assumes "validate spec = Ok ()" "emit spec = Ok e" "i < length (emitted_operations spec)"
  shows "kind_as_u8 (em_request_kind e) (emitted_operations spec ! i) = word_of_nat i"
  using takeWhile_distinct [OF emitted_operations_distinct [OF assms(1)] assms(3)]
  by (simp add: kind_as_u8_def emitted_tables [OF assms(2)] emit_request_kind_def emitted_operations_def)

lemma dispatch_checks_built:
  assumes "validate spec = Ok ()" "emit spec = Ok e"
    and "i < length (emitted_operations spec)" "variant_of v = emitted_operations spec ! i"
  shows "dispatch_checks e b fd ff (header_bound b (operation_route i)) (Some (request_from_payload v)) =
    (if i < 256 then Ok (Validated v)
     else Err (Failed (fd (HeaderOperationMismatch (word_of_nat i) (word_of_nat i)))))"
proof (cases "i < 256")
  case True
  have "accepts_operation spec b (header_bound b (operation_route i)) (Some (request_from_payload v)) v"
    using True assms(3,4) by (auto simp: accepts_operation_def request_from_payload_def)
  then show ?thesis using True dispatch_checks_accepted [OF assms(1,2)] by simp
next
  case False
  let ?j = "i mod 256"
  let ?h = "header_bound b (operation_route i)"
  have j: "?j < length (emitted_operations spec)" "?j < 256" "?j \<noteq> i"
    using False assms(3) mod_less_divisor [of 256 i] by (auto simp del: mod_less_divisor)
  have "route_kind_from_short_header (em_route_arms e) ?h = Ok (emitted_operations spec ! ?j)"
    using j by (auto simp: emitted_route_kind [OF assms(2)] operation_route_mod
        intro!: exI [of _ ?j])
  moreover have "emitted_operations spec ! i \<noteq> emitted_operations spec ! ?j"
    using emitted_operations_distinct [OF assms(1)] assms(3) j by (simp add: nth_eq_iff_index_eq)
  moreover have "generated_kind (em_request_kind e) v = Some (emitted_operations spec ! i)"
    using assms(3) by (simp add: emitted_kind_member [OF assms(2)] assms(4))
  moreover have "ne_into_head_and_tail (ne_single v) = (v, [])"
    by (simp add: single_head_and_tail)
  ultimately show ?thesis
    using False emitted_kind_as_u8 [OF assms(1-3)]
    by (simp add: dispatch_checks_def request_from_payload_def Let_def)
      (simp add: operation_route_def wire_route_new_def)
qed

lemma dispatch_built:
  assumes "validate spec = Ok ()" "emit spec = Ok e"
    and "i < length (emitted_operations spec)" "variant_of v = emitted_operations spec ! i"
  shows "dispatch e b fd ff handler (header_bound b (operation_route i)) (Some (request_from_payload v)) st =
    (if i < 256 then handler (Validated v) st
     else (Err (Failed (fd (HeaderOperationMismatch (word_of_nat i) (word_of_nat i)))), st))"
  by (simp add: dispatch_def dispatch_checks_built [OF assms])

subsection \<open>Properties\<close>

text \<open>
  C3.  The handler of a validated channel runs on no operation but the one a frame carries alone,
  under the channel's own binding and under the route of that operation's position; for every
  other frame, exchange or streaming, dispatch returns an error and leaves the handler's state
  untouched.
\<close>

theorem dispatch_only_validated:
  assumes "validate spec = Ok ()" "emit spec = (Ok e :: (emitted_channel, syn_error) exec)"
  shows "((\<exists>operation. accepts_operation spec b (ex_short_header f) (exchange_body_request (ex_body f)) operation
        \<and> exchange_dispatch e b fd ff handler f st = handler (Validated operation) st)
      \<or> ((\<nexists>operation. accepts_operation spec b (ex_short_header f) (exchange_body_request (ex_body f)) operation)
        \<and> (\<exists>fault. exchange_dispatch e b fd ff handler f st = (Err fault, st))))
    \<and> ((\<exists>operation. accepts_operation spec b (st_short_header g) (streaming_body_request (st_body g)) operation
        \<and> streaming_dispatch e b fd ff handler g st = handler (Validated operation) st)
      \<or> ((\<nexists>operation. accepts_operation spec b (st_short_header g) (streaming_body_request (st_body g)) operation)
        \<and> (\<exists>fault. streaming_dispatch e b fd ff handler g st = (Err fault, st))))"
  unfolding exchange_dispatch_def streaming_dispatch_def
  using dispatch_exact [OF assms] by (intro conjI)

text \<open>
  C4.  Dispatch is the inverse of \<^verbatim>\<open>into_frame\<close>: the frame built from the operation at position
  \<open>i\<close> reaches the handler with that operation, for the first 256 operations of a channel.  At
  position 256 and beyond the position is cut to its low byte, and dispatch refuses the channel's
  own frame with a mismatch that names the same byte twice.
\<close>

theorem built_frames_dispatch:
  assumes "validate spec = Ok ()" "emit spec = (Ok e :: (emitted_channel, syn_error) exec)"
    and "i < length (emitted_operations spec)" "variant_of v = emitted_operations spec ! i"
  shows "(\<exists>f. exchange_into_frame e b exchange v = Ok f
      \<and> exchange_dispatch e b fd ff handler f st =
        (if i < 256 then handler (Validated v) st
         else (Err (Failed (fd (HeaderOperationMismatch (word_of_nat i) (word_of_nat i)))), st)))
    \<and> (\<exists>g. streaming_into_frame e b exchange v = Ok g
      \<and> streaming_dispatch e b fd ff handler g st =
        (if i < 256 then handler (Validated v) st
         else (Err (Failed (fd (HeaderOperationMismatch (word_of_nat i) (word_of_nat i)))), st)))"
  by (simp add: exchange_into_frame_def streaming_into_frame_def into_frame_route [OF assms]
      exchange_dispatch_def streaming_dispatch_def exchange_frame_new_def streaming_frame_new_def
      dispatch_built [OF assms])

subsection \<open>Witnesses\<close>

lemma ledger_emits: "\<exists>e. emit ledger_channel = (Ok e :: (emitted_channel, syn_error) exec)"
  using emit_wf_Ok ledger_channel_valid by (auto simp: validate_Ok_iff)

lemma ledger_operations:
  "emitted_operations ledger_channel = [''Deposit'', ''Balance'', ''Tap'', ''Untap'']"
  by (simp add: emitted_operations_def augment_with_observable_def ledger_channel_def Let_def)

definition test_binding :: contract_binding where
  "test_binding = contract_binding_new (ContractId (nonzero_u32_of 7)) (WireRevision (nonzero_u16_of 1))"

definition test_handler :: "nat validated_operation \<Rightarrow> nat \<Rightarrow> (ident, string) exec \<times> nat" where
  "test_handler w n = (Ok (variant_of (as_operation w)), n + 1)"

theorem dispatch_only_validated_witness:
  "\<exists>e. emit ledger_channel = (Ok e :: (emitted_channel, syn_error) exec)
    \<and> (\<exists>fault. exchange_dispatch e test_binding operation_dispatch_error_display frame_error_display
        test_handler (exchange_frame_new test_binding (operation_route 9)
          (ExRequest (exchange_identifier_new (SessionEpoch 0) Connector lane_sequence_first)
            (request_from_payload (payload_value ''Balance'' 3))) :: (nat enum_value, unit) bound_exchange_frame) 5
       = (Err fault, 5))"
proof -
  obtain e where e: "emit ledger_channel = (Ok e :: (emitted_channel, syn_error) exec)"
    using ledger_emits by blast
  let ?f = "exchange_frame_new test_binding (operation_route 9)
          (ExRequest (exchange_identifier_new (SessionEpoch 0) Connector lane_sequence_first)
            (request_from_payload (payload_value ''Balance'' 3))) :: (nat enum_value, unit) bound_exchange_frame"
  have "(word_of_nat i :: u8) \<noteq> 9" if "i < 4" for i
    using that by (auto simp: word_unat_eq_iff unat_of_nat take_bit_nat_eq_self_iff)
  then have "\<not> accepts_operation ledger_channel test_binding (ex_short_header ?f)
      (exchange_body_request (ex_body ?f)) operation" for operation
    by (auto simp: accepts_operation_def exchange_frame_new_def ledger_operations operation_route_def
        wire_route_new_def)
  with dispatch_only_validated [OF ledger_channel_valid e, of test_binding ?f
      operation_dispatch_error_display frame_error_display test_handler 5] e
  show ?thesis by blast
qed

theorem built_frames_dispatch_witness:
  "\<exists>e f. emit ledger_channel = (Ok e :: (emitted_channel, syn_error) exec)
    \<and> streaming_into_frame e test_binding
        (exchange_identifier_new (SessionEpoch 0) Connector lane_sequence_first)
        (payload_value ''Balance'' 3) = Ok (f :: (nat enum_value, unit, unit) bound_streaming_frame)
    \<and> streaming_dispatch e test_binding operation_dispatch_error_display frame_error_display
        test_handler f 5 = (Ok ''Balance'', 6)"
proof -
  obtain e where e: "emit ledger_channel = (Ok e :: (emitted_channel, syn_error) exec)"
    using ledger_emits by blast
  have i: "(1 :: nat) < length (emitted_operations ledger_channel)"
    "variant_of (payload_value ''Balance'' (3 :: nat)) = emitted_operations ledger_channel ! 1"
    by (simp_all add: ledger_operations payload_value_def)
  from built_frames_dispatch [OF ledger_channel_valid e i, of test_binding
      "exchange_identifier_new (SessionEpoch 0) Connector lane_sequence_first"
      operation_dispatch_error_display frame_error_display test_handler 5]
  show ?thesis using e by (auto simp: test_handler_def payload_value_def)
qed

text \<open>A channel with 257 operations.\<close>

definition wide_channel :: channel_spec where
  "wide_channel =
     \<lparr>channel_name = ''Wide'', channel_contract = ''Contract'',
      channel_request = \<lparr>request_name = ''Operation'', request_variants =
        map (\<lambda>i. \<lparr>rv_name = replicate (Suc i) CHR ''A'', rv_payload = ''u64'', rv_opens = None\<rparr>) [0..<257]\<rparr>,
      channel_reply = \<lparr>reply_name = ''Reply'', reply_variants = [\<lparr>yv_name = ''Done'', yv_payload = None\<rparr>]\<rparr>,
      channel_event = None, channel_streams = [], channel_observable = None\<rparr>"

text \<open>
  The macro validates and emits a channel with 257 operations although a route has one byte for
  the operation: the frame that \<^verbatim>\<open>into_frame\<close> builds for the last operation carries the route of
  the first, and the channel's own dispatch refuses it, whatever the payload and the handler.
\<close>

theorem wide_channel_refuses_its_last_operation:
  "validate wide_channel = Ok ()
   \<and> (\<exists>e f. emit wide_channel = (Ok e :: (emitted_channel, syn_error) exec)
      \<and> exchange_into_frame e b exchange (payload_value (replicate 257 CHR ''A'') x)
          = Ok (f :: ('v enum_value, 'r) bound_exchange_frame)
      \<and> exchange_dispatch e b fd ff handler f st = (Err (Failed (fd (HeaderOperationMismatch 0 0))), st))"
proof -
  have names: "map rv_name (request_variants (channel_request wide_channel))
      = map (\<lambda>i. replicate (Suc i) CHR ''A'') [0..<257]"
    by (simp add: wide_channel_def comp_def del: upt_Suc)
  have "distinct (map (\<lambda>i. replicate (Suc i) CHR ''A'') [0..<257])"
    by (simp only: distinct_map distinct_upt inj_on_def) (metis length_replicate nat.inject)
  then have valid: "validate wide_channel = Ok ()"
    by (simp add: validate_Ok_iff channel_wf_def observable_wf_def names_wf_def names streams_wf_def
        del: upt_Suc) (simp add: wide_channel_def del: upt_Suc)
  have ops: "emitted_operations wide_channel = map (\<lambda>i. replicate (Suc i) CHR ''A'') [0..<257]"
    by (simp only: emitted_operations_def augment_unobserved names)
      (simp add: names augment_unobserved wide_channel_def comp_def del: upt_Suc)
  obtain e where e: "emit wide_channel = (Ok e :: (emitted_channel, syn_error) exec)"
    using emit_wf_Ok valid by (auto simp: validate_Ok_iff)
  have i: "256 < length (emitted_operations wide_channel)"
    "variant_of (payload_value (replicate 257 CHR ''A'') x) = emitted_operations wide_channel ! 256"
    by (simp_all add: ops payload_value_def nth_map_upt del: upt_Suc replicate_Suc)
  have low_byte: "(256 :: u8) = 0" by simp
  from dispatch_built [OF valid e i, of b fd ff handler st] valid e show ?thesis
    by (simp add: exchange_into_frame_def into_frame_route [OF valid e i] exchange_dispatch_def
        exchange_frame_new_def low_byte del: replicate_Suc)
qed

end
