(* ===== verification/Refusals.thy ===== *)
theory Refusals
  imports Operation_Dispatch
begin

text \<open>
  Every error of the two gates of a daemon, exactly and in order: the decoding of a length-prefixed
  message (\<^verbatim>\<open>src/frame.rs\<close>, \<^verbatim>\<open>src/binding.rs\<close>) and the generated dispatch
  (\<^verbatim>\<open>emit_operation_dispatch\<close> of \<^verbatim>\<open>macros/src/emit.rs\<close>).  Each gate is shown equal to a reference
  definition that lists its refusals as guards on the bytes, or on the header and the declaration.
\<close>

subsection \<open>Decoding\<close>

text \<open>The header of a message is its bytes 4 to 11; the archive is what follows.\<close>

definition message_header :: "u8 list \<Rightarrow> short_header" where
  "message_header bytes = ShortHeader (u64_from_le_bytes (take 8 (drop 4 bytes)))"

definition message_refusal :: "contract_binding \<Rightarrow> u8 list \<Rightarrow> 'x frame_error option" where
  "message_refusal b bytes =
     (let announced = unat (u32_from_be_bytes (take 4 bytes)); found = length bytes - 4 in
      if length bytes < 4 then Some ShortLengthPrefix
      else if found \<noteq> announced then Some (LengthMismatch announced found)
      else if found < 8 then Some (ShortHeaderTooShort found)
      else case header_binding (message_header bytes) :: (contract_binding, unit) exec of
          Err _ \<Rightarrow> Some UnboundHeader
        | Ok c \<Rightarrow>
            if contract c \<noteq> contract b then Some (ContractMismatch (contract b) (contract c))
            else if revision c \<noteq> revision b
            then Some (UnsupportedWireRevision (contract b) (revision b) (revision c))
            else None)"

definition message_outcome ::
  "contract_binding \<Rightarrow> (u8 list \<Rightarrow> ('v, 'x) result) \<Rightarrow> (wire_route \<Rightarrow> 'v \<Rightarrow> 'f) \<Rightarrow> u8 list
     \<Rightarrow> ('f, 'x frame_error) exec" where
  "message_outcome b deserialize mk bytes =
     (case message_refusal b bytes of
        Some e \<Rightarrow> Err (Failed e)
      | None \<Rightarrow>
          (case deserialize (drop 12 bytes) of
             Err x \<Rightarrow> Err (Failed (ArchiveDeserialize x))
           | Ok v \<Rightarrow> Ok (mk (header_route (message_header bytes)) v)))"

lemma message_header_bound:
  "message_header (prefix @ bound_archive c r archive) = header_bound c r" if "length prefix = 4"
proof -
  have "ShortHeader (header_value h) = h" for h by (cases h) simp
  with that show ?thesis
    by (simp add: message_header_def bound_archive_def header_to_le_bytes_def)
qed

context bound_frame
begin

lemma decode_prefixed_outcome: "decode_prefixed b de bytes = message_outcome b de (construct b) bytes"
proof (cases "strip_length_prefix bytes :: (u8 list, 'x frame_error) result")
  case (Inl e)
  then have "decode_prefixed b de bytes = Err (Failed e)"
    by (simp add: decode_prefixed_frame)
  with Inl [unfolded strip_length_prefix_Err_iff] show ?thesis
    by (auto simp: message_outcome_def message_refusal_def Let_def)
next
  case (Inr archive)
  then obtain prefix where prefix: "bytes = prefix @ archive" "length prefix = 4"
      "unat (u32_from_be_bytes prefix) = length archive"
    by (auto simp: strip_length_prefix_Ok_iff)
  have decoded: "decode_prefixed b de bytes = decode b de archive"
    by (simp add: decode_prefixed_frame Inr)
  show ?thesis
  proof (cases rule: archive_cases [of archive])
    case short
    then show ?thesis
      unfolding decoded
      by (simp add: decode_frame decode_archive_with_short message_outcome_def message_refusal_def
          Let_def prefix)
  next
    case unbound
    have "message_header bytes = ShortHeader (raw_value (raw_from_le_bytes (take 8 archive)))"
      by (simp add: message_header_def prefix raw_from_le_bytes_def)
    with unbound(2) have "header_binding (message_header bytes) = (Err Panicked :: (contract_binding, unit) exec)"
      by (simp add: header_binding_panic_iff)
    with unbound show ?thesis
      unfolding decoded
      by (simp add: decode_frame decode_archive_with_unbound message_outcome_def message_refusal_def
          Let_def prefix)
  next
    case (bound c r body)
    have "message_header bytes = header_bound c r"
      unfolding prefix bound by (rule message_header_bound [OF prefix(2)])
    moreover have "drop 12 bytes = body"
      by (simp add: prefix bound bound_archive_def)
    moreover have "\<not> length (bound_archive c r body) < 8" by (simp add: not_less)
    ultimately show ?thesis
      unfolding decoded bound decode_bound
      by (simp add: message_outcome_def message_refusal_def Let_def prefix bound split: sum.splits)
  qed
qed

end

subsection \<open>Dispatch\<close>

text \<open>
  The verdict on a frame of the binding \<open>c\<close> and the route \<open>r\<close>, in terms of the declaration:
  \<open>ops\<close> are the operations of the channel as emitted.
\<close>

definition dispatch_refusal ::
  "ident list \<Rightarrow> contract_binding \<Rightarrow> (operation_dispatch_error \<Rightarrow> 'e) \<Rightarrow> ('x frame_error \<Rightarrow> 'e)
     \<Rightarrow> contract_binding \<Rightarrow> wire_route \<Rightarrow> 'v enum_value request option \<Rightarrow> ('v validated_operation, 'e) result" where
  "dispatch_refusal ops b fd ff c r body =
     (let root = root_code_value (route_root r); variant = variant_code_value (route_variant r) in
      if contract c \<noteq> contract b then Err (ff (ContractMismatch (contract b) (contract c)))
      else if revision c \<noteq> revision b
      then Err (ff (UnsupportedWireRevision (contract b) (revision b) (revision c)))
      else case body of
          None \<Rightarrow> Err (fd UnexpectedFrameBody)
        | Some request \<Rightarrow>
            let v = ne_head (req_payloads request) in
            if ne_tail (req_payloads request) \<noteq> []
            then Err (fd (MultipleOperations (ne_len (req_payloads request))))
            else if length ops \<le> unat root then Err (fd (UnknownOperationRoot root))
            else if variant \<noteq> 0 then Err (fd (UnknownOperationVariant root variant))
            else if variant_of v \<noteq> ops ! unat root
            then Err (fd (HeaderOperationMismatch root
              (word_of_nat (length (takeWhile (\<lambda>n. n \<noteq> variant_of v) ops)))))
            else Ok (Validated v))"

definition typed_body :: "ident list \<Rightarrow> 'v enum_value request option \<Rightarrow> bool" where
  "typed_body ops body \<longleftrightarrow>
     (case body of None \<Rightarrow> True | Some request \<Rightarrow> variant_of (ne_head (req_payloads request)) \<in> set ops)"

lemma dispatch_checks_refusal:
  assumes "validate spec = Ok ()" "emit spec = Ok e"
    and "typed_body (emitted_operations spec) body"
  shows "dispatch_checks e b fd ff (header_bound c r) body
    = returning (dispatch_refusal (emitted_operations spec) b fd ff c r body)"
proof -
  have route: "route_kind_from_short_header (em_route_arms e) (header_bound c r) =
      (let root = root_code_value (route_root r); variant = variant_code_value (route_variant r)
       in if unat root < length (emitted_operations spec)
          then if variant = 0 then Ok (emitted_operations spec ! unat root)
               else Err (UnknownOperationVariant root variant)
          else Err (UnknownOperationRoot root))" for c
    by (simp add: emitted_tables [OF assms(2)] route_kind_exact emitted_operations_def Let_def)
  have position: "kind_as_u8 (em_request_kind e) name
      = word_of_nat (length (takeWhile (\<lambda>n. n \<noteq> name) (emitted_operations spec)))" for name
    by (simp add: kind_as_u8_def emitted_tables [OF assms(2)] emit_request_kind_def emitted_operations_def)
  have own_route: "try_from_log_variant (generated_log_variant (em_log_variant_arms e) v) = Ok r"
    if "unat (root_code_value (route_root r)) < length (emitted_operations spec)"
      "variant_code_value (route_variant r) = 0"
      "variant_of v = emitted_operations spec ! unat (root_code_value (route_root r))" for v :: "'v enum_value"
  proof -
    have "route_variant r = VariantCode 0" using that(2) by (metis VariantCode_value)
    then have "operation_route (unat (root_code_value (route_root r))) = r"
      by (simp add: operation_route_def wire_route_new_def)
    then show ?thesis
      using emitted_expected_route [OF assms(1,2) that(1,3)] by simp
  qed
  show ?thesis
  proof (cases "c = b")
    case False
    then have "contract c \<noteq> contract b \<or> revision c \<noteq> revision b" using binding_equality by blast
    then show ?thesis by (auto simp: dispatch_checks_def dispatch_refusal_def Let_def)
  next
    case True
    show ?thesis
    proof (cases body)
      case None
      with True show ?thesis by (simp add: dispatch_checks_def dispatch_refusal_def)
    next
      case (Some request)
      have "generated_kind (em_request_kind e) (ne_head (req_payloads request))
          = Some (variant_of (ne_head (req_payloads request)))"
        using assms(3) by (simp add: Some typed_body_def emitted_kind_member [OF assms(2)])
      then show ?thesis
        using own_route [of "ne_head (req_payloads request)"]
        by (auto simp: dispatch_checks_def dispatch_refusal_def True Some ne_into_head_and_tail_def
            ne_len_def Let_def route position)
    qed
  qed
qed

subsection \<open>Properties\<close>

text \<open>
  C11.  Decoding a length-prefixed message refuses for exactly one reason, the first of: fewer than
  four bytes, a length other than announced, no room for a header, a header without a binding,
  another contract, another revision, and then the archive library's own error; otherwise it
  gives the frame of the header's route and the archived body.  The same guards hold for both kinds
  of frame, and no input panics.
\<close>

theorem decode_errors_exact:
  "exchange_frame_decode_length_prefixed b de bytes = message_outcome b de (exchange_frame_new b) bytes
   \<and> streaming_frame_decode_length_prefixed b de' bytes = message_outcome b de' (streaming_frame_new b) bytes"
  by (simp add: exchange_frames.decode_prefixed_outcome streaming_frames.decode_prefixed_outcome)

text \<open>
  C5.  The generated dispatch of a validated channel refuses for exactly one reason, in this order: the
  contract, the revision, a body that is no request, more than one operation, an unknown root, an
  unknown variant, an operation other than the header announced; otherwise it runs the handler on
  the operation.  A route mismatch and an invalid route, which the code also tests for, and its
  panic are not reachable.
\<close>

theorem dispatch_errors_exact:
  assumes "validate spec = Ok ()" "emit spec = (Ok e :: (emitted_channel, syn_error) exec)"
    and "typed_body (emitted_operations spec) body"
  shows "dispatch e b fd ff handler (header_bound c r) body st =
    (case dispatch_refusal (emitted_operations spec) b fd ff c r body of
       Err error \<Rightarrow> (Err (Failed error), st)
     | Ok operation \<Rightarrow> handler operation st)"
  using dispatch_checks_refusal [OF assms, of b fd ff c r]
  by (simp add: dispatch_def split: sum.splits)

theorem dispatch_errors_exact_witness:
  "\<exists>e. emit ledger_channel = (Ok e :: (emitted_channel, syn_error) exec)
    \<and> dispatch e test_binding operation_dispatch_error_display frame_error_display test_handler
        (header_bound test_binding (wire_route_new (RootCode 0) (VariantCode 0)))
        (Some (request_from_payload (payload_value ''Untap'' 3))) 5
      = (Err (Failed (operation_dispatch_error_display (HeaderOperationMismatch 0 3))), 5)"
proof -
  obtain e where e: "emit ledger_channel = (Ok e :: (emitted_channel, syn_error) exec)"
    using ledger_emits by blast
  let ?body = "Some (request_from_payload (payload_value ''Untap'' (3 :: nat)))"
  have "typed_body (emitted_operations ledger_channel) ?body"
    by (simp add: typed_body_def request_from_payload_def ne_single_def payload_value_def ledger_operations)
  from dispatch_errors_exact [OF ledger_channel_valid e this, of test_binding
      operation_dispatch_error_display frame_error_display test_handler test_binding
      "wire_route_new (RootCode 0) (VariantCode 0)" 5] e
  show ?thesis
    by (auto simp: dispatch_refusal_def request_from_payload_def ne_single_def payload_value_def
        ledger_operations wire_route_new_def Let_def)
qed

end
