(* ===== verification/Command_Line.thy ===== *)
theory Command_Line
  imports Frame_Codec
begin

text \<open>
  The first half of \<^verbatim>\<open>src/command_line.rs\<close>: the single argument, the sockets and their environment
  variables, the request input, its head and its routing, and the errors with their messages and
  exit codes.  The environment, the file system and the \<^verbatim>\<open>dotos\<close> document are arguments.
\<close>

subsection \<open>Errors\<close>

datatype command_line_socket = WorkingSocket | MetaSocket

datatype command_line_route_error = UnknownRequestHead string | AmbiguousRequestHead string

primrec command_line_route_error_display :: "command_line_route_error \<Rightarrow> string" where
  "command_line_route_error_display (UnknownRequestHead head) = ''unknown request head: '' @ head"
| "command_line_route_error_display (AmbiguousRequestHead head) =
     ''request head appears in both working and meta contracts: '' @ head"

datatype single_argument_error =
    WrongArgumentCount string usize
  | FlagArgument string string

primrec single_argument_error_display :: "single_argument_error \<Rightarrow> string" where
  "single_argument_error_display (WrongArgumentCount program found) =
     program @ '' expects exactly one DOTOS or signal-file argument, found '' @ decimal found"
| "single_argument_error_display (FlagArgument program argument) =
     program @ '' accepts DOTOS or signal-file input, not flag-style argument '' @ argument"

datatype command_line_error =
    Argument single_argument_error
  | MissingSocket string
  | RouteFailed string
  | InvalidRequest string
  | InvalidReply string
  | InputOutput string
  | SignalFrame string
  | FrameTooLarge usize usize
  | UnexpectedFrame string string
  | RequestRejected string
  | InvalidClientRoute wire_route_error
  | ReplyExchangeMismatch exchange_identifier exchange_identifier

primrec exchange_lane_debug :: "exchange_lane \<Rightarrow> string" where
  "exchange_lane_debug Connector = ''Connector''"
| "exchange_lane_debug Acceptor = ''Acceptor''"

definition exchange_identifier_debug :: "exchange_identifier \<Rightarrow> string" where
  "exchange_identifier_debug x =
     ''ExchangeIdentifier { session_epoch: SessionEpoch('' @ decimal (unat (session_epoch_value (ex_session_epoch x)))
     @ ''), lane: '' @ exchange_lane_debug (ex_lane x)
     @ '', sequence: LaneSequence('' @ decimal (unat (lane_sequence_value (ex_sequence x))) @ '') }''"

fun command_line_error_display :: "command_line_error \<Rightarrow> string" where
  "command_line_error_display (Argument e) = single_argument_error_display e"
| "command_line_error_display (MissingSocket variable) =
     ''missing socket environment variable '' @ variable"
| "command_line_error_display (RouteFailed reason) =
     ''cannot route command-line request: '' @ reason"
| "command_line_error_display (InvalidRequest reason) = ''invalid request text: '' @ reason"
| "command_line_error_display (InvalidReply reason) = ''invalid reply text: '' @ reason"
| "command_line_error_display (InputOutput reason) = ''input/output error: '' @ reason"
| "command_line_error_display (SignalFrame reason) = ''signal frame error: '' @ reason"
| "command_line_error_display (FrameTooLarge found limit) =
     ''frame too large: found '' @ decimal found @ '' bytes, limit '' @ decimal limit"
| "command_line_error_display (UnexpectedFrame expected got) =
     ''unexpected signal frame: expected '' @ expected @ '', got '' @ got"
| "command_line_error_display (RequestRejected reason) =
     ''request rejected before execution: '' @ reason"
| "command_line_error_display (InvalidClientRoute e) =
     ''request route cannot be represented in the short header: '' @ wire_route_error_display e"
| "command_line_error_display (ReplyExchangeMismatch expected found) =
     ''reply exchange mismatch: expected '' @ exchange_identifier_debug expected
     @ '', found '' @ exchange_identifier_debug found"

fun exit_code :: "command_line_error \<Rightarrow> u8" where
  "exit_code (Argument _) = 64"
| "exit_code (RouteFailed _) = 64"
| "exit_code (InvalidRequest _) = 64"
| "exit_code (InvalidReply _) = 64"
| "exit_code (MissingSocket _) = 69"
| "exit_code (InputOutput _) = 69"
| "exit_code (SignalFrame _) = 70"
| "exit_code (FrameTooLarge _ _) = 70"
| "exit_code (UnexpectedFrame _ _) = 70"
| "exit_code (RequestRejected _) = 70"
| "exit_code (InvalidClientRoute _) = 70"
| "exit_code (ReplyExchangeMismatch _ _) = 70"

subsection \<open>The argument\<close>

datatype single_argument = SingleArgument (argument_as_str: string)

fun from_program_and_values ::
  "string \<Rightarrow> string list \<Rightarrow> (single_argument, single_argument_error) result" where
  "from_program_and_values program [v] =
     (if starts_with v ''--'' then Err (FlagArgument program v) else Ok (SingleArgument v))"
| "from_program_and_values program vs = Err (WrongArgumentCount program (length vs))"

definition from_arguments :: "string list \<Rightarrow> (single_argument, single_argument_error) result" where
  "from_arguments arguments =
     (case arguments of
        [] \<Rightarrow> from_program_and_values ''signal-cli'' []
      | program # vs \<Rightarrow> from_program_and_values program vs)"

text \<open>
  \<^verbatim>\<open>std::env::args()\<close> yields strings and panics at an argument that is not Unicode, which is
  \<^const>\<open>None\<close> in the list of arguments; \<open>from_arguments\<close> takes all of them from the iterator.
\<close>

definition from_environment :: "string option list \<Rightarrow> (single_argument, single_argument_error) exec" where
  "from_environment arguments =
     (if None \<in> set arguments then Err Panicked else returning (from_arguments (map the arguments)))"

lemma from_arguments_Ok_iff [fault_iffs]:
  "from_arguments args = Inr a \<longleftrightarrow>
     (\<exists>program. args = [program, argument_as_str a] \<and> \<not> starts_with (argument_as_str a) ''--'')"
proof (cases a)
  case (SingleArgument v)
  show ?thesis
  proof (cases args)
    case (Cons program vs)
    then show ?thesis
      by (cases "(program, vs)" rule: from_program_and_values.cases)
        (auto simp: from_arguments_def SingleArgument)
  qed (simp add: from_arguments_def)
qed

subsection \<open>Sockets\<close>

definition trim_end_matches :: "char \<Rightarrow> string \<Rightarrow> string" where
  "trim_end_matches c s = rev (dropWhile (\<lambda>d. d = c) (rev s))"

text \<open>The loop of \<^verbatim>\<open>EnvironmentStem::from_binary_name\<close>: the stem so far and \<^verbatim>\<open>previous_separator\<close>.\<close>

fun stem_loop :: "string \<Rightarrow> bool \<Rightarrow> string \<Rightarrow> string" where
  "stem_loop stem previous_separator [] = stem"
| "stem_loop stem previous_separator (c # cs) =
     (if is_ascii_alphanumeric c then stem_loop (stem @ [to_ascii_uppercase c]) False cs
      else if \<not> previous_separator then stem_loop (stem @ ''_'') True cs
      else stem_loop stem previous_separator cs)"

definition strip_persona :: "string \<Rightarrow> string" where
  "strip_persona binary_name =
     (case strip_prefix binary_name ''persona_'' of
        Some rest \<Rightarrow> rest
      | None \<Rightarrow> (case strip_prefix binary_name ''persona-'' of Some rest \<Rightarrow> rest | None \<Rightarrow> binary_name))"

definition environment_stem :: "string \<Rightarrow> string" where
  "environment_stem binary_name =
     trim_end_matches CHR ''_'' (stem_loop ''PERSONA_'' True (strip_persona binary_name))"

record command_line_sockets =
  sock_working :: "string option"
  sock_meta :: "string option"
  sock_working_variable :: string
  sock_meta_variable :: string

definition sockets_new :: "string option \<Rightarrow> string option \<Rightarrow> string \<Rightarrow> string \<Rightarrow> command_line_sockets" where
  "sockets_new working meta working_variable meta_variable =
     \<lparr>sock_working = working, sock_meta = meta, sock_working_variable = working_variable,
      sock_meta_variable = meta_variable\<rparr>"

text \<open>\<open>env_var\<close> is \<^verbatim>\<open>std::env::var(..).ok()\<close>.\<close>

definition sockets_from_binary_name ::
  "(string \<Rightarrow> string option) \<Rightarrow> string \<Rightarrow> command_line_sockets" where
  "sockets_from_binary_name env_var binary_name =
     (let stem = environment_stem binary_name;
          working_variable = stem @ ''_SOCKET'';
          meta_variable = stem @ ''_META_SOCKET''
      in \<lparr>sock_working = env_var working_variable, sock_meta = env_var meta_variable,
          sock_working_variable = working_variable, sock_meta_variable = meta_variable\<rparr>)"

definition sockets_working_only :: "string \<Rightarrow> command_line_sockets" where
  "sockets_working_only socket =
     sockets_new (Some socket) None ''SIGNAL_WORKING_SOCKET'' ''SIGNAL_META_SOCKET''"

definition working_socket :: "command_line_sockets \<Rightarrow> (string, command_line_error) result" where
  "working_socket s = ok_or (MissingSocket (sock_working_variable s)) (sock_working s)"

definition meta_socket :: "command_line_sockets \<Rightarrow> (string, command_line_error) result" where
  "meta_socket s = ok_or (MissingSocket (sock_meta_variable s)) (sock_meta s)"

subsection \<open>The route table\<close>

record route_table =
  working_heads :: "string list"
  meta_heads :: "string list"

definition route_table_new :: "string list \<Rightarrow> string list \<Rightarrow> route_table" where
  "route_table_new working meta = \<lparr>working_heads = working, meta_heads = meta\<rparr>"

definition route_head ::
  "route_table \<Rightarrow> string \<Rightarrow> (command_line_socket, command_line_route_error) result" where
  "route_head t head =
     (case (head \<in> set (working_heads t), head \<in> set (meta_heads t)) of
        (True, False) \<Rightarrow> Ok WorkingSocket
      | (False, True) \<Rightarrow> Ok MetaSocket
      | (True, True) \<Rightarrow> Err (AmbiguousRequestHead head)
      | (False, False) \<Rightarrow> Err (UnknownRequestHead head))"

record command_line_dispatch =
  dispatch_table :: route_table

definition command_line_dispatch_new :: "string list \<Rightarrow> string list \<Rightarrow> command_line_dispatch" where
  "command_line_dispatch_new working_HEADS meta_HEADS =
     \<lparr>dispatch_table = route_table_new working_HEADS meta_HEADS\<rparr>"

definition dispatch_route_head ::
  "command_line_dispatch \<Rightarrow> string \<Rightarrow> (command_line_socket, command_line_route_error) result" where
  "dispatch_route_head d head = route_head (dispatch_table d) head"

subsection \<open>The request text and its head\<close>

text \<open>A call of the operating system is an option: \<^const>\<open>None\<close> is a call that never returns.\<close>

definition request_input_text ::
  "(string \<Rightarrow> (string, string) result option) \<Rightarrow> single_argument
     \<Rightarrow> (string, command_line_error) result option" where
  "request_input_text read_to_string argument =
     (let v = argument_as_str argument; trimmed = trim_start v
      in if starts_with trimmed ''('' \<or> starts_with trimmed ''[''
         then Some (Ok v)
         else map_option (map_err InputOutput) (read_to_string v))"

text \<open>\<^verbatim>\<open>dotos\<close> documents and blocks, with \<^verbatim>\<open>Display\<close> texts for the crate's parse errors.\<close>

record ('doc, 'b) dotos_documents =
  document_parse :: "string \<Rightarrow> ('doc, string) result"
  document_root_object_at :: "'doc \<Rightarrow> nat \<Rightarrow> 'b option"
  block_as_square :: "'b \<Rightarrow> 'b list option"
  block_root_object_at :: "'b \<Rightarrow> nat \<Rightarrow> 'b option"
  block_demote_to_string :: "'b \<Rightarrow> string option"

text \<open>\<^verbatim>\<open>RequestHeadBlock::head\<close> recurses into the first element of nested sequences; \<^const>\<open>None\<close> is a
  recursion that does not return.\<close>

partial_function (option) request_head_block ::
  "('doc, 'b) dotos_documents \<Rightarrow> 'b \<Rightarrow> (string, command_line_error) result option" where
  "request_head_block d block =
     (case block_as_square d block of
        Some sequence \<Rightarrow>
          (case sequence of
             [] \<Rightarrow> Some (Err (InvalidRequest ''expected at least one request in bracketed sequence''))
           | first # _ \<Rightarrow> request_head_block d first)
      | None \<Rightarrow>
          Some (ok_or (InvalidRequest ''expected request record head'')
            (case (case block_root_object_at d block 0 of
                None \<Rightarrow> None
              | Some b \<Rightarrow> block_demote_to_string d b) of
               Some head \<Rightarrow> Some head
             | None \<Rightarrow> block_demote_to_string d block)))"

definition request_head_from_text ::
  "('doc, 'b) dotos_documents \<Rightarrow> string \<Rightarrow> (string, command_line_error) result option" where
  "request_head_from_text d text =
     (case map_err InvalidRequest (document_parse d text) of
        Err e \<Rightarrow> Some (Err e)
      | Ok document \<Rightarrow>
          (case document_root_object_at d document 0 of
             None \<Rightarrow> Some (Err (InvalidRequest ''expected request object''))
           | Some block \<Rightarrow> request_head_block d block))"

definition request_head_route ::
  "string list \<Rightarrow> string list \<Rightarrow> string \<Rightarrow> (command_line_socket, command_line_error) result" where
  "request_head_route working_HEADS meta_HEADS head =
     map_err (\<lambda>e. RouteFailed (command_line_route_error_display e))
       (dispatch_route_head (command_line_dispatch_new working_HEADS meta_HEADS) head)"

text \<open>\<^verbatim>\<open>DotosSource::new(text).parse::<Request<Operation>>()\<close>: the crate runs the request's decoder on
  the text's block and prints its error.\<close>

definition decode_request ::
  "(string \<Rightarrow> ('p request, string) result) \<Rightarrow> string \<Rightarrow> ('p request, command_line_error) result" where
  "decode_request source_parse text = map_err InvalidRequest (source_parse text)"

subsection \<open>The environment stem\<close>

definition env_char :: "char \<Rightarrow> bool" where
  "env_char c \<longleftrightarrow> is_ascii_digit c \<or> 65 \<le> code c \<and> code c \<le> 90 \<or> c = CHR ''_''"

abbreviation not_both_separators :: "char \<Rightarrow> char \<Rightarrow> bool" where
  "not_both_separators a b \<equiv> \<not> (a = CHR ''_'' \<and> b = CHR ''_'')"

lemma uppercase_env_char:
  "is_ascii_alphanumeric c \<Longrightarrow> env_char (to_ascii_uppercase c) \<and> to_ascii_uppercase c \<noteq> CHR ''_''"
proof -
  assume "is_ascii_alphanumeric c"
  then have "env_char (to_ascii_uppercase c)" and "code (to_ascii_uppercase c) \<noteq> 95"
    by (auto simp: is_ascii_alphanumeric_def is_ascii_digit_def env_char_def code_to_ascii_uppercase)
  then show ?thesis by (auto simp: code_def)
qed

text \<open>The loop keeps a valid stem whose last character is the separator exactly when
  \<^verbatim>\<open>previous_separator\<close> is set.\<close>

lemma stem_loop_invariant:
  assumes "list_all env_char stem" "stem \<noteq> []" "successively not_both_separators stem"
    and "previous \<longleftrightarrow> last stem = CHR ''_''"
  shows "list_all env_char (stem_loop stem previous cs)
    \<and> successively not_both_separators (stem_loop stem previous cs)
    \<and> (\<exists>rest. stem_loop stem previous cs = stem @ rest)"
  using assms
proof (induction stem previous cs rule: stem_loop.induct)
  case (2 stem previous c cs)
  show ?case
  proof (cases "is_ascii_alphanumeric c")
    case True
    with 2 uppercase_env_char [OF True] show ?thesis
      by (auto simp: successively_append_iff)
  next
    case False
    then show ?thesis using 2
      by (cases previous) (auto simp: successively_append_iff env_char_def)
  qed
qed simp

lemma successively_prefix: "successively P (xs @ ys) \<Longrightarrow> successively P xs"
  by (simp add: successively_append_iff)

lemma trim_end_prefix: "\<exists>n. s = trim_end_matches c s @ replicate n c"
proof -
  have "rev s = takeWhile (\<lambda>d. d = c) (rev s) @ dropWhile (\<lambda>d. d = c) (rev s)" by simp
  moreover have "takeWhile (\<lambda>d. d = c) (rev s) = replicate (length (takeWhile (\<lambda>d. d = c) (rev s))) c"
    by (rule replicate_eqI [symmetric, THEN sym]) (auto dest: set_takeWhileD)
  ultimately have "s = rev (dropWhile (\<lambda>d. d = c) (rev s))
      @ rev (replicate (length (takeWhile (\<lambda>d. d = c) (rev s))) c)"
    by (metis rev_append rev_rev_ident)
  then show ?thesis by (auto simp: trim_end_matches_def)
qed

lemma trim_end_last: "trim_end_matches c s \<noteq> [] \<Longrightarrow> last (trim_end_matches c s) \<noteq> c"
  using hd_dropWhile [of "\<lambda>d. d = c" "rev s"] by (auto simp: trim_end_matches_def last_rev)

lemma trim_end_keeps:
  assumes "p \<noteq> []" "last p \<noteq> c"
  shows "trim_end_matches c (p @ q) = p @ trim_end_matches c q"
proof -
  obtain a ps where p: "p = ps @ [a]" "a \<noteq> c"
    using assms by (metis append_butlast_last_id)
  show ?thesis
  proof (cases "\<forall>d \<in> set (rev q). d = c")
    case True
    then have "dropWhile (\<lambda>d. d = c) (rev q @ rev p) = dropWhile (\<lambda>d. d = c) (rev p)"
      by (intro dropWhile_append2) blast
    moreover have "dropWhile (\<lambda>d. d = c) (rev q) = []"
      using True by (simp add: dropWhile_eq_Nil_conv)
    ultimately show ?thesis using p by (simp add: trim_end_matches_def)
  next
    case False
    then show ?thesis by (auto simp: trim_end_matches_def dropWhile_append1)
  qed
qed

lemma environment_stem_shape:
  "list_all env_char (environment_stem n) \<and> successively not_both_separators (environment_stem n)
   \<and> (\<exists>rest. environment_stem n = ''PERSONA'' @ rest) \<and> last (environment_stem n) \<noteq> CHR ''_''"
proof -
  let ?loop = "stem_loop ''PERSONA_'' True (strip_persona n)"
  have inv: "list_all env_char ?loop" "successively not_both_separators ?loop"
    and "\<exists>rest. ?loop = ''PERSONA_'' @ rest"
    using stem_loop_invariant [of "''PERSONA_''" True "strip_persona n"]
    by (simp_all add: env_char_def code_def)
  then obtain rest where loop: "?loop = ''PERSONA_'' @ rest" by blast
  obtain k where k: "?loop = environment_stem n @ replicate k CHR ''_''"
    using trim_end_prefix [of ?loop "CHR ''_''"] by (auto simp: environment_stem_def)
  have chars: "list_all env_char (environment_stem n)"
    "successively not_both_separators (environment_stem n)"
    using inv successively_prefix [of _ "environment_stem n"] unfolding k by auto
  have stem: "environment_stem n = ''PERSONA'' @ trim_end_matches CHR ''_'' (CHR ''_'' # rest)"
    using trim_end_keeps [of "''PERSONA''" "CHR ''_''" "CHR ''_'' # rest"]
    by (simp add: environment_stem_def loop)
  moreover have "last (environment_stem n) \<noteq> CHR ''_''"
    using trim_end_last [of "CHR ''_''" ?loop] stem by (simp add: environment_stem_def)
  ultimately show ?thesis using chars by blast
qed

subsection \<open>The head of nested sequences\<close>

text \<open>The block a request's head is read from: the first element, as long as it is a sequence.\<close>

inductive leading_block :: "('doc, 'b) dotos_documents \<Rightarrow> 'b \<Rightarrow> 'b \<Rightarrow> bool" for d where
  leading_here: "block_as_square d b = None \<Longrightarrow> leading_block d b b"
| leading_first: "block_as_square d b = Some (x # xs) \<Longrightarrow> leading_block d x c \<Longrightarrow> leading_block d b c"

definition head_atom :: "('doc, 'b) dotos_documents \<Rightarrow> 'b \<Rightarrow> string option" where
  "head_atom d b =
     (case block_root_object_at d b 0 of
        Some c \<Rightarrow> (case block_demote_to_string d c of Some h \<Rightarrow> Some h | None \<Rightarrow> block_demote_to_string d b)
      | None \<Rightarrow> block_demote_to_string d b)"

lemma request_head_here:
  "block_as_square d b = None \<Longrightarrow>
     request_head_block d b = Some (ok_or (InvalidRequest ''expected request record head'') (head_atom d b))"
  by (subst request_head_block.simps)
    (auto simp: head_atom_def split: option.splits)

lemma request_head_first:
  "block_as_square d b = Some (x # xs) \<Longrightarrow> request_head_block d b = request_head_block d x"
  by (subst request_head_block.simps) simp

lemma request_head_empty:
  "block_as_square d b = Some [] \<Longrightarrow> request_head_block d b =
     Some (Err (InvalidRequest ''expected at least one request in bracketed sequence''))"
  by (subst request_head_block.simps) simp

lemma request_head_leading:
  "leading_block d b c \<Longrightarrow>
     request_head_block d b = Some (ok_or (InvalidRequest ''expected request record head'') (head_atom d c))"
  by (induction rule: leading_block.induct) (simp_all add: request_head_here request_head_first)

text \<open>Blocks are finite: the elements of a sequence are smaller than it.\<close>

definition blocks_finite :: "('doc, 'b) dotos_documents \<Rightarrow> ('b \<Rightarrow> nat) \<Rightarrow> bool" where
  "blocks_finite d size_of \<longleftrightarrow>
     (\<forall>b xs x. block_as_square d b = Some xs \<and> x \<in> set xs \<longrightarrow> size_of x < size_of b)"

lemma leading_cases:
  assumes "blocks_finite d size_of"
  shows "(\<exists>c. leading_block d b c) \<or>
    request_head_block d b = Some (Err (InvalidRequest ''expected at least one request in bracketed sequence''))"
proof (induction "size_of b" arbitrary: b rule: less_induct)
  case less
  show ?case
  proof (cases "block_as_square d b")
    case None
    then have "leading_block d b b" by (rule leading_here)
    then show ?thesis by blast
  next
    case (Some xs)
    show ?thesis
    proof (cases xs)
      case Nil
      with Some show ?thesis by (simp add: request_head_empty)
    next
      case (Cons x ys)
      with Some assms have "size_of x < size_of b"
        unfolding blocks_finite_def by (metis list.set_intros(1))
      from less [OF this] show ?thesis
        using Some Cons leading_first [of d b x ys] request_head_first [of d b x ys] by auto
    qed
  qed
qed

lemma leading_block_unique:
  "leading_block d b c \<Longrightarrow> leading_block d b c' \<Longrightarrow> c' = c"
proof (induction arbitrary: c' rule: leading_block.induct)
  case (leading_here b)
  from leading_here(2,1) show ?case by (cases rule: leading_block.cases) simp_all
next
  case (leading_first b x xs c)
  from leading_first.prems leading_first.hyps(1) have "leading_block d x c'"
    by (cases rule: leading_block.cases) simp_all
  then show ?case by (rule leading_first.IH)
qed

text \<open>Following first elements ends in an empty sequence.\<close>

inductive reaches_empty :: "('doc, 'b) dotos_documents \<Rightarrow> 'b \<Rightarrow> bool" for d where
  empty_here: "block_as_square d b = Some [] \<Longrightarrow> reaches_empty d b"
| empty_first: "block_as_square d b = Some (x # xs) \<Longrightarrow> reaches_empty d x \<Longrightarrow> reaches_empty d b"

lemma reaches_empty_no_leading: "reaches_empty d b \<Longrightarrow> \<not> leading_block d b c"
proof (induction rule: reaches_empty.induct)
  case (empty_here b)
  then show ?case by (auto elim: leading_block.cases)
next
  case (empty_first b x xs)
  then show ?case by (auto elim: leading_block.cases)
qed

lemma reaches_empty_iff:
  assumes "blocks_finite d size_of"
  shows "reaches_empty d b \<longleftrightarrow> (\<nexists>c. leading_block d b c)"
proof
  show "\<nexists>c. leading_block d b c" if "reaches_empty d b"
    using reaches_empty_no_leading [OF that] by blast
  show "reaches_empty d b" if "\<nexists>c. leading_block d b c"
    using that
  proof (induction "size_of b" arbitrary: b rule: less_induct)
    case less
    show ?case
    proof (cases "block_as_square d b")
      case None
      with less.prems show ?thesis by (blast intro: leading_here)
    next
      case (Some xs)
      show ?thesis
      proof (cases xs)
        case Nil
        with Some show ?thesis by (simp add: empty_here)
      next
        case (Cons x ys)
        with Some have first: "block_as_square d b = Some (x # ys)" by simp
        with assms have "size_of x < size_of b"
          unfolding blocks_finite_def by (metis list.set_intros(1))
        moreover have "\<nexists>c. leading_block d x c" using less.prems leading_first [OF first] by blast
        ultimately have "reaches_empty d x" by (rule less.hyps)
        with first show ?thesis by (rule empty_first)
      qed
    qed
  qed
qed

lemma route_head_Ok_iff [fault_iffs]:
  "route_head t head = Inr socket \<longleftrightarrow>
     (case socket of
        WorkingSocket \<Rightarrow> head \<in> set (working_heads t) \<and> head \<notin> set (meta_heads t)
      | MetaSocket \<Rightarrow> head \<in> set (meta_heads t) \<and> head \<notin> set (working_heads t))"
  by (cases socket) (auto simp: route_head_def split: bool.splits)

lemma request_head_route_Ok_iff [fault_iffs]:
  "request_head_route ws ms head = Inr socket \<longleftrightarrow>
     (case socket of
        WorkingSocket \<Rightarrow> head \<in> set ws \<and> head \<notin> set ms
      | MetaSocket \<Rightarrow> head \<in> set ms \<and> head \<notin> set ws)"
  by (cases socket) (simp_all add: request_head_route_def dispatch_route_head_def
      command_line_dispatch_new_def route_table_new_def fault_iffs)

subsection \<open>Properties\<close>

lemma from_arguments_iffs:
  "(from_arguments args = Ok a
      \<longleftrightarrow> (\<exists>program. args = [program, argument_as_str a] \<and> \<not> starts_with (argument_as_str a) ''--''))
   \<and> (from_arguments args = Err (WrongArgumentCount program n)
      \<longleftrightarrow> n = length args - 1 \<and> n \<noteq> 1 \<and> program = (case args of [] \<Rightarrow> ''signal-cli'' | p # _ \<Rightarrow> p))
   \<and> (from_arguments args = Err (FlagArgument program v)
      \<longleftrightarrow> args = [program, v] \<and> starts_with v ''--'')"
proof (intro conjI)
  show "from_arguments args = Err (FlagArgument program v) \<longleftrightarrow> args = [program, v] \<and> starts_with v ''--''"
  proof (cases args)
    case (Cons p vs)
    then show ?thesis
      by (cases "(p, vs)" rule: from_program_and_values.cases) (auto simp: from_arguments_def)
  qed (auto simp: from_arguments_def)
  show "from_arguments args = Err (WrongArgumentCount program n)
      \<longleftrightarrow> n = length args - 1 \<and> n \<noteq> 1 \<and> program = (case args of [] \<Rightarrow> ''signal-cli'' | p # _ \<Rightarrow> p)"
  proof (cases args)
    case (Cons p vs)
    then show ?thesis
      by (cases "(p, vs)" rule: from_program_and_values.cases) (auto simp: from_arguments_def)
  qed (auto simp: from_arguments_def)
qed (simp add: fault_iffs)

text \<open>
  C35.  The client takes exactly one argument that is not a flag, refuses every other command line
  with the number of arguments or the flag it found, and panics exactly when some argument, the
  program's name included, is not Unicode.
\<close>

theorem environment_argument_exact:
  "(from_environment args = Err Panicked \<longleftrightarrow> None \<in> set args)
   \<and> (from_environment args = Ok a
      \<longleftrightarrow> (\<exists>program. args = [Some program, Some (argument_as_str a)]
            \<and> \<not> starts_with (argument_as_str a) ''--''))
   \<and> (from_environment args = Err (Failed (WrongArgumentCount program n))
      \<longleftrightarrow> None \<notin> set args \<and> n = length args - 1 \<and> n \<noteq> 1
        \<and> program = (case args of [] \<Rightarrow> ''signal-cli'' | p # _ \<Rightarrow> the p))
   \<and> (from_environment args = Err (Failed (FlagArgument program v))
      \<longleftrightarrow> args = [Some program, Some v] \<and> starts_with v ''--'')"
proof (cases "None \<in> set args")
  case False
  then obtain ts where args: "args = map Some ts"
    by (metis ex_map_conv not_None_eq)
  have these: "map Some ts = [Some p, Some v] \<longleftrightarrow> ts = [p, v]" for p v by auto
  show ?thesis
    using from_arguments_iffs [of ts a program n v]
    by (cases ts) (auto simp: from_environment_def args comp_def these fault_iffs)
qed (auto simp: from_environment_def)



text \<open>
  C32.  Reading the head of a request returns on every document whose nested sequences are finite,
  with one of three results and exactly then: the head atom of the leading block, when it has one;
  the refusal of a record without head, when the leading block has no head atom; and the refusal
  of an empty sequence, when following first elements ends in one instead of a leading block.  The
  recursion is one call per level of nesting, the depth of the native stack is not part of this.
\<close>

theorem request_head_terminates:
  assumes "blocks_finite d size_of"
  shows "\<exists>r. request_head_block d b = Some r
    \<and> (\<forall>h. r = Ok h \<longleftrightarrow> (\<exists>c. leading_block d b c \<and> head_atom d c = Some h))
    \<and> (r = Err (InvalidRequest ''expected request record head'')
        \<longleftrightarrow> (\<exists>c. leading_block d b c \<and> head_atom d c = None))
    \<and> (r = Err (InvalidRequest ''expected at least one request in bracketed sequence'')
        \<longleftrightarrow> (\<nexists>c. leading_block d b c))
    \<and> (r = Err (InvalidRequest ''expected at least one request in bracketed sequence'')
        \<longleftrightarrow> reaches_empty d b)"
proof (cases "\<exists>c. leading_block d b c")
  case True
  then obtain c where c: "leading_block d b c" ..
  have same: "leading_block d b c' \<longleftrightarrow> c' = c" for c'
    using c leading_block_unique [OF c] by blast
  show ?thesis
    using request_head_leading [OF c] reaches_empty_iff [OF assms, of b]
    by (auto simp: same ok_or_Inr_iff ok_or_Inl_iff)
next
  case False
  then have "request_head_block d b
      = Some (Err (InvalidRequest ''expected at least one request in bracketed sequence''))"
    using leading_cases [OF assms, of b] by simp
  with False show ?thesis using reaches_empty_iff [OF assms, of b] by simp
qed

text \<open>A document model for the witness: atoms and square-bracket sequences.\<close>

datatype sample_block = SampleAtom string | SampleSquare "sample_block list"

primrec sample_as_square :: "sample_block \<Rightarrow> sample_block list option" where
  "sample_as_square (SampleAtom s) = None"
| "sample_as_square (SampleSquare bs) = Some bs"

primrec sample_demote :: "sample_block \<Rightarrow> string option" where
  "sample_demote (SampleAtom s) = Some s"
| "sample_demote (SampleSquare bs) = None"

definition sample_documents :: "(sample_block, sample_block) dotos_documents" where
  "sample_documents =
     \<lparr>document_parse = (\<lambda>s. Ok (SampleAtom s)),
      document_root_object_at = (\<lambda>b n. if n = 0 then Some b else None),
      block_as_square = sample_as_square,
      block_root_object_at = (\<lambda>b n. None),
      block_demote_to_string = sample_demote\<rparr>"

lemma sample_documents_finite: "blocks_finite sample_documents size"
proof -
  have "size x < size b" if "sample_as_square b = Some xs" "x \<in> set xs" for b xs x
    using that by (cases b) (auto dest: size_list_estimation' [where f = size, OF _ order_refl])
  then show ?thesis by (auto simp: blocks_finite_def sample_documents_def)
qed

theorem request_head_terminates_witness:
  "request_head_block sample_documents (SampleSquare [SampleSquare [SampleAtom ''Deposit''], SampleAtom ''x''])
     = Some (Ok ''Deposit'')"
proof -
  from request_head_terminates [OF sample_documents_finite,
      of "SampleSquare [SampleSquare [SampleAtom ''Deposit''], SampleAtom ''x'']"]
  obtain r where r: "request_head_block sample_documents
      (SampleSquare [SampleSquare [SampleAtom ''Deposit''], SampleAtom ''x'']) = Some r"
    "\<forall>h. r = Ok h \<longleftrightarrow> (\<exists>c. leading_block sample_documents
      (SampleSquare [SampleSquare [SampleAtom ''Deposit''], SampleAtom ''x'']) c
      \<and> head_atom sample_documents c = Some h)" by blast
  have "leading_block sample_documents (SampleAtom ''Deposit'') (SampleAtom ''Deposit'')"
    by (rule leading_here) (simp add: sample_documents_def)
  then have "leading_block sample_documents (SampleSquare [SampleAtom ''Deposit'']) (SampleAtom ''Deposit'')"
    by (rule leading_first [rotated]) (simp add: sample_documents_def)
  then have "leading_block sample_documents (SampleSquare [SampleSquare [SampleAtom ''Deposit''], SampleAtom ''x''])
      (SampleAtom ''Deposit'')"
    by (rule leading_first [rotated]) (simp add: sample_documents_def)
  moreover have "head_atom sample_documents (SampleAtom ''Deposit'') = Some ''Deposit''"
    by (simp add: head_atom_def sample_documents_def)
  ultimately have "r = Ok ''Deposit''"
    by (intro r(2) [THEN spec, THEN iffD2] exI conjI)
  with r(1) show ?thesis by simp
qed

end
