(* ===== verification/Client.thy ===== *)
theory Client
  imports Command_Line
begin

text \<open>
  The second half of \<^verbatim>\<open>src/command_line.rs\<close>: the \<^verbatim>\<open>ClientFrame\<close> trait and its two
  implementations, and \<^verbatim>\<open>ClientShape\<close>, which submits one request over a fresh connection and
  prints the reply.  A Unix stream is its peer, a function from the bytes written so far to the
  bytes it sends and to what comes after them, with what was written and how much was read; the
  operating system is a record of what the program asks it.  A call that never returns, as a read
  from a silent peer, is the outcome \<^const>\<open>None\<close>.  The locale \<open>client_endpoint\<close> is the contract of
  \<^verbatim>\<open>ClientFrame\<close>.
\<close>

subsection \<open>Client frames\<close>

record ('p, 'r, 'f) client_frame =
  cf_request_frame :: "exchange_identifier \<Rightarrow> 'p request \<Rightarrow> ('f, command_line_error) result"
  cf_reply_from_frame :: "exchange_identifier \<Rightarrow> 'f \<Rightarrow> ('r reply, command_line_error) result"
  cf_encode :: "'f \<Rightarrow> (u8 list, command_line_error) result"
  cf_decode :: "u8 list \<Rightarrow> ('f, command_line_error) exec"

definition signal_frame_error :: "'x frame_error \<Rightarrow> command_line_error" where
  "signal_frame_error e = SignalFrame (frame_error_display e)"

definition exchange_request_frame ::
  "contract_binding \<Rightarrow> 'p log_variant \<Rightarrow> exchange_identifier \<Rightarrow> 'p request
     \<Rightarrow> (('p, 'r) bound_exchange_frame, command_line_error) result" where
  "exchange_request_frame binding log_variant exchange request =
     and_then (map_err InvalidClientRoute (request_route log_variant request)) (\<lambda>route.
       Ok (exchange_frame_new binding route (ExRequest exchange request)))"

definition exchange_reply_from_frame ::
  "(('p, 'r) exchange_frame_body \<Rightarrow> string) \<Rightarrow> exchange_identifier \<Rightarrow> ('p, 'r) bound_exchange_frame
     \<Rightarrow> ('r reply, command_line_error) result" where
  "exchange_reply_from_frame debug expected_exchange f =
     (case ex_body f of
        ExReply exchange reply \<Rightarrow>
          if exchange = expected_exchange then Ok reply
          else Err (ReplyExchangeMismatch expected_exchange exchange)
      | other \<Rightarrow> Err (UnexpectedFrame ''reply'' (debug other)))"

definition exchange_client ::
  "contract_binding \<Rightarrow> 'p log_variant \<Rightarrow> (('p, 'r) exchange_frame_body \<Rightarrow> string)
     \<Rightarrow> (('p, 'r) exchange_frame_body \<Rightarrow> (u8 list, 'x) result)
     \<Rightarrow> (u8 list \<Rightarrow> (('p, 'r) exchange_frame_body, 'x) result)
     \<Rightarrow> ('p, 'r, ('p, 'r) bound_exchange_frame) client_frame" where
  "exchange_client binding log_variant debug serialize deserialize =
     \<lparr>cf_request_frame = exchange_request_frame binding log_variant,
      cf_reply_from_frame = exchange_reply_from_frame debug,
      cf_encode = (\<lambda>f. map_err signal_frame_error (exchange_frame_encode_length_prefixed serialize f)),
      cf_decode = (\<lambda>bytes. map_err (map_fault signal_frame_error)
        (exchange_frame_decode_length_prefixed binding deserialize bytes))\<rparr>"

definition streaming_request_frame ::
  "contract_binding \<Rightarrow> 'p log_variant \<Rightarrow> exchange_identifier \<Rightarrow> 'p request
     \<Rightarrow> (('p, 'r, 'ev) bound_streaming_frame, command_line_error) result" where
  "streaming_request_frame binding log_variant exchange request =
     and_then (map_err InvalidClientRoute (request_route log_variant request)) (\<lambda>route.
       Ok (streaming_frame_new binding route (StRequest exchange request)))"

definition streaming_reply_from_frame ::
  "(('p, 'r, 'ev) streaming_frame_body \<Rightarrow> string) \<Rightarrow> exchange_identifier
     \<Rightarrow> ('p, 'r, 'ev) bound_streaming_frame \<Rightarrow> ('r reply, command_line_error) result" where
  "streaming_reply_from_frame debug expected_exchange f =
     (case st_body f of
        StReply exchange reply \<Rightarrow>
          if exchange = expected_exchange then Ok reply
          else Err (ReplyExchangeMismatch expected_exchange exchange)
      | other \<Rightarrow> Err (UnexpectedFrame ''reply'' (debug other)))"

definition streaming_client ::
  "contract_binding \<Rightarrow> 'p log_variant \<Rightarrow> (('p, 'r, 'ev) streaming_frame_body \<Rightarrow> string)
     \<Rightarrow> (('p, 'r, 'ev) streaming_frame_body \<Rightarrow> (u8 list, 'x) result)
     \<Rightarrow> (u8 list \<Rightarrow> (('p, 'r, 'ev) streaming_frame_body, 'x) result)
     \<Rightarrow> ('p, 'r, ('p, 'r, 'ev) bound_streaming_frame) client_frame" where
  "streaming_client binding log_variant debug serialize deserialize =
     \<lparr>cf_request_frame = streaming_request_frame binding log_variant,
      cf_reply_from_frame = streaming_reply_from_frame debug,
      cf_encode = (\<lambda>f. map_err signal_frame_error (streaming_frame_encode_length_prefixed serialize f)),
      cf_decode = (\<lambda>bytes. map_err (map_fault signal_frame_error)
        (streaming_frame_decode_length_prefixed binding deserialize bytes))\<rparr>"

subsection \<open>Calls that may not return\<close>

text \<open>The question mark operator on the outcome of such a call, without and with a stream.\<close>

definition and_await ::
  "('a, 'e) exec option \<Rightarrow> ('a \<Rightarrow> ('b, 'e) exec option) \<Rightarrow> ('b, 'e) exec option" where
  "and_await m f = (case m of None \<Rightarrow> None | Some (Err e) \<Rightarrow> Some (Err e) | Some (Ok x) \<Rightarrow> f x)"

fun and_stream ::
  "('a, 'e) exec option \<times> 's \<Rightarrow> ('a \<Rightarrow> 's \<Rightarrow> ('b, 'e) exec option \<times> 's)
     \<Rightarrow> ('b, 'e) exec option \<times> 's" where
  "and_stream (None, s) f = (None, s)"
| "and_stream (Some (Inl e), s) f = (Some (Err e), s)"
| "and_stream (Some (Inr x), s) f = f x s"

lemma and_await_simps [simp]:
  "and_await None f = None" "and_await (Some (Inl e)) f = Some (Inl e)" "and_await (Some (Inr x)) f = f x"
  by (simp_all add: and_await_def)

lemma and_await_iffs [fault_iffs]:
  "and_await m f = None \<longleftrightarrow> m = None \<or> (\<exists>x. m = Some (Inr x) \<and> f x = None)"
  "and_await m f = Some (Inr y) \<longleftrightarrow> (\<exists>x. m = Some (Inr x) \<and> f x = Some (Inr y))"
  "and_await m f = Some (Inl e) \<longleftrightarrow> m = Some (Inl e) \<or> (\<exists>x. m = Some (Inr x) \<and> f x = Some (Inl e))"
  by (auto simp: and_await_def split: option.splits sum.splits)

definition awaited_never_panics :: "('a, 'e) exec option \<Rightarrow> bool" where
  "awaited_never_panics m \<longleftrightarrow> m \<noteq> Some (Err Panicked)"

lemma awaited_never_panics_iffs [simp]:
  "awaited_never_panics None" "awaited_never_panics (Some r) \<longleftrightarrow> never_panics r"
  by (simp_all add: awaited_never_panics_def never_panics_def)

lemma awaited_never_panics_and_await [intro]:
  "awaited_never_panics m \<Longrightarrow> (\<And>x. m = Some (Inr x) \<Longrightarrow> awaited_never_panics (f x)) \<Longrightarrow>
     awaited_never_panics (and_await m f)"
  by (auto simp: awaited_never_panics_def fault_iffs)

subsection \<open>The stream\<close>

text \<open>What comes after the bytes a peer sends: it closes, the connection fails, or it stays silent.\<close>

datatype stream_end = PeerCloses | ReadFails string | PeerSilent

record unix_stream =
  stream_peer :: "u8 list \<Rightarrow> u8 list \<times> stream_end"
  written :: "u8 list"
  consumed :: nat

record operating_system =
  os_connect :: "string \<Rightarrow> (u8 list \<Rightarrow> u8 list \<times> stream_end, string) result option"
  os_write_all :: "u8 list \<Rightarrow> (unit, string) result option"
  os_flush :: "(unit, string) result option"
  os_end_of_file :: string
  os_read_to_string :: "string \<Rightarrow> (string, string) result option"
  os_arguments :: "string option list"
  os_kernel :: kernel

definition stream_connect ::
  "operating_system \<Rightarrow> string \<Rightarrow> (unix_stream, command_line_error) exec option" where
  "stream_connect os path =
     map_option (\<lambda>r. returning (and_then (map_err InputOutput r) (\<lambda>peer.
       Ok \<lparr>stream_peer = peer, written = [], consumed = 0\<rparr>))) (os_connect os path)"

definition stream_incoming :: "unix_stream \<Rightarrow> u8 list" where
  "stream_incoming s = drop (consumed s) (fst (stream_peer s (written s)))"

definition stream_ending :: "unix_stream \<Rightarrow> stream_end" where
  "stream_ending s = snd (stream_peer s (written s))"

text \<open>
  \<^verbatim>\<open>write_all\<close> then \<^verbatim>\<open>flush\<close>, and \<^verbatim>\<open>read_exact\<close>, which takes what there is when the peer sends fewer
  bytes and then fails or waits.
\<close>

definition stream_write_all ::
  "operating_system \<Rightarrow> u8 list \<Rightarrow> unix_stream \<Rightarrow> (unit, command_line_error) exec option \<times> unix_stream" where
  "stream_write_all os bytes s =
     (map_option (\<lambda>r. returning (map_err InputOutput r)) (os_write_all os bytes),
      s\<lparr>written := written s @ bytes\<rparr>)"

definition stream_flush ::
  "operating_system \<Rightarrow> unix_stream \<Rightarrow> (unit, command_line_error) exec option \<times> unix_stream" where
  "stream_flush os s = (map_option (\<lambda>r. returning (map_err InputOutput r)) (os_flush os), s)"

definition short_read :: "operating_system \<Rightarrow> unix_stream \<Rightarrow> ('a, command_line_error) exec option" where
  "short_read os s =
     (case stream_ending s of
        PeerCloses \<Rightarrow> Some (Err (Failed (InputOutput (os_end_of_file os))))
      | ReadFails e \<Rightarrow> Some (Err (Failed (InputOutput e)))
      | PeerSilent \<Rightarrow> None)"

definition stream_read_exact ::
  "operating_system \<Rightarrow> nat \<Rightarrow> unix_stream \<Rightarrow> (u8 list, command_line_error) exec option \<times> unix_stream" where
  "stream_read_exact os n s =
     (if n \<le> length (stream_incoming s)
      then (Some (Ok (take n (stream_incoming s))), s\<lparr>consumed := consumed s + n\<rparr>)
      else (short_read os s, s\<lparr>consumed := consumed s + length (stream_incoming s)\<rparr>))"

subsection \<open>The client\<close>

record client_shape =
  shape_sockets :: command_line_sockets
  maximum_frame_bytes :: usize

definition DEFAULT_MAXIMUM_FRAME_BYTES :: usize where
  "DEFAULT_MAXIMUM_FRAME_BYTES = 8 * 1024 * 1024"

definition client_shape_new :: "command_line_sockets \<Rightarrow> client_shape" where
  "client_shape_new sockets =
     \<lparr>shape_sockets = sockets, maximum_frame_bytes = DEFAULT_MAXIMUM_FRAME_BYTES\<rparr>"

definition client_shape_from_binary_name :: "(string \<Rightarrow> string option) \<Rightarrow> string \<Rightarrow> client_shape" where
  "client_shape_from_binary_name env_var binary_name =
     client_shape_new (sockets_from_binary_name env_var binary_name)"

definition with_maximum_frame_bytes :: "usize \<Rightarrow> client_shape \<Rightarrow> client_shape" where
  "with_maximum_frame_bytes n c = c\<lparr>maximum_frame_bytes := n\<rparr>"

definition client_exchange :: exchange_identifier where
  "client_exchange = exchange_identifier_new (SessionEpoch 0) Connector lane_sequence_first"

definition write_frame ::
  "operating_system \<Rightarrow> ('p, 'r, 'f) client_frame \<Rightarrow> 'f \<Rightarrow> unix_stream
     \<Rightarrow> (unit, command_line_error) exec option \<times> unix_stream" where
  "write_frame os c f s =
     and_stream (Some (returning (cf_encode c f)), s) (\<lambda>bytes s.
     and_stream (stream_write_all os bytes s) (\<lambda>_ s.
       stream_flush os s))"

definition read_frame ::
  "client_shape \<Rightarrow> operating_system \<Rightarrow> ('p, 'r, 'f) client_frame \<Rightarrow> unix_stream
     \<Rightarrow> ('f, command_line_error) exec option \<times> unix_stream" where
  "read_frame shape os c s =
     and_stream (stream_read_exact os 4 s) (\<lambda>prefix s.
       let len = unat (u32_from_be_bytes prefix)
       in if len > maximum_frame_bytes shape
          then (Some (Err (Failed (FrameTooLarge len (maximum_frame_bytes shape)))), s)
          else
            and_stream (stream_read_exact os len s) (\<lambda>body s.
              (Some (cf_decode c (prefix @ body)), s)))"

fun collect_payloads ::
  "('r sub_reply \<Rightarrow> string) \<Rightarrow> 'r list \<Rightarrow> 'r sub_reply list \<Rightarrow> ('r list, command_line_error) result" where
  "collect_payloads debug payloads [] = Ok payloads"
| "collect_payloads debug payloads (SubOk payload # rest) =
     collect_payloads debug (payloads @ [payload]) rest"
| "collect_payloads debug payloads (other # rest) =
     Err (UnexpectedFrame ''accepted operation reply'' (debug other))"

definition reply_payloads ::
  "('r sub_reply \<Rightarrow> string) \<Rightarrow> 'r reply \<Rightarrow> ('r non_empty, command_line_error) result" where
  "reply_payloads debug reply =
     (case reply of
        Accepted outcome per_operation \<Rightarrow>
          and_then (collect_payloads debug [] (ne_into_vec per_operation)) (\<lambda>payloads.
            map_err (\<lambda>e. SignalFrame (non_empty_error_display e)) (ne_try_from_vec payloads))
      | Rejected reason \<Rightarrow> Err (RequestRejected (request_rejection_reason_display reason)))"

definition encode_reply ::
  "(string list \<Rightarrow> string) \<Rightarrow> ('r \<Rightarrow> string) \<Rightarrow> 'r non_empty \<Rightarrow> string" where
  "encode_reply wrap_square to_dotos replies =
     (if ne_tail replies = [] then to_dotos (ne_head replies)
      else wrap_square (map to_dotos (ne_into_vec replies)))"

definition submit ::
  "client_shape \<Rightarrow> operating_system \<Rightarrow> ('p, 'r, 'f) client_frame \<Rightarrow> ('r sub_reply \<Rightarrow> string)
     \<Rightarrow> string \<Rightarrow> 'p request \<Rightarrow> ('r non_empty, command_line_error) exec option" where
  "submit shape os c debug socket request =
     and_await (stream_connect os socket) (\<lambda>stream.
     let exchange = client_exchange in
     and_await (Some (returning (cf_request_frame c exchange request))) (\<lambda>f.
     case write_frame os c f stream of (outcome, stream) \<Rightarrow>
     and_await outcome (\<lambda>_.
     and_await (fst (read_frame shape os c stream)) (\<lambda>reply.
     and_await (Some (returning (cf_reply_from_frame c exchange reply))) (\<lambda>reply.
       Some (returning (reply_payloads debug reply)))))))"

text \<open>What \<^verbatim>\<open>ClientShape<Working, Meta>\<close> uses of the types of one contract.\<close>

record ('p, 'r, 'f) endpoint =
  ep_frame :: "('p, 'r, 'f) client_frame"
  ep_heads :: "string list"
  ep_source_parse :: "string \<Rightarrow> ('p request, string) result"
  ep_to_dotos :: "'r \<Rightarrow> string"
  ep_debug :: "'r sub_reply \<Rightarrow> string"

definition endpoint_reply_text ::
  "client_shape \<Rightarrow> operating_system \<Rightarrow> (string list \<Rightarrow> string) \<Rightarrow> ('p, 'r, 'f) endpoint
     \<Rightarrow> (string, command_line_error) result \<Rightarrow> string \<Rightarrow> (string, command_line_error) exec option" where
  "endpoint_reply_text shape os wrap_square ep socket text =
     and_await (Some (returning (decode_request (ep_source_parse ep) text))) (\<lambda>request.
     let request = request_with_caller (caller_from_kernel (os_kernel os)) request in
     and_await (Some (returning socket)) (\<lambda>path.
     and_await (submit shape os (ep_frame ep) (ep_debug ep) path request) (\<lambda>reply.
       Some (Ok (encode_reply wrap_square (ep_to_dotos ep) reply)))))"

definition reply_text ::
  "client_shape \<Rightarrow> operating_system \<Rightarrow> ('doc, 'b) dotos_documents \<Rightarrow> (string list \<Rightarrow> string)
     \<Rightarrow> ('p, 'r, 'f) endpoint \<Rightarrow> ('q, 's, 'g) endpoint \<Rightarrow> single_argument
     \<Rightarrow> (string, command_line_error) exec option" where
  "reply_text shape os d wrap_square working meta argument =
     and_await (map_option returning (request_input_text (os_read_to_string os) argument)) (\<lambda>text.
     and_await (map_option returning (request_head_from_text d text)) (\<lambda>head.
     and_await (Some (returning (request_head_route (ep_heads working) (ep_heads meta) head))) (\<lambda>socket.
       case socket of
         WorkingSocket \<Rightarrow>
           endpoint_reply_text shape os wrap_square working
             (working_socket (shape_sockets shape)) text
       | MetaSocket \<Rightarrow>
           endpoint_reply_text shape os wrap_square meta
             (meta_socket (shape_sockets shape)) text)))"

text \<open>The process: what it prints and its exit code; a panic is exit code 101.\<close>

record process_outcome =
  out_stdout :: string
  out_stderr :: string
  out_code :: u8

definition run_environment ::
  "client_shape \<Rightarrow> operating_system \<Rightarrow> ('doc, 'b) dotos_documents \<Rightarrow> (string list \<Rightarrow> string)
     \<Rightarrow> ('p, 'r, 'f) endpoint \<Rightarrow> ('q, 's, 'g) endpoint
     \<Rightarrow> (string, command_line_error) exec option" where
  "run_environment shape os d wrap_square working meta =
     and_await (Some (map_err (map_fault Argument) (from_environment (os_arguments os)))) (\<lambda>argument.
       reply_text shape os d wrap_square working meta argument)"

definition run_from_environment ::
  "(string \<Rightarrow> string option) \<Rightarrow> string \<Rightarrow> operating_system \<Rightarrow> ('doc, 'b) dotos_documents
     \<Rightarrow> (string list \<Rightarrow> string) \<Rightarrow> ('p, 'r, 'f) endpoint \<Rightarrow> ('q, 's, 'g) endpoint
     \<Rightarrow> process_outcome option" where
  "run_from_environment env_var binary_name os d wrap_square working meta =
     map_option (\<lambda>r. case r of
         Ok text \<Rightarrow> \<lparr>out_stdout = text @ [char_of (10 :: nat)], out_stderr = [], out_code = 0\<rparr>
       | Err (Failed e) \<Rightarrow>
           \<lparr>out_stdout = [], out_stderr = command_line_error_display e @ [char_of (10 :: nat)],
            out_code = exit_code e\<rparr>
       | Err Panicked \<Rightarrow> \<lparr>out_stdout = [], out_stderr = ''panicked'', out_code = 101\<rparr>)
       (run_environment (client_shape_from_binary_name env_var binary_name) os d wrap_square working meta)"

text \<open>
  \<^verbatim>\<open>signal_cli!\<close>: the first two forms emit a \<^verbatim>\<open>main\<close> that runs the client under the stringified
  name; the third a structure around the dispatch of the two contracts, with its methods.
\<close>

definition signal_cli_main ::
  "string \<Rightarrow> (string \<Rightarrow> string option) \<Rightarrow> operating_system \<Rightarrow> ('doc, 'b) dotos_documents
     \<Rightarrow> (string list \<Rightarrow> string) \<Rightarrow> ('p, 'r, 'f) endpoint \<Rightarrow> ('q, 's, 'g) endpoint
     \<Rightarrow> process_outcome option" where
  "signal_cli_main name env_var os d wrap_square working meta =
     run_from_environment env_var name os d wrap_square working meta"

record signal_cli_struct =
  cli_dispatch :: command_line_dispatch

definition signal_cli_new :: "string list \<Rightarrow> string list \<Rightarrow> signal_cli_struct" where
  "signal_cli_new working_HEADS meta_HEADS =
     \<lparr>cli_dispatch = command_line_dispatch_new working_HEADS meta_HEADS\<rparr>"

definition signal_cli_route_head ::
  "signal_cli_struct \<Rightarrow> string \<Rightarrow> (command_line_socket, command_line_route_error) result" where
  "signal_cli_route_head c head = dispatch_route_head (cli_dispatch c) head"

definition signal_cli_table :: "signal_cli_struct \<Rightarrow> route_table" where
  "signal_cli_table c = dispatch_table (cli_dispatch c)"

subsection \<open>The contract of a client frame\<close>

text \<open>
  \<open>framed bytes archive\<close>: the bytes are one length-prefixed message.  \<open>answer\<close> builds the frame a
  peer of the same contract replies with; \<open>lawful\<close> is what the archive library must satisfy for
  its bytes to be read back.
\<close>

definition framed :: "u8 list \<Rightarrow> u8 list \<Rightarrow> bool" where
  "framed bytes archive \<longleftrightarrow> length_prefix archive = (Ok bytes :: (u8 list, unit frame_error) result)"

lemma framed_iff:
  "framed bytes archive \<longleftrightarrow> length_prefix archive = (Ok bytes :: (u8 list, 'x frame_error) result)"
  by (simp add: framed_def length_prefix_Ok_iff)

text \<open>What reading a frame does, in terms of the bytes that are there and what comes after them.\<close>

definition announced :: "u8 list \<Rightarrow> nat" where
  "announced bytes = unat (u32_from_be_bytes (take 4 bytes))"

lemma read_frame_cases:
  "read_frame shape os c s =
     (let there = stream_incoming s; n = announced there in
      if length there < 4 then (short_read os s, s\<lparr>consumed := consumed s + length there\<rparr>)
      else if maximum_frame_bytes shape < n
      then (Some (Err (Failed (FrameTooLarge n (maximum_frame_bytes shape)))), s\<lparr>consumed := consumed s + 4\<rparr>)
      else if length there < 4 + n
      then (short_read os s, s\<lparr>consumed := consumed s + length there\<rparr>)
      else (Some (cf_decode c (take (4 + n) there)), s\<lparr>consumed := consumed s + (4 + n)\<rparr>))"
proof (cases "length (stream_incoming s) < 4")
  case True
  then show ?thesis
    by (cases "stream_ending s")
      (simp_all add: read_frame_def stream_read_exact_def short_read_def Let_def)
next
  case False
  let ?s = "s\<lparr>consumed := consumed s + 4\<rparr>"
  have rest: "stream_incoming ?s = drop 4 (stream_incoming s)" "stream_ending ?s = stream_ending s"
    by (simp_all add: stream_incoming_def stream_ending_def add.commute)
  have "take 4 (stream_incoming s) @ take n (drop 4 (stream_incoming s)) = take (4 + n) (stream_incoming s)" for n
    by (simp add: take_add)
  with False rest show ?thesis
    by (cases "stream_ending s")
      (auto simp: read_frame_def stream_read_exact_def short_read_def announced_def Let_def)
qed

lemma read_frame_framed:
  assumes "framed bytes archive" "cf_decode c bytes = Ok f"
    and "stream_incoming s = bytes @ rest" "length bytes \<le> 4 + maximum_frame_bytes shape"
  shows "read_frame shape os c s = (Some (Ok f), s\<lparr>consumed := consumed s + length bytes\<rparr>)"
proof -
  have bytes: "bytes = u32_to_be_bytes (of_nat (length archive)) @ archive"
    and small: "length archive < 2 ^ 32"
    using assms(1) by (auto simp: framed_def length_prefix_Ok_iff)
  then have "announced (stream_incoming s) = length archive"
    by (simp add: assms(3) announced_def)
  with assms bytes show ?thesis
    by (simp add: read_frame_cases Let_def)
qed

lemma framed_length: "framed bytes archive \<Longrightarrow> length bytes = 4 + length archive"
  by (auto simp: framed_def length_prefix_Ok_iff)

lemma framed_prefix:
  "4 \<le> length there \<and> announced there \<le> limit \<and> 4 + announced there \<le> length there
      \<and> framed (take (4 + announced there) there) archive
    \<longleftrightarrow> (\<exists>bytes rest. there = bytes @ rest \<and> framed bytes archive \<and> length archive \<le> limit)"
    (is "?read \<longleftrightarrow> ?sent")
proof
  assume read: ?read
  then have "length archive = announced there" using framed_length [of _ archive] by fastforce
  with read show ?sent
    by (intro exI [of _ "take (4 + announced there) there"] exI [of _ "drop (4 + announced there) there"])
      simp
next
  assume ?sent
  then obtain bytes rest where there: "there = bytes @ rest" and framed: "framed bytes archive"
      "length archive \<le> limit" by blast
  then have "bytes = u32_to_be_bytes (of_nat (length archive)) @ archive" "length archive < 2 ^ 32"
    by (auto simp: framed_def length_prefix_Ok_iff)
  then have "announced there = length archive" by (simp add: there announced_def)
  with framed framed_length [OF framed(1)] show ?read by (simp add: there)
qed

lemma write_frame_stream:
  "cf_encode c f = Inr sent \<Longrightarrow> snd (write_frame os c f s) = s\<lparr>written := written s @ sent\<rparr>"
  by (cases "os_write_all os sent"; cases "the (os_write_all os sent)")
    (simp_all add: write_frame_def stream_write_all_def stream_flush_def)

lemma write_frame_Ok_iff:
  "fst (write_frame os c f s) = Some (Inr u) \<longleftrightarrow>
     (\<exists>sent. cf_encode c f = Inr sent \<and> os_write_all os sent = Some (Inr ()) \<and> os_flush os = Some (Inr ()))"
proof (cases "cf_encode c f")
  case (Inr sent)
  then show ?thesis
    by (cases "os_write_all os sent"; cases "the (os_write_all os sent)"; cases "os_flush os";
        cases "the (os_flush os)")
      (auto simp: write_frame_def stream_write_all_def stream_flush_def)
qed (simp add: write_frame_def)

lemma reply_from_frame_Ok_iff [fault_iffs]:
  "exchange_reply_from_frame debug x f = Inr r \<longleftrightarrow> ex_body f = ExReply x r"
  "streaming_reply_from_frame debug' x g = Inr r \<longleftrightarrow> st_body g = StReply x r"
  by (auto simp: exchange_reply_from_frame_def streaming_reply_from_frame_def
      split: exchange_frame_body.splits streaming_frame_body.splits)

text \<open>One message: the length prefix, the header of a binding and a route, and the archive.\<close>

definition message :: "contract_binding \<Rightarrow> wire_route \<Rightarrow> u8 list \<Rightarrow> u8 list" where
  "message b route archive =
     u32_to_be_bytes (of_nat (8 + length archive)) @ header_to_le_bytes (header_bound b route) @ archive"

locale client_endpoint =
  fixes c :: "('p, 'r, 'f) client_frame"
    and binding :: contract_binding
    and answer :: "wire_route \<Rightarrow> exchange_identifier \<Rightarrow> 'r reply \<Rightarrow> 'f"
    and holds_reply :: "u8 list \<Rightarrow> exchange_identifier \<Rightarrow> 'r reply \<Rightarrow> bool"
    and lawful :: bool
  assumes decode_total: "never_panics (cf_decode c bytes)"
    and decode_framed: "cf_decode c bytes = Ok f \<Longrightarrow> \<exists>archive. framed bytes archive"
    and answer_accepted:
      "cf_reply_from_frame c expected (answer route found r) =
        (if found = expected then Ok r else Err (ReplyExchangeMismatch expected found))"
    and answer_decoded:
      "lawful \<Longrightarrow> cf_encode c (answer route found r) = Ok bytes \<Longrightarrow>
        cf_decode c bytes = Ok (answer route found r)"
    and decode_error: "cf_decode c bytes = Err (Failed e) \<Longrightarrow> \<exists>reason. e = SignalFrame reason"
    and reply_read:
      "(\<exists>f. cf_decode c bytes = Ok f \<and> cf_reply_from_frame c expected f = Ok r) \<longleftrightarrow>
        (\<exists>route archive. framed bytes (bound_archive binding route archive) \<and> holds_reply archive expected r)"
begin

lemma read_frame_consumes:
  "consumed (snd (read_frame shape os c s)) = consumed s
     + (let there = length (stream_incoming s); n = announced (stream_incoming s) in
        if there < 4 then there else if maximum_frame_bytes shape < n then 4 else min there (4 + n))"
  by (simp add: read_frame_cases Let_def)

lemma read_frame_waits:
  "fst (read_frame shape os c s) = None \<longleftrightarrow>
     stream_ending s = PeerSilent
     \<and> (let there = length (stream_incoming s); n = announced (stream_incoming s) in
        there < 4 \<or> n \<le> maximum_frame_bytes shape \<and> there < 4 + n)"
  by (auto simp: read_frame_cases Let_def short_read_def split: stream_end.splits)

lemma read_frame_never_panics: "awaited_never_panics (fst (read_frame shape os c s))"
  by (auto simp: read_frame_cases Let_def short_read_def decode_total split: stream_end.splits)

lemma read_frame_too_large:
  "fst (read_frame shape os c s) = Some (Err (Failed (FrameTooLarge n m))) \<longleftrightarrow>
     4 \<le> length (stream_incoming s) \<and> n = announced (stream_incoming s)
     \<and> m = maximum_frame_bytes shape \<and> m < n"
  by (auto simp: read_frame_cases Let_def short_read_def split: stream_end.splits dest!: decode_error)

lemma read_frame_answer:
  assumes "lawful" "cf_encode c (answer route found r) = Ok bytes"
    and "stream_incoming s = bytes @ rest"
    and "length bytes \<le> 4 + maximum_frame_bytes shape"
  shows "read_frame shape os c s
    = (Some (Ok (answer route found r)), s\<lparr>consumed := consumed s + length bytes\<rparr>)"
proof -
  have dec: "cf_decode c bytes = Ok (answer route found r)"
    by (rule answer_decoded [OF assms(1,2)])
  then obtain archive where "framed bytes archive" using decode_framed by blast
  from read_frame_framed [OF this dec assms(3,4)] show ?thesis .
qed

lemma submit_answered:
  assumes "lawful"
    and connect: "os_connect os socket = Some (Ok peer)"
    and request: "cf_request_frame c client_exchange req = Ok f" "cf_encode c f = Ok sent"
    and written: "os_write_all os sent = Some (Ok ())" "os_flush os = Some (Ok ())"
    and replied: "cf_encode c (answer route client_exchange r) = Ok bytes" "peer sent = (bytes @ rest, ending)"
    and "length bytes \<le> 4 + maximum_frame_bytes shape"
  shows "submit shape os c debug socket req = Some (returning (reply_payloads debug r))"
proof -
  let ?s = "\<lparr>stream_peer = peer, written = sent, consumed = 0\<rparr>"
  have "stream_incoming ?s = bytes @ rest"
    by (simp add: stream_incoming_def replied(2))
  from read_frame_answer [OF assms(1) replied(1) this assms(9), of os] show ?thesis
    by (simp add: submit_def stream_connect_def connect request write_frame_def
        stream_write_all_def stream_flush_def written answer_accepted)
qed

text \<open>The only way to a success: the peer sends a reply to the client's exchange under its binding.\<close>

lemma submit_Ok_iff:
  "submit shape os c debug socket req = Some (Ok ps) \<longleftrightarrow>
     (\<exists>peer f sent bytes rest ending route archive r.
        os_connect os socket = Some (Ok peer)
        \<and> cf_request_frame c client_exchange req = Ok f \<and> cf_encode c f = Ok sent
        \<and> os_write_all os sent = Some (Ok ()) \<and> os_flush os = Some (Ok ())
        \<and> peer sent = (bytes @ rest, ending)
        \<and> framed bytes (bound_archive binding route archive)
        \<and> length (bound_archive binding route archive) \<le> maximum_frame_bytes shape
        \<and> holds_reply archive client_exchange r \<and> reply_payloads debug r = Ok ps)"
proof -
  have read: "(\<exists>g. fst (read_frame shape os c s) = Some (Ok g) \<and> cf_reply_from_frame c expected g = Ok r) \<longleftrightarrow>
      (\<exists>bytes rest route archive. stream_incoming s = bytes @ rest
        \<and> framed bytes (bound_archive binding route archive)
        \<and> length (bound_archive binding route archive) \<le> maximum_frame_bytes shape
        \<and> holds_reply archive expected r)" for s expected r
  proof -
    let ?there = "stream_incoming s" and ?limit = "maximum_frame_bytes shape"
    have "(\<exists>g. fst (read_frame shape os c s) = Some (Ok g) \<and> cf_reply_from_frame c expected g = Ok r) \<longleftrightarrow>
        4 \<le> length ?there \<and> announced ?there \<le> ?limit \<and> 4 + announced ?there \<le> length ?there
        \<and> (\<exists>g. cf_decode c (take (4 + announced ?there) ?there) = Ok g \<and> cf_reply_from_frame c expected g = Ok r)"
      by (auto simp: read_frame_cases Let_def short_read_def split: stream_end.splits)
    also have "\<dots> \<longleftrightarrow> (\<exists>route archive.
        (4 \<le> length ?there \<and> announced ?there \<le> ?limit \<and> 4 + announced ?there \<le> length ?there
          \<and> framed (take (4 + announced ?there) ?there) (bound_archive binding route archive))
        \<and> holds_reply archive expected r)"
      unfolding reply_read by blast
    finally show ?thesis unfolding framed_prefix by blast
  qed
  have "submit shape os c debug socket req = Some (Ok ps) \<longleftrightarrow>
      (\<exists>peer f sent r. os_connect os socket = Some (Ok peer)
        \<and> cf_request_frame c client_exchange req = Ok f \<and> cf_encode c f = Ok sent
        \<and> os_write_all os sent = Some (Ok ()) \<and> os_flush os = Some (Ok ())
        \<and> (\<exists>g. fst (read_frame shape os c \<lparr>stream_peer = peer, written = sent, consumed = 0\<rparr>) = Some (Ok g)
            \<and> cf_reply_from_frame c client_exchange g = Ok r)
        \<and> reply_payloads debug r = Ok ps)"
    unfolding submit_def Let_def case_prod_beta
    by (auto simp: stream_connect_def write_frame_Ok_iff write_frame_stream fault_iffs)
  also have "\<dots> \<longleftrightarrow> (\<exists>peer f sent bytes rest ending route archive r.
        os_connect os socket = Some (Ok peer)
        \<and> cf_request_frame c client_exchange req = Ok f \<and> cf_encode c f = Ok sent
        \<and> os_write_all os sent = Some (Ok ()) \<and> os_flush os = Some (Ok ())
        \<and> peer sent = (bytes @ rest, ending)
        \<and> framed bytes (bound_archive binding route archive)
        \<and> length (bound_archive binding route archive) \<le> maximum_frame_bytes shape
        \<and> holds_reply archive client_exchange r \<and> reply_payloads debug r = Ok ps)"
    unfolding read by (auto simp: stream_incoming_def prod_eq_iff) blast+
  finally show ?thesis .
qed

text \<open>The same with the message spelled out.\<close>

lemma submit_message_iff:
  "submit shape os c debug socket req = Some (Ok ps) \<longleftrightarrow>
     (\<exists>peer f sent route archive rest ending r.
        os_connect os socket = Some (Ok peer)
        \<and> cf_request_frame c client_exchange req = Ok f \<and> cf_encode c f = Ok sent
        \<and> os_write_all os sent = Some (Ok ()) \<and> os_flush os = Some (Ok ())
        \<and> peer sent = (message binding route archive @ rest, ending)
        \<and> 8 + length archive < 2 ^ 32 \<and> 8 + length archive \<le> maximum_frame_bytes shape
        \<and> holds_reply archive client_exchange r \<and> reply_payloads debug r = Ok ps)"
proof -
  have framed: "framed bytes (bound_archive binding route archive) \<longleftrightarrow>
      bytes = message binding route archive \<and> 8 + length archive < 2 ^ 32" for bytes route archive
    by (auto simp: framed_def length_prefix_Ok_iff bound_archive_def message_def)
  have size: "length (bound_archive binding route archive) = 8 + length archive" for route archive
    by (simp add: bound_archive_def)
  show ?thesis unfolding submit_Ok_iff framed size by blast
qed

end

lemma client_steps_iffs:
  "cf_request_frame (exchange_client b lv debug serialize deserialize) x req = Ok f \<longleftrightarrow>
     (\<exists>route. request_route lv req = Ok route \<and> f = exchange_frame_new b route (ExRequest x req))"
  "cf_encode (exchange_client b lv debug serialize deserialize) f = Ok bytes \<longleftrightarrow>
     exchange_frame_encode_length_prefixed serialize f = Ok bytes"
  "cf_request_frame (streaming_client b lv debug' serialize' deserialize') x req = Ok g \<longleftrightarrow>
     (\<exists>route. request_route lv req = Ok route \<and> g = streaming_frame_new b route (StRequest x req))"
  "cf_encode (streaming_client b lv debug' serialize' deserialize') g = Ok bytes \<longleftrightarrow>
     streaming_frame_encode_length_prefixed serialize' g = Ok bytes"
  by (auto simp: exchange_client_def streaming_client_def exchange_request_frame_def
      streaming_request_frame_def fault_iffs)

lemma never_panics_client_decode:
  "never_panics m \<Longrightarrow> never_panics (map_err (map_fault signal_frame_error) m)"
  by simp

interpretation exchange_endpoint: client_endpoint
  "exchange_client binding log_variant debug serialize deserialize" binding
  "\<lambda>route exchange r. exchange_frame_new binding route (ExReply exchange r)"
  "\<lambda>archive exchange r. deserialize archive = Ok (ExReply exchange r)"
  "archive_law serialize deserialize"
  for binding log_variant debug serialize deserialize
proof
  fix bytes f expected route found r
  show "never_panics (cf_decode (exchange_client binding log_variant debug serialize deserialize) bytes)"
    by (simp add: exchange_client_def exchange_frames.decode_prefixed_never_panics)
  show "\<exists>archive. framed bytes archive"
    if "cf_decode (exchange_client binding log_variant debug serialize deserialize) bytes = Ok f"
    using that
    by (auto simp: exchange_client_def map_err_Inr_iff exchange_frames.decode_prefixed_Ok_iff
        framed_def length_prefix_Ok_iff)
  show "cf_reply_from_frame (exchange_client binding log_variant debug serialize deserialize) expected
      (exchange_frame_new binding route (ExReply found r))
    = (if found = expected then Ok r else Err (ReplyExchangeMismatch expected found))"
    by (simp add: exchange_client_def exchange_reply_from_frame_def exchange_frame_new_def)
  show "cf_decode (exchange_client binding log_variant debug serialize deserialize) bytes
      = Ok (exchange_frame_new binding route (ExReply found r))"
    if "archive_law serialize deserialize"
      "cf_encode (exchange_client binding log_variant debug serialize deserialize)
        (exchange_frame_new binding route (ExReply found r)) = Ok bytes"
    using that exchange_frames.decode_encoded_prefixed [OF that(1)]
    by (simp add: exchange_client_def map_err_Inr_iff)
  show "\<exists>reason. e = SignalFrame reason"
    if "cf_decode (exchange_client binding log_variant debug serialize deserialize) bytes = Err (Failed e)" for e
    using that by (auto simp: exchange_client_def map_fault_Failed_iff signal_frame_error_def)
  show "(\<exists>f. cf_decode (exchange_client binding log_variant debug serialize deserialize) bytes = Ok f
        \<and> cf_reply_from_frame (exchange_client binding log_variant debug serialize deserialize) expected f = Ok r)
      \<longleftrightarrow> (\<exists>route archive. framed bytes (bound_archive binding route archive)
        \<and> deserialize archive = Ok (ExReply expected r))"
    by (auto simp: exchange_client_def reply_from_frame_Ok_iff exchange_frame_new_def map_err_Inr_iff
        exchange_frames.decode_prefixed_Ok_iff exchange_frames.decode_Ok_iff framed_def length_prefix_Ok_iff)
qed

interpretation streaming_endpoint: client_endpoint
  "streaming_client binding log_variant debug serialize deserialize" binding
  "\<lambda>route exchange r. streaming_frame_new binding route (StReply exchange r)"
  "\<lambda>archive exchange r. deserialize archive = Ok (StReply exchange r)"
  "archive_law serialize deserialize"
  for binding log_variant debug serialize deserialize
proof
  fix bytes f expected route found r
  show "never_panics (cf_decode (streaming_client binding log_variant debug serialize deserialize) bytes)"
    by (simp add: streaming_client_def streaming_frames.decode_prefixed_never_panics)
  show "\<exists>archive. framed bytes archive"
    if "cf_decode (streaming_client binding log_variant debug serialize deserialize) bytes = Ok f"
    using that
    by (auto simp: streaming_client_def map_err_Inr_iff streaming_frames.decode_prefixed_Ok_iff
        framed_def length_prefix_Ok_iff)
  show "cf_reply_from_frame (streaming_client binding log_variant debug serialize deserialize) expected
      (streaming_frame_new binding route (StReply found r))
    = (if found = expected then Ok r else Err (ReplyExchangeMismatch expected found))"
    by (simp add: streaming_client_def streaming_reply_from_frame_def streaming_frame_new_def)
  show "cf_decode (streaming_client binding log_variant debug serialize deserialize) bytes
      = Ok (streaming_frame_new binding route (StReply found r))"
    if "archive_law serialize deserialize"
      "cf_encode (streaming_client binding log_variant debug serialize deserialize)
        (streaming_frame_new binding route (StReply found r)) = Ok bytes"
    using that streaming_frames.decode_encoded_prefixed [OF that(1)]
    by (simp add: streaming_client_def map_err_Inr_iff)
  show "\<exists>reason. e = SignalFrame reason"
    if "cf_decode (streaming_client binding log_variant debug serialize deserialize) bytes = Err (Failed e)" for e
    using that by (auto simp: streaming_client_def map_fault_Failed_iff signal_frame_error_def)
  show "(\<exists>f. cf_decode (streaming_client binding log_variant debug serialize deserialize) bytes = Ok f
        \<and> cf_reply_from_frame (streaming_client binding log_variant debug serialize deserialize) expected f = Ok r)
      \<longleftrightarrow> (\<exists>route archive. framed bytes (bound_archive binding route archive)
        \<and> deserialize archive = Ok (StReply expected r))"
    by (auto simp: streaming_client_def reply_from_frame_Ok_iff streaming_frame_new_def map_err_Inr_iff
        streaming_frames.decode_prefixed_Ok_iff streaming_frames.decode_Ok_iff framed_def length_prefix_Ok_iff)
qed

subsection \<open>Replies\<close>

lemma collect_payloads_Ok_iff [fault_iffs]:
  "collect_payloads debug acc subs = Inr ps \<longleftrightarrow> (\<exists>qs. subs = map SubOk qs \<and> ps = acc @ qs)"
proof (induction debug acc subs rule: collect_payloads.induct)
  case (2 debug acc p rest)
  show ?case using 2 by (auto simp: Cons_eq_map_conv)
qed auto

lemma reply_payloads_Ok_iff [fault_iffs]:
  "reply_payloads debug reply = Inr ps \<longleftrightarrow>
     (\<exists>outcome per_operation. reply = Accepted outcome per_operation
        \<and> ne_into_vec per_operation = map SubOk (ne_into_vec ps))"
  by (cases reply)
    (auto simp: reply_payloads_def and_then_Inr_iff collect_payloads_Ok_iff map_err_Inr_iff
      ne_try_from_vec_Ok_iff)

lemma reply_payloads_refused:
  "collect_payloads debug acc (map SubOk qs @ sub # rest) =
     (case sub of
        SubOk p \<Rightarrow> collect_payloads debug (acc @ qs @ [p]) rest
      | _ \<Rightarrow> Err (UnexpectedFrame ''accepted operation reply'' (debug sub)))"
  by (induction qs arbitrary: acc) (auto split: sub_reply.splits)

subsection \<open>Runs of the process\<close>

lemma submit_never_panics:
  assumes "\<And>bytes. never_panics (cf_decode c bytes)"
  shows "awaited_never_panics (submit shape os c debug path req)"
proof -
  have "awaited_never_panics (fst (read_frame shape os c s))" for s
    by (auto simp: read_frame_cases Let_def short_read_def assms split: stream_end.splits)
  moreover have "awaited_never_panics (fst (write_frame os c f s))" for f s
  proof (cases "cf_encode c f")
    case (Inr sent)
    then show ?thesis
      by (cases "os_write_all os sent"; cases "the (os_write_all os sent)"; cases "os_flush os")
        (auto simp: write_frame_def stream_write_all_def stream_flush_def)
  qed (simp add: write_frame_def)
  moreover have "awaited_never_panics (stream_connect os path)"
    by (cases "os_connect os path") (simp_all add: stream_connect_def)
  ultimately show ?thesis
    by (auto simp: submit_def Let_def case_prod_beta intro!: awaited_never_panics_and_await)
qed

lemma endpoint_reply_text_never_panics:
  assumes "\<And>bytes. never_panics (cf_decode (ep_frame ep) bytes)"
  shows "awaited_never_panics (endpoint_reply_text shape os wrap ep socket text)"
  by (auto simp: endpoint_reply_text_def Let_def
      intro!: awaited_never_panics_and_await submit_never_panics assms)

lemma awaited_never_panics_returned [simp]: "awaited_never_panics (map_option returning r)"
  by (cases r) simp_all

lemma run_environment_panics_iff:
  assumes "\<And>bytes. never_panics (cf_decode (ep_frame working) bytes)"
    and "\<And>bytes. never_panics (cf_decode (ep_frame meta) bytes)"
  shows "run_environment shape os d wrap working meta = Some (Err Panicked) \<longleftrightarrow> None \<in> set (os_arguments os)"
proof -
  have "awaited_never_panics (reply_text shape os d wrap working meta argument)" for argument
    by (auto simp: reply_text_def intro!: awaited_never_panics_and_await
        endpoint_reply_text_never_panics assms split: command_line_socket.splits)
  then show ?thesis
    by (auto simp: run_environment_def from_environment_def fault_iffs awaited_never_panics_def)
qed

text \<open>
  Every call of the operating system returns: a connection is made or refused, what is written is
  taken or refused, a file is read or not, and no peer stays silent with its connection open.
\<close>

definition calls_return :: "operating_system \<Rightarrow> bool" where
  "calls_return os \<longleftrightarrow>
     (\<forall>path. os_connect os path \<noteq> None) \<and> (\<forall>bytes. os_write_all os bytes \<noteq> None) \<and> os_flush os \<noteq> None
     \<and> (\<forall>file. os_read_to_string os file \<noteq> None)
     \<and> (\<forall>path peer bytes. os_connect os path = Some (Ok peer) \<longrightarrow> snd (peer bytes) \<noteq> PeerSilent)"

lemma and_await_returns:
  "m \<noteq> None \<Longrightarrow> (\<And>x. m = Some (Inr x) \<Longrightarrow> f x \<noteq> None) \<Longrightarrow> and_await m f \<noteq> None"
  by (auto simp: and_await_iffs(1))

lemma write_frame_returns:
  "calls_return os \<Longrightarrow> fst (write_frame os c f s) \<noteq> None
     \<and> stream_peer (snd (write_frame os c f s)) = stream_peer s"
proof (cases "cf_encode c f")
  case (Inr sent)
  assume "calls_return os"
  then obtain w l where "os_write_all os sent = Some w" "os_flush os = Some l"
    unfolding calls_return_def by blast
  with Inr show ?thesis
    by (cases w) (simp_all add: write_frame_def stream_write_all_def stream_flush_def)
qed (simp add: write_frame_def)

lemma submit_returns:
  assumes "calls_return os"
  shows "submit shape os c debug path req \<noteq> None"
proof -
  have read: "fst (read_frame shape os c s) \<noteq> None" if "stream_ending s \<noteq> PeerSilent" for s
    using that by (auto simp: read_frame_cases Let_def short_read_def split: stream_end.splits)
  have connected: "stream_connect os path \<noteq> None"
    using assms by (simp add: stream_connect_def calls_return_def)
  have "snd (stream_peer s bytes) \<noteq> PeerSilent" if "stream_connect os path = Some (Inr s)" for s bytes
    using that assms by (auto simp: stream_connect_def calls_return_def fault_iffs)
  then have "stream_ending (snd (write_frame os c f s)) \<noteq> PeerSilent"
    if "stream_connect os path = Some (Inr s)" for f s
    using that by (simp add: stream_ending_def conjunct2 [OF write_frame_returns [OF assms]])
  with connected read show ?thesis
    unfolding submit_def Let_def case_prod_beta
    by (intro and_await_returns) (simp_all add: conjunct1 [OF write_frame_returns [OF assms]] del: not_None_eq)
qed

lemma endpoint_reply_text_returns:
  "calls_return os \<Longrightarrow> endpoint_reply_text shape os wrap ep socket text \<noteq> None"
  unfolding endpoint_reply_text_def Let_def by (intro and_await_returns submit_returns) simp_all

lemma request_head_block_returns:
  "blocks_finite d size_of \<Longrightarrow> \<exists>r. request_head_block d b = Some r"
  using leading_cases [of d size_of b] request_head_leading [of d b] by auto

lemma run_environment_returns:
  assumes "calls_return os" "blocks_finite d size_of"
  shows "run_environment shape os d wrap working meta \<noteq> None"
proof -
  have "request_input_text (os_read_to_string os) argument \<noteq> None" for argument
    using assms(1) by (simp add: request_input_text_def Let_def calls_return_def)
  moreover have "request_head_from_text d request \<noteq> None" for request
    using request_head_block_returns [OF assms(2)]
    by (auto simp: request_head_from_text_def split: sum.splits option.splits)
  ultimately have "reply_text shape os d wrap working meta argument \<noteq> None" for argument
    unfolding reply_text_def
    by (intro and_await_returns) (auto split: command_line_socket.splits
        simp: endpoint_reply_text_returns [OF assms(1)] simp del: not_None_eq)
  then show ?thesis
    unfolding run_environment_def by (intro and_await_returns) simp_all
qed

text \<open>What an exit means.\<close>

definition truthful_exit ::
  "(string \<Rightarrow> string option) \<Rightarrow> string \<Rightarrow> operating_system \<Rightarrow> ('doc, 'b) dotos_documents
     \<Rightarrow> (string list \<Rightarrow> string) \<Rightarrow> ('p, 'r, 'f) endpoint \<Rightarrow> ('q, 's, 'g) endpoint \<Rightarrow> bool" where
  "truthful_exit env name os d wrap working meta \<longleftrightarrow>
     (\<forall>out. run_from_environment env name os d wrap working meta = Some out \<longrightarrow>
        out_code out \<in> {0, 64, 69, 70, 101}
        \<and> (out_code out = 101 \<longleftrightarrow> None \<in> set (os_arguments os))
        \<and> (out_code out = 0 \<longleftrightarrow> (\<exists>text.
             run_environment (client_shape_from_binary_name env name) os d wrap working meta = Some (Ok text)
             \<and> out_stdout out = text @ [char_of (10 :: nat)]))
        \<and> (out_code out = 0 \<longleftrightarrow> out_stderr out = [])
        \<and> (out_code out \<noteq> 0 \<longrightarrow> out_stdout out = []))"

lemma run_truthful:
  assumes "\<And>bytes. never_panics (cf_decode (ep_frame working) bytes)"
    and "\<And>bytes. never_panics (cf_decode (ep_frame meta) bytes)"
  shows "truthful_exit env name os d wrap working meta"
  unfolding truthful_exit_def
proof (intro allI impI)
  fix out
  assume out: "run_from_environment env name os d wrap working meta = Some out"
  let ?run = "run_environment (client_shape_from_binary_name env name) os d wrap working meta"
  have panics: "?run = Some (Err Panicked) \<longleftrightarrow> None \<in> set (os_arguments os)"
    by (rule run_environment_panics_iff [OF assms])
  have codes: "exit_code e \<noteq> 64 \<Longrightarrow> exit_code e \<noteq> 69 \<Longrightarrow> exit_code e = 70" "exit_code e \<noteq> 0" "exit_code e \<noteq> 101" for e
    by (cases e, simp_all)+
  obtain res where res: "?run = Some res"
    using out by (auto simp: run_from_environment_def)
  show "out_code out \<in> {0, 64, 69, 70, 101}
        \<and> (out_code out = 101 \<longleftrightarrow> None \<in> set (os_arguments os))
        \<and> (out_code out = 0 \<longleftrightarrow> (\<exists>text. ?run = Some (Ok text) \<and> out_stdout out = text @ [char_of (10 :: nat)]))
        \<and> (out_code out = 0 \<longleftrightarrow> out_stderr out = [])
        \<and> (out_code out \<noteq> 0 \<longrightarrow> out_stdout out = [])"
  proof (cases res)
    case (Inr reply)
    with out res panics show ?thesis by (auto simp: run_from_environment_def)
  next
    case (Inl e)
    with out res panics codes show ?thesis by (cases e) (auto simp: run_from_environment_def)
  qed
qed

subsection \<open>Properties\<close>

text \<open>
  C18.  A request submitted over an exchange channel returns the peer's answer: when the peer
  behind the socket replies to the bytes of the request with the frame of a reply to that exchange,
  within the frame limit and under the same contract, the client returns the payloads of that
  reply, whatever follows on the stream.
\<close>

theorem submit_returns_reply:
  fixes serialize :: "('p, 'r) exchange_frame_body \<Rightarrow> (u8 list, 'x) result"
  assumes "archive_law serialize deserialize"
    and "os_connect os socket = Some (Ok peer)"
    and "cf_request_frame (exchange_client b lv debug serialize deserialize) client_exchange req = Ok f"
    and "cf_encode (exchange_client b lv debug serialize deserialize) f = Ok sent"
    and "os_write_all os sent = Some (Ok ())" "os_flush os = Some (Ok ())"
    and "cf_encode (exchange_client b lv debug serialize deserialize)
          (exchange_frame_new b route (ExReply client_exchange r)) = Ok bytes"
    and "peer sent = (bytes @ rest, ending)"
    and "length bytes \<le> 4 + maximum_frame_bytes shape"
  shows "submit shape os (exchange_client b lv debug serialize deserialize) debug_sub socket req
    = Some (returning (reply_payloads debug_sub r))"
  by (rule exchange_endpoint.submit_answered [OF assms])

text \<open>
  C19.  The client reports success for nothing but a reply to its own request: submitting returns
  payloads exactly when the request was routed, framed and written, and the peer's bytes begin with
  one message within the frame limit whose header is packed for the client's own contract and whose
  archive is an accepted reply to the exchange the client chose, every operation of it successful;
  the payloads are those, in order.  So it is for both kinds of frame.
\<close>

theorem submit_accepts_only_own_reply:
  "(submit shape os (exchange_client b lv debug serialize deserialize) debug_sub socket req = Some (Ok ps)
      \<longleftrightarrow> (\<exists>peer route sent reply_route archive rest ending outcome subs.
        os_connect os socket = Some (Ok peer) \<and> request_route lv req = Ok route
        \<and> exchange_frame_encode_length_prefixed serialize
            (exchange_frame_new b route (ExRequest client_exchange req)) = Ok sent
        \<and> os_write_all os sent = Some (Ok ()) \<and> os_flush os = Some (Ok ())
        \<and> peer sent = (message b reply_route archive @ rest, ending)
        \<and> 8 + length archive < 2 ^ 32 \<and> 8 + length archive \<le> maximum_frame_bytes shape
        \<and> deserialize archive = Ok (ExReply client_exchange (Accepted outcome subs))
        \<and> ne_into_vec subs = map SubOk (ne_into_vec ps)))
   \<and> (submit shape os (streaming_client b lv debug' serialize' deserialize') debug_sub socket req = Some (Ok ps)
      \<longleftrightarrow> (\<exists>peer route sent reply_route archive rest ending outcome subs.
        os_connect os socket = Some (Ok peer) \<and> request_route lv req = Ok route
        \<and> streaming_frame_encode_length_prefixed serialize'
            (streaming_frame_new b route (StRequest client_exchange req)) = Ok sent
        \<and> os_write_all os sent = Some (Ok ()) \<and> os_flush os = Some (Ok ())
        \<and> peer sent = (message b reply_route archive @ rest, ending)
        \<and> 8 + length archive < 2 ^ 32 \<and> 8 + length archive \<le> maximum_frame_bytes shape
        \<and> deserialize' archive = Ok (StReply client_exchange (Accepted outcome subs))
        \<and> ne_into_vec subs = map SubOk (ne_into_vec ps)))"
proof
  show "submit shape os (exchange_client b lv debug serialize deserialize) debug_sub socket req = Some (Ok ps)
      \<longleftrightarrow> (\<exists>peer route sent reply_route archive rest ending outcome subs.
        os_connect os socket = Some (Ok peer) \<and> request_route lv req = Ok route
        \<and> exchange_frame_encode_length_prefixed serialize
            (exchange_frame_new b route (ExRequest client_exchange req)) = Ok sent
        \<and> os_write_all os sent = Some (Ok ()) \<and> os_flush os = Some (Ok ())
        \<and> peer sent = (message b reply_route archive @ rest, ending)
        \<and> 8 + length archive < 2 ^ 32 \<and> 8 + length archive \<le> maximum_frame_bytes shape
        \<and> deserialize archive = Ok (ExReply client_exchange (Accepted outcome subs))
        \<and> ne_into_vec subs = map SubOk (ne_into_vec ps))"
    unfolding exchange_endpoint.submit_message_iff client_steps_iffs reply_payloads_Ok_iff by blast
  show "submit shape os (streaming_client b lv debug' serialize' deserialize') debug_sub socket req = Some (Ok ps)
      \<longleftrightarrow> (\<exists>peer route sent reply_route archive rest ending outcome subs.
        os_connect os socket = Some (Ok peer) \<and> request_route lv req = Ok route
        \<and> streaming_frame_encode_length_prefixed serialize'
            (streaming_frame_new b route (StRequest client_exchange req)) = Ok sent
        \<and> os_write_all os sent = Some (Ok ()) \<and> os_flush os = Some (Ok ())
        \<and> peer sent = (message b reply_route archive @ rest, ending)
        \<and> 8 + length archive < 2 ^ 32 \<and> 8 + length archive \<le> maximum_frame_bytes shape
        \<and> deserialize' archive = Ok (StReply client_exchange (Accepted outcome subs))
        \<and> ne_into_vec subs = map SubOk (ne_into_vec ps))"
    unfolding streaming_endpoint.submit_message_iff client_steps_iffs reply_payloads_Ok_iff by blast
qed

text \<open>
  C20.  What reading a reply takes from the stream, whatever comes of it, success, error or waiting,
  and for both kinds of frame: everything there when fewer than four bytes are, the four bytes of
  the prefix alone when they announce more than the limit, and otherwise at most the announced
  message.  An announcement beyond the limit is refused with both numbers, the read never
  panics, and it waits only for a peer that stays silent before the announced end.
\<close>

theorem read_frame_bounded:
  "let there = length (stream_incoming s); n = announced (stream_incoming s);
       taken = (if there < 4 then there else if maximum_frame_bytes shape < n then 4 else min there (4 + n));
       ex = read_frame shape os (exchange_client b lv debug serialize deserialize) s;
       st = read_frame shape os (streaming_client b lv' debug' serialize' deserialize') s
   in consumed (snd ex) = consumed s + taken \<and> consumed (snd st) = consumed s + taken
    \<and> taken \<le> 4 + maximum_frame_bytes shape
    \<and> (fst ex = Some (Err (Failed (FrameTooLarge k m)))
        \<longleftrightarrow> 4 \<le> there \<and> k = n \<and> m = maximum_frame_bytes shape \<and> m < k)
    \<and> (fst st = Some (Err (Failed (FrameTooLarge k m)))
        \<longleftrightarrow> 4 \<le> there \<and> k = n \<and> m = maximum_frame_bytes shape \<and> m < k)
    \<and> awaited_never_panics (fst ex) \<and> awaited_never_panics (fst st)
    \<and> (fst ex = None \<longleftrightarrow> stream_ending s = PeerSilent
        \<and> (there < 4 \<or> n \<le> maximum_frame_bytes shape \<and> there < 4 + n))
    \<and> (fst st = None \<longleftrightarrow> fst ex = None)"
  by (simp add: Let_def exchange_endpoint.read_frame_consumes streaming_endpoint.read_frame_consumes
      exchange_endpoint.read_frame_too_large streaming_endpoint.read_frame_too_large
      exchange_endpoint.read_frame_never_panics streaming_endpoint.read_frame_never_panics
      exchange_endpoint.read_frame_waits streaming_endpoint.read_frame_waits min_le_iff_disj)

text \<open>
  C33.  The client reports success only for an accepted reply whose every operation succeeded, with
  the payloads in the order of the operations; a rejected request is reported with its reason.
\<close>

theorem reply_payloads_exact:
  "(reply_payloads debug reply = Ok ps
      \<longleftrightarrow> (\<exists>outcome per_operation. reply = Accepted outcome per_operation
            \<and> ne_into_vec per_operation = map SubOk (ne_into_vec ps)))
   \<and> reply_payloads debug (Rejected reason)
      = Err (RequestRejected (request_rejection_reason_display reason))
   \<and> collect_payloads debug [] (map SubOk qs @ SubFailed why detail # rest)
      = Err (UnexpectedFrame ''accepted operation reply'' (debug (SubFailed why detail)))"
  by (simp add: reply_payloads_Ok_iff reply_payloads_refused) (simp add: reply_payloads_def)


text \<open>
  C17.  The client process ends: when every call of the operating system returns and no peer stays
  silent with its connection open, a run from any environment and any arguments has an outcome, as
  long as nested blocks of a document are finite, the depth of the native stack apart.  The condition on the peer is needed: a peer
  that accepts the connection and the request and then sends less than a prefix without closing keeps
  the client waiting for ever.
\<close>

theorem client_process_ends:
  assumes "blocks_finite d size_of"
  shows "(calls_return os \<longrightarrow> (\<exists>out. run_from_environment env name os d wrap working meta = Some out))
    \<and> (os_connect os socket = Some (Ok peer) \<and> cf_request_frame c client_exchange req = Ok f
        \<and> cf_encode c f = Ok sent \<and> os_write_all os sent = Some (Ok ()) \<and> os_flush os = Some (Ok ())
        \<and> length (fst (peer sent)) < 4 \<and> snd (peer sent) = PeerSilent
        \<longrightarrow> submit shape os c debug socket req = None)"
proof (intro conjI impI)
  assume "calls_return os"
  from run_environment_returns [OF this assms] show "\<exists>out. run_from_environment env name os d wrap working meta = Some out"
    by (auto simp: run_from_environment_def)
qed (auto simp: submit_def stream_connect_def write_frame_def stream_write_all_def stream_flush_def
    read_frame_cases stream_incoming_def stream_ending_def short_read_def Let_def)

subsection \<open>Witnesses\<close>

definition sample_binding :: contract_binding where
  "sample_binding = contract_binding_new (ContractId (nonzero_u32_of 7)) (WireRevision (nonzero_u16_of 1))"

definition sample_request :: "bool request" where
  "sample_request = request_from_payload True"

definition sample_reply :: "bool reply" where
  "sample_reply = reply_committed (ne_single (SubOk False))"

definition sample_serialize :: "(bool, bool) exchange_frame_body \<Rightarrow> (u8 list, unit) result" where
  "sample_serialize v =
     (if v = ExRequest client_exchange sample_request then Ok [1]
      else if v = ExReply client_exchange sample_reply then Ok [2] else Err ())"

definition sample_deserialize :: "u8 list \<Rightarrow> ((bool, bool) exchange_frame_body, unit) result" where
  "sample_deserialize bs =
     (if bs = [1] then Ok (ExRequest client_exchange sample_request)
      else if bs = [2] then Ok (ExReply client_exchange sample_reply) else Err ())"

definition sample_message :: "u8 \<Rightarrow> u8 list" where
  "sample_message v = u32_to_be_bytes 9 @ header_to_le_bytes
     (header_bound sample_binding (wire_route_new (RootCode 0) (VariantCode 0))) @ [v]"

definition sample_client :: "(bool, bool, (bool, bool) bound_exchange_frame) client_frame" where
  "sample_client = exchange_client sample_binding (\<lambda>_. 0) (\<lambda>_. ''body'') sample_serialize sample_deserialize"

definition sample_system :: operating_system where
  "sample_system =
     \<lparr>os_connect = (\<lambda>path. Some (Ok (\<lambda>sent.
        (if sent = sample_message 1 then sample_message 2 @ [9] else [], PeerCloses)))),
      os_write_all = (\<lambda>_. Some (Ok ())), os_flush = Some (Ok ()),
      os_end_of_file = ''failed to fill whole buffer'',
      os_read_to_string = (\<lambda>_. Some (Err ''no such file'')), os_arguments = [Some ''client''],
      os_kernel = \<lparr>k_process_id = 5, k_parent_id = 1, k_current_exe = None,
        k_read_link_exe = (\<lambda>_. None), k_read_stat = (\<lambda>_. None), k_to_string_lossy = (\<lambda>s. s)\<rparr>\<rparr>"

lemma sample_law: "archive_law sample_serialize sample_deserialize"
  by (auto simp: archive_law_def sample_serialize_def sample_deserialize_def split: if_splits)

lemma sample_returns: "calls_return sample_system"
  by (auto simp: calls_return_def sample_system_def)

lemma sample_frames:
  "cf_request_frame sample_client client_exchange sample_request
    = Ok (exchange_frame_new sample_binding (wire_route_new (RootCode 0) (VariantCode 0))
        (ExRequest client_exchange sample_request))"
  "cf_encode sample_client (exchange_frame_new sample_binding (wire_route_new (RootCode 0) (VariantCode 0))
      (ExRequest client_exchange sample_request)) = Ok (sample_message 1)"
  "cf_encode sample_client (exchange_frame_new sample_binding (wire_route_new (RootCode 0) (VariantCode 0))
      (ExReply client_exchange sample_reply)) = Ok (sample_message 2)"
proof -
  have "try_from_log_variant 0 = Ok (wire_route_new (RootCode 0) (VariantCode 0))"
    by (simp add: try_from_log_variant_def)
  then show "cf_request_frame sample_client client_exchange sample_request
    = Ok (exchange_frame_new sample_binding (wire_route_new (RootCode 0) (VariantCode 0))
        (ExRequest client_exchange sample_request))"
    by (simp add: sample_client_def exchange_client_def exchange_request_frame_def request_route_def)
qed (simp_all add: sample_client_def exchange_client_def exchange_frame_encode_length_prefixed_def
    exchange_frame_encode_def exchange_frame_new_def encode_frame_archive_def encode_archive_def
    length_prefix_def u32_try_from_def sample_serialize_def sample_message_def)

theorem submit_returns_reply_witness:
  "submit (client_shape_new (sockets_working_only ''/run/x'')) sample_system
      (exchange_client sample_binding (\<lambda>_. 0) (\<lambda>_. ''body'') sample_serialize sample_deserialize)
      (\<lambda>_. ''sub'') ''/run/x'' sample_request
    = Some (Ok (ne_single False))"
proof -
  note frames = sample_frames [unfolded sample_client_def]
  have "submit (client_shape_new (sockets_working_only ''/run/x'')) sample_system
      (exchange_client sample_binding (\<lambda>_. 0) (\<lambda>_. ''body'') sample_serialize sample_deserialize)
      (\<lambda>_. ''sub'') ''/run/x'' sample_request = Some (returning (reply_payloads (\<lambda>_. ''sub'') sample_reply))"
  proof (rule submit_returns_reply [OF sample_law _ frames(1,2) _ _ frames(3)])
    show "os_connect sample_system ''/run/x''
        = Some (Ok (\<lambda>sent. (if sent = sample_message 1 then sample_message 2 @ [9] else [], PeerCloses)))"
      by (simp add: sample_system_def)
    show "(if sample_message 1 = sample_message 1 then sample_message 2 @ [9] else [], PeerCloses)
        = (sample_message 2 @ [9], PeerCloses)"
      by simp
    show "length (sample_message 2) \<le> 4 + maximum_frame_bytes (client_shape_new (sockets_working_only ''/run/x''))"
      by (simp add: client_shape_new_def DEFAULT_MAXIMUM_FRAME_BYTES_def sample_message_def)
  qed (simp_all add: sample_system_def)
  then show ?thesis
    by (simp add: reply_payloads_def sample_reply_def reply_committed_def ne_single_def)
qed

definition sample_exchange_endpoint :: "(bool, bool, (bool, bool) bound_exchange_frame) endpoint" where
  "sample_exchange_endpoint =
     \<lparr>ep_frame = sample_client, ep_heads = [''Deposit''], ep_source_parse = (\<lambda>_. Err ''x''),
      ep_to_dotos = (\<lambda>_. ''t''), ep_debug = (\<lambda>_. ''d'')\<rparr>"

definition sample_streaming_endpoint :: "(bool, bool, (bool, bool, bool) bound_streaming_frame) endpoint" where
  "sample_streaming_endpoint =
     \<lparr>ep_frame = streaming_client sample_binding (\<lambda>_. 0) (\<lambda>_. ''b'')
        (\<lambda>_. Err ()) (\<lambda>_. (Err () :: ((bool, bool, bool) streaming_frame_body, unit) result)),
      ep_heads = [], ep_source_parse = (\<lambda>_. Err ''x''), ep_to_dotos = (\<lambda>_. ''t''), ep_debug = (\<lambda>_. ''d'')\<rparr>"


definition silent_system :: operating_system where
  "silent_system = sample_system\<lparr>os_connect := \<lambda>_. Some (Ok (\<lambda>_. ([0, 0], PeerSilent)))\<rparr>"

theorem client_process_ends_witness:
  "(\<exists>out. run_from_environment (\<lambda>_. None) ''persona-ledger'' sample_system sample_documents concat
      sample_exchange_endpoint sample_streaming_endpoint = Some out)
   \<and> submit (client_shape_new (sockets_working_only ''/run/x'')) silent_system sample_client (\<lambda>_. ''sub'')
      ''/run/x'' sample_request = None"
proof -
  have ends: "\<exists>out. run_from_environment (\<lambda>_. None) ''persona-ledger'' sample_system sample_documents concat
      sample_exchange_endpoint sample_streaming_endpoint = Some out"
    by (rule client_process_ends [OF sample_documents_finite, THEN conjunct1, THEN mp, OF sample_returns])
  have "submit (client_shape_new (sockets_working_only ''/run/x'')) silent_system sample_client (\<lambda>_. ''sub'')
      ''/run/x'' sample_request = None"
    by (rule conjunct2 [OF client_process_ends [OF sample_documents_finite,
          where f = "exchange_frame_new sample_binding (wire_route_new (RootCode 0) (VariantCode 0))
            (ExRequest client_exchange sample_request)"
          and peer = "\<lambda>_. ([0, 0], PeerSilent)" and sent = "sample_message 1"], THEN mp])
      (simp add: sample_frames silent_system_def sample_system_def)
  with ends show ?thesis by blast
qed

end
