(* ===== verification/Text_Request.thy ===== *)
theory Text_Request
  imports Client Operation_Dispatch
begin

text \<open>
  The text of an operation on its way through the client (\<^verbatim>\<open>RequestInput\<close>, \<^verbatim>\<open>RequestHead\<close> and
  \<^verbatim>\<open>decode_request\<close> of \<^verbatim>\<open>src/command_line.rs\<close>, the request codec of \<^verbatim>\<open>src/request.rs\<close> and the
  generated operation codec of \<^verbatim>\<open>macros/src/emit.rs\<close>), and the types of what the generated codecs
  read: a value read from any block is a value of the emitted enum, so that every emitted match on it
  has an arm.
\<close>

subsection \<open>Typed values\<close>

text \<open>The codec of each payload type reads only values of its type.\<close>

definition decoders_typed ::
  "(syn_type \<Rightarrow> 'v \<Rightarrow> bool) \<Rightarrow> (syn_type \<Rightarrow> 'b \<Rightarrow> ('v, 'x dotos_decode_error) result) \<Rightarrow> bool" where
  "decoders_typed has_type decode_payload \<longleftrightarrow>
     (\<forall>ty block p. decode_payload ty block = Ok p \<longrightarrow> has_type ty p)"

lemma member_map_filter: "y \<in> set (List.map_filter f xs) \<longleftrightarrow> (\<exists>x \<in> set xs. f x = Some y)"
  by (force simp: List.map_filter_def)

lemma codec_arms:
  "(name, t) \<in> set (decode_payload_arms (emit_payload_enum_codec enum kinds)) \<longleftrightarrow> (name, Some t) \<in> set kinds"
  "name \<in> set (decode_unit_arms (emit_payload_enum_codec enum kinds)) \<longleftrightarrow> (name, None) \<in> set kinds"
  by (auto simp: emit_payload_enum_codec_def member_map_filter split: if_splits intro: rev_bexI)

lemma decoded_typed:
  assumes "decoders_typed has_type decode_payload"
    and "generated_from_dotos_block d decode_payload (emit_payload_enum_codec enum kinds) block = Ok v"
  shows "typed_value has_type kinds v"
proof (cases "demote_to_string d block")
  case None
  with assms(2) obtain name t child p where
      "map_of (decode_payload_arms (emit_payload_enum_codec enum kinds)) name = Some t"
      "decode_payload t child = Ok p" "v = payload_value name p"
    by (auto simp: generated_from_dotos_block_def fault_iffs split: option.splits)
  then show ?thesis
    using assms(1) codec_arms(1) map_of_SomeD
    by (fastforce simp: typed_value_def payload_value_def decoders_typed_def)
next
  case (Some name)
  with assms(2) show ?thesis
    by (auto simp: generated_from_dotos_block_def typed_value_def unit_value_def codec_arms(2)
        split: if_splits intro!: exI [of _ None])
qed

lemma typed_to_dotos:
  assumes "typed_value has_type kinds v" "distinct (map fst kinds)"
  shows "\<exists>text. generated_to_dotos d encode_payload (emit_payload_enum_codec enum kinds) v = Some text"
proof -
  obtain ty where ty: "(variant_of v, ty) \<in> set kinds"
      "case ty of None \<Rightarrow> payload_of v = None | Some t \<Rightarrow> (\<exists>p. payload_of v = Some p \<and> has_type t p)"
    using assms(1) by (auto simp: typed_value_def)
  then show ?thesis
    using codec_lookup(1) [OF assms(2) ty(1)]
    by (auto simp: generated_to_dotos_def emit_payload_enum_codec_def split: option.splits)
qed

subsection \<open>The codecs of a channel\<close>

lemma emitted_codecs:
  assumes "emit spec = Ok e"
  shows "em_request_codec e = emit_payload_enum_codec (request_name (channel_request (augment_with_observable spec)))
      (payload_kinds (channel_request (augment_with_observable spec)))"
    and "em_reply_codec e = emit_payload_enum_codec (reply_name (channel_reply (augment_with_observable spec)))
      (payload_kinds_reply (channel_reply (augment_with_observable spec)))"
    and "em_reply_kind e = emit_reply_kind (channel_reply (augment_with_observable spec))"
    and "em_heads e = emitted_operations spec"
  using assms by (auto simp: emit_def Let_def and_then_Inr_iff emit_heads_def emitted_operations_def)

lemma request_kinds_names: "map fst (payload_kinds (channel_request (augment_with_observable spec))) = emitted_operations spec"
  by (simp add: payload_kinds_def emitted_operations_def comp_def)

lemma reply_kinds_distinct:
  "validate spec = Ok () \<Longrightarrow> distinct (map fst (payload_kinds_reply (channel_reply (augment_with_observable spec))))"
  using augment_channel_wf [of spec]
  by (simp add: validate_Ok_iff channel_wf_def names_wf_def payload_kinds_reply_def comp_def)

lemma reply_kind_member:
  assumes "emit spec = Ok e"
  shows "generated_kind (em_reply_kind e) v = Some k \<longleftrightarrow> k = variant_of v
    \<and> k \<in> fst ` set (payload_kinds_reply (channel_reply (augment_with_observable spec)))"
proof -
  have "map_of (map (\<lambda>v. (yv_name v, yv_name v)) vs) name = Some k \<longleftrightarrow> k = name \<and> k \<in> yv_name ` set vs"
    for vs name
    by (induction vs) auto
  then show ?thesis
    by (auto simp: generated_kind_def emitted_codecs(3) [OF assms] emit_reply_kind_def
        payload_kinds_reply_def image_iff)
qed

subsection \<open>The text of one operation\<close>

text \<open>
  What the client asks of \<^verbatim>\<open>dotos\<close> documents: the text of a parenthesised record is a document of one
  block, which is no sequence and whose first child is the atom of the record's name.
\<close>

definition reads_record :: "('doc, 'b) dotos_documents \<Rightarrow> (string \<Rightarrow> 'b) \<Rightarrow> string \<Rightarrow> string \<Rightarrow> bool" where
  "reads_record docs parse name text \<longleftrightarrow>
     starts_with text ''(''
     \<and> (\<exists>doc. document_parse docs text = Ok doc \<and> document_root_object_at docs doc 0 = Some (parse text))
     \<and> block_as_square docs (parse text) = None
     \<and> block_root_object_at docs (parse text) 0 = Some (parse name)
     \<and> block_demote_to_string docs (parse name) = Some name"

definition documents_law ::
  "(string \<Rightarrow> bool) \<Rightarrow> (string \<Rightarrow> 'b) \<Rightarrow> ('doc, 'b) dotos_documents \<Rightarrow> ('b, 'x) dotos_blocks \<Rightarrow> bool" where
  "documents_law block_text parse docs d \<longleftrightarrow>
     (\<forall>name value. identifier_text name \<and> block_text value \<longrightarrow>
        reads_record docs parse name (wrap_parenthesis d [name, value]))"

text \<open>
  \<^verbatim>\<open>DotosSource::parse\<close> for the requests of a channel: the request codec over the generated operation
  codec on the block of the text.  \<open>no_fault\<close> drops the panic, which the codec does not reach
  (\<open>generated_decode_never_panics\<close>).
\<close>

definition no_fault :: "'e \<Rightarrow> ('a, 'e) exec \<Rightarrow> ('a, 'e) result" where
  "no_fault unreached r =
     (case r of Ok v \<Rightarrow> Ok v | Err (Failed e) \<Rightarrow> Err e | Err Panicked \<Rightarrow> Err unreached)"

definition channel_source_parse ::
  "('doc, 'b) dotos_documents \<Rightarrow> (string \<Rightarrow> 'b) \<Rightarrow> ('b, 'x) dotos_blocks
     \<Rightarrow> (syn_type \<Rightarrow> 'b \<Rightarrow> ('v, 'x dotos_decode_error) result) \<Rightarrow> emitted_codec
     \<Rightarrow> ('x dotos_decode_error \<Rightarrow> string) \<Rightarrow> string \<Rightarrow> ('v enum_value request, string) result" where
  "channel_source_parse docs parse d decode_payload codec display text =
     map_err display (request_from_dotos_block (block_as_square docs)
       (\<lambda>block. no_fault (ExpectedAtom (codec_enum codec))
          (generated_from_dotos_block d decode_payload codec block))
       (parse text))"

lemma record_not_blank: "starts_with text ''('' \<Longrightarrow> trim_start text = text"
  by (auto simp: starts_with_iff code_def split: list.splits intro!: trim_start_no_ws)

lemma record_input:
  "reads_record docs parse name text \<Longrightarrow> request_input_text read_to_string (SingleArgument text) = Some (Ok text)"
  by (simp add: reads_record_def request_input_text_def record_not_blank)

lemma record_head:
  assumes "reads_record docs parse name text"
  shows "request_head_from_text docs text = Some (Ok name)"
proof -
  obtain doc where "document_parse docs text = Ok doc" "document_root_object_at docs doc 0 = Some (parse text)"
    using assms by (auto simp: reads_record_def)
  with assms show ?thesis
    by (simp add: request_head_from_text_def reads_record_def request_head_here head_atom_def)
qed

lemma operation_text:
  assumes "dotos_blocks_law block_text parse d"
    and "payload_codec_law has_type block_text parse encode_payload decode_payload"
    and "documents_law block_text parse docs d" "identifier_text (variant_of v)"
    and "typed_value has_type (payload_kinds block) v" "distinct (map fst (payload_kinds block))"
    and "generated_to_dotos d encode_payload (emit_payload_enum_codec enum (payload_kinds block)) v = Some text"
  shows "reads_record docs parse (variant_of v) text"
proof -
  obtain t p where t: "(variant_of v, Some t) \<in> set (payload_kinds block)" "payload_of v = Some p" "has_type t p"
    using assms(5) by (fastforce simp: typed_value_def payload_kinds_def)
  then have "text = wrap_parenthesis d [variant_of v, encode_payload t p]"
    using assms(7) codec_lookup(1) [OF assms(6) t(1)]
    by (simp add: generated_to_dotos_def emit_payload_enum_codec_def)
  moreover have "block_text (encode_payload t p)"
    using assms(2) t(3) by (simp add: payload_codec_law_def)
  ultimately show ?thesis using assms(3,4) by (simp add: documents_law_def)
qed

lemma operation_source_parse:
  assumes "dotos_blocks_law block_text parse d"
    and "payload_codec_law has_type block_text parse encode_payload decode_payload"
    and "distinct (map fst kinds)" "typed_value has_type kinds v" "identifier_text (variant_of v)"
    and "generated_to_dotos d encode_payload (emit_payload_enum_codec enum kinds) v = Some text"
    and "reads_record docs parse (variant_of v) text"
  shows "channel_source_parse docs parse d decode_payload (emit_payload_enum_codec enum kinds) display text
    = Ok (request_from_payload v)"
proof -
  have "generated_from_dotos_block d decode_payload (emit_payload_enum_codec enum kinds) (parse text) = Ok v"
    using generated_codec_roundtrip [OF assms(1-5), of enum] assms(6) by auto
  with assms(7) show ?thesis
    by (simp add: channel_source_parse_def request_from_dotos_block_def reads_record_def no_fault_def
        request_from_payload_def)
qed

subsection \<open>Properties\<close>

text \<open>
  C28.  Type soundness of the generated codecs: what the text codecs of a validated channel read is a
  value of the emitted enum with a payload of the declared type, whatever the block; and on such a
  value no emitted match is stuck: an operation has its head, its kind, its route byte and its text,
  a reply its kind and its text, and the generated dispatch of that operation cannot panic.
\<close>

theorem decoded_values_typed:
  assumes "validate spec = Ok ()" "emit spec = (Ok e :: (emitted_channel, syn_error) exec)"
    and "decoders_typed has_type decode_payload"
  shows "(generated_from_dotos_block d decode_payload (em_request_codec e) block = Ok v \<longrightarrow>
      typed_value has_type (payload_kinds (channel_request (augment_with_observable spec))) v
      \<and> (\<exists>i < length (em_heads e). variant_of v = em_heads e ! i
          \<and> generated_log_variant (em_log_variant_arms e) v = ucast (word_of_nat i :: u8))
      \<and> generated_kind (em_request_kind e) v = Some (variant_of v)
      \<and> generated_to_dotos d encode_payload (em_request_codec e) v \<noteq> None
      \<and> never_panics (dispatch_checks e b fd ff (header_bound c r) (Some (request_from_payload v))))
    \<and> (generated_from_dotos_block d decode_payload (em_reply_codec e) block = Ok w \<longrightarrow>
      typed_value has_type (payload_kinds_reply (channel_reply (augment_with_observable spec))) w
      \<and> generated_kind (em_reply_kind e) w = Some (variant_of w)
      \<and> generated_to_dotos d encode_payload (em_reply_codec e) w \<noteq> None)"
proof (intro conjI impI)
  let ?ops = "payload_kinds (channel_request (augment_with_observable spec))"
  let ?replies = "payload_kinds_reply (channel_reply (augment_with_observable spec))"
  note codecs = emitted_codecs [OF assms(2)]
  have distinct: "distinct (map fst ?ops)"
    using emitted_operations_distinct [OF assms(1)] by (simp add: request_kinds_names)
  {
    assume "generated_from_dotos_block d decode_payload (em_request_codec e) block = Ok v"
    then show typed: "typed_value has_type ?ops v"
      using decoded_typed [OF assms(3)] by (simp add: codecs)
    then have "variant_of v \<in> fst ` set ?ops" by (force simp: typed_value_def)
    then have member: "variant_of v \<in> set (emitted_operations spec)"
      by (simp flip: request_kinds_names)
    then obtain i where i: "i < length (emitted_operations spec)" "variant_of v = emitted_operations spec ! i"
      by (metis in_set_conv_nth)
    then show "\<exists>i < length (em_heads e). variant_of v = em_heads e ! i
        \<and> generated_log_variant (em_log_variant_arms e) v = ucast (word_of_nat i :: u8)"
      using emitted_root [OF assms(1,2) i] by (auto simp: codecs generated_log_variant_root)
    show "generated_kind (em_request_kind e) v = Some (variant_of v)"
      using member by (simp add: emitted_kind_member [OF assms(2)])
    show "generated_to_dotos d encode_payload (em_request_codec e) v \<noteq> None"
      using typed_to_dotos [OF typed distinct] by (simp add: codecs)
    show "never_panics (dispatch_checks e b fd ff (header_bound c r) (Some (request_from_payload v)))"
      by (rule dispatch_checks_never_panics [OF assms(2)])
        (use member in \<open>auto simp: request_from_payload_def ne_single_def\<close>)
  next
    assume "generated_from_dotos_block d decode_payload (em_reply_codec e) block = Ok w"
    then show typed: "typed_value has_type ?replies w"
      using decoded_typed [OF assms(3)] by (simp add: codecs)
    then show "generated_kind (em_reply_kind e) w = Some (variant_of w)"
      by (force simp: reply_kind_member [OF assms(2)] typed_value_def)
    show "generated_to_dotos d encode_payload (em_reply_codec e) w \<noteq> None"
      using typed_to_dotos [OF typed reply_kinds_distinct [OF assms(1)]] by (simp add: codecs)
  }
qed

theorem decoded_values_typed_witness:
  "\<exists>e v. emit ledger_channel = (Ok e :: (emitted_channel, syn_error) exec)
    \<and> generated_from_dotos_block text_blocks (\<lambda>_ b. Ok b) (em_request_codec e) ''(Balance account)'' = Ok v
    \<and> typed_value (\<lambda>_ _. True) (payload_kinds (channel_request (augment_with_observable ledger_channel))) v
    \<and> generated_kind (em_request_kind e) v = Some ''Balance''"
proof -
  obtain e where e: "emit ledger_channel = (Ok e :: (emitted_channel, syn_error) exec)"
    using ledger_emits by blast
  have typed: "decoders_typed (\<lambda>_ _. True) (\<lambda>_ b. (Ok b :: (string, unit dotos_decode_error) result))"
    by (simp add: decoders_typed_def)
  have "generated_from_dotos_block text_blocks (\<lambda>_ b. Ok b) (em_request_codec e) ''(Balance account)''
      = Ok (payload_value ''Balance'' ''account'')"
    by (simp add: emitted_codecs [OF e] augment_with_observable_def ledger_channel_def Let_def
        generated_from_dotos_block_def emit_payload_enum_codec_def payload_kinds_def text_blocks_def
        starts_with_def List.map_filter_simps)
  with decoded_values_typed [OF ledger_channel_valid e typed] e show ?thesis
    by (fastforce simp: payload_value_def)
qed

end
