(* ===== verification/Spec2Isabelle.thy ===== *)
theory Spec2Isabelle
  imports Contract_Binding Frame_Error Short_Header Exchange Version Namespace Non_Empty Caller
    Request Reply Frame_Codec Observer_Set Channel_Model Channel_Validate Channel_Emit
    Channel_Parse Channel_Runtime Operation_Dispatch Refusals Command_Line Client Text_Request
begin

text \<open>
  A verification development of \<^verbatim>\<open>signal-frame\<close>, the wire frame crate, and of its proc-macro crate
  \<^verbatim>\<open>signal-frame-macros\<close>.

  The program.  A contract crate declares a channel with \<^verbatim>\<open>signal_channel!\<close>
  (\<^verbatim>\<open>macros/src\<close>): the macro parses the declaration, validates it, injects the observer surface
  when the channel is observable, and emits the payload enums, their routing tables, the frame
  aliases, the text codecs, the checked dispatch and the observer runtime.  At run time a request
  becomes a frame: a four byte big-endian length, an eight byte little-endian header that packs the
  contract, its revision and the route of the request's first operation, and the archived body
  (\<^verbatim>\<open>src/frame.rs\<close>, \<^verbatim>\<open>src/binding.rs\<close>).  A daemon decodes the frame under its own binding, and the
  generated dispatch hands its handler only an operation that the header announced.  The
  command-line client (\<^verbatim>\<open>src/command_line.rs\<close>) reads one argument, finds the head of the request
  text, chooses the working or the meta socket by it, sends one request and prints the reply.

  Theories, in the order they build on each other.

  \<^item> \<^verbatim>\<open>Prelude\<close>, \<^verbatim>\<open>Machine_Words\<close>, \<^verbatim>\<open>Text\<close>: results and panics, byte encodings of words and the
    non-zero integers, and the string operations of the standard library the program uses.
  \<^item> \<^verbatim>\<open>Contract_Binding\<close>, \<^verbatim>\<open>Frame_Error\<close>, \<^verbatim>\<open>Short_Header\<close>: \<^verbatim>\<open>src/binding.rs\<close>, \<^verbatim>\<open>src/error.rs\<close> and
    the headers of \<^verbatim>\<open>src/frame.rs\<close>.  The lemmas show that packing and unpacking are inverse.
  \<^item> \<^verbatim>\<open>Exchange\<close>: \<^verbatim>\<open>src/exchange.rs\<close>, \<^verbatim>\<open>src/identity.rs\<close>, \<^verbatim>\<open>src/subscription.rs\<close>; \<^verbatim>\<open>Version\<close>,
    \<^verbatim>\<open>Namespace\<close>, \<^verbatim>\<open>Non_Empty\<close>, \<^verbatim>\<open>Caller\<close>, \<^verbatim>\<open>Request\<close>, \<^verbatim>\<open>Reply\<close>: the files of these names.
  \<^item> \<^verbatim>\<open>Dotos_Text\<close>: the interface of the external \<^verbatim>\<open>dotos\<close> crate.
  \<^item> \<^verbatim>\<open>Frame_Codec\<close>: \<^verbatim>\<open>src/frame.rs\<close>.  Framing is a bijection, decoding accepts exactly the encodings
    of the contract, and no archive decoder runs before the header is validated.
  \<^item> \<^verbatim>\<open>Observer_Set\<close>: the generated observer runtime and \<^verbatim>\<open>src/observable.rs\<close>, as a refinement of a
    finite map from tokens to filters.
  \<^item> \<^verbatim>\<open>Channel_Model\<close>, \<^verbatim>\<open>Channel_Validate\<close>, \<^verbatim>\<open>Channel_Emit\<close>, \<^verbatim>\<open>Channel_Parse\<close>: \<^verbatim>\<open>model.rs\<close>,
    \<^verbatim>\<open>validate.rs\<close>, \<^verbatim>\<open>emit.rs\<close>, and \<^verbatim>\<open>parse.rs\<close> with \<^verbatim>\<open>lib.rs\<close>, of \<^verbatim>\<open>macros/src\<close>.  Validation decides
    a declarative well-formedness, augmentation preserves it, emission of a validated channel
    cannot panic, parsing inverts printing, and the whole expansion ends on every input.
  \<^item> \<^verbatim>\<open>Channel_Runtime\<close>, \<^verbatim>\<open>Operation_Dispatch\<close>: what the emitted code does, with
    \<^verbatim>\<open>src/operation_dispatch.rs\<close> and \<^verbatim>\<open>src/operation_heads.rs\<close>.  \<^verbatim>\<open>Refusals\<close> gives the exact
    error of every message and of every dispatch, and \<^verbatim>\<open>Text_Request\<close> the type soundness of the
    generated codecs with the reading of an operation's text by a client.
  \<^item> \<^verbatim>\<open>Command_Line\<close>, \<^verbatim>\<open>Client\<close>: the two halves of \<^verbatim>\<open>src/command_line.rs\<close>.
    A client submits one request over a connection of its own and succeeds exactly on a reply to it;
    its exit code tells what happened, and it ends unless the system or the peer keeps it waiting.
  \<^item> This theory: the command-line client from the text of a request to the text of its reply, the way
    from a declaration to the dispatch of its operations, and the routing of request texts between
    the two emitted channels of a client.

  The other side.  The loop of a daemon, its handlers and the callback of a publication belong to
  the users of the crate and are not modelled: a handler, a delivery callback and the peer of a
  connection are arguments, and the theorems hold for all of them or name what they must do.

  Interfaces.  The locales \<open>lane_counter\<close> (monotone counters), \<open>draining_iterator\<close>,
  \<open>route_projection\<close> (\<^verbatim>\<open>LogVariant\<close>), \<open>bound_frame\<close> (the two frame kinds), \<open>observable_set\<close>,
  \<open>client_endpoint\<close> (\<^verbatim>\<open>ClientFrame\<close>) state the contracts that several definitions share; each is
  interpreted on the definitions of the code.

  Conventions.  \<^verbatim>\<open>Result\<close> is a sum, a panic is a value (\<open>Panicked\<close>), machine integers are words, \<^verbatim>\<open>usize\<close>
  is a natural number and its conversions to \<^verbatim>\<open>u32\<close> and \<^verbatim>\<open>u8\<close> are written out.  A string is its bytes.
  Emitted token streams are records of what the macro computes into them, and a value of an
  emitted enum is its variant's name with its payload.

  Bounds.  Frames hold fewer than \<open>2 ^ 32\<close> bytes after the prefix, counters and observer tokens
  are distinct for \<open>2 ^ 64\<close> steps, and routes distinguish 256 operations; each bound is that of the
  code and is a condition or a part of the theorem.  No fuel is used: the recursions that the
  input controls (the head of a request, the loops of the parser) are \<open>partial_function\<close>s whose
  result \<^const>\<open>None\<close> is divergence, and the termination theorems exclude it under the law that
  nested blocks and parsed tokens are finite.

  Parameters.  The archive library \<^verbatim>\<open>rkyv\<close> is a pair of functions, with the round trip
  \<open>archive_law\<close> where a theorem needs it; \<^verbatim>\<open>dotos\<close> is a record of block operations with
  \<open>dotos_blocks_law\<close> (\<open>block_text\<close> holds of the texts of one block), and its documents and the type
  codecs of payloads have \<open>documents_law\<close> and \<open>payload_codec_law\<close>, which asks of the codec of each
  payload type that it reads back the values of that type (\<open>has_type\<close>); \<^verbatim>\<open>syn\<close> is a record of stream
  operations with \<open>syn_consuming\<close> and \<open>syn_tokens_law\<close>; the operating system is a record of what the
  program asks it.  Its calls may not return, which is the outcome \<^const>\<open>None\<close>; a peer sends bytes and
  then closes, fails or stays silent (\<open>stream_end\<close>), and an argument of the command line that is not
  Unicode is \<^const>\<open>None\<close> and panics the process.  The witnesses instantiate each with concrete functions.

  Not modelled: the layout of archives, the derives and trait bounds of the emitted Rust, failures
  of writing to the standard streams, the depth of the native stack, and asynchrony (the generated dispatch awaits its handler once, at
  the end).  Overflow of \<^verbatim>\<open>usize\<close> additions on lengths of existing buffers is not represented.
\<close>

subsection \<open>From the text of an operation to the text of its reply\<close>

lemma client_request_frame:
  assumes "validate spec = Ok ()" "emit spec = Ok e"
    and "i < length (emitted_operations spec)" "variant_of v = emitted_operations spec ! i"
  shows "cf_request_frame (streaming_client b (generated_log_variant (em_log_variant_arms e)) debug ser de)
      exchange (request_with_caller caller (request_from_payload v))
    = Ok (streaming_frame_new b (operation_route i)
        (StRequest exchange (request_with_caller caller (request_from_payload v))))"
  using into_frame_route [OF assms]
  by (simp add: streaming_client_def streaming_request_frame_def request_route_def
      request_with_caller_def request_from_payload_def)

lemma request_with_caller_payloads [simp]:
  "req_payloads (request_with_caller caller (request_from_payload v)) = ne_single v"
  by (simp add: request_with_caller_def request_from_payload_def)

text \<open>What the client writes is dispatched to the handler as the operation it was given.\<close>

lemma sent_request_dispatched:
  assumes "validate spec = Ok ()" "emit spec = Ok e"
    and "i < length (emitted_operations spec)" "i < 256" "variant_of v = emitted_operations spec ! i"
    and "archive_law serialize deserialize"
    and "streaming_frame_encode_length_prefixed serialize (streaming_frame_new b (operation_route i)
          (StRequest exchange (request_with_caller caller (request_from_payload v)))) = Ok sent"
  shows "\<exists>frame. streaming_frame_decode_length_prefixed b deserialize sent = Ok frame
    \<and> (\<forall>st. streaming_dispatch e b fd ff handler frame st = handler (Validated v) st)"
proof -
  let ?req = "request_with_caller caller (request_from_payload v)"
  have "accepts_operation spec b (header_bound b (operation_route i)) (Some ?req) v"
    using assms(3-5) by (auto simp: accepts_operation_def)
  then have "streaming_dispatch e b fd ff handler
      (streaming_frame_new b (operation_route i) (StRequest exchange ?req)) st = handler (Validated v) st" for st
    by (simp add: streaming_dispatch_def dispatch_def streaming_frame_new_def
        dispatch_checks_accepted [OF assms(1,2)])
  with streaming_frames.decode_encoded_prefixed [OF assms(6,7)] show ?thesis by blast
qed

text \<open>The process around the submission: the argument is the text of the operation.\<close>

lemma run_environment_served:
  assumes "os_arguments os = [Some program, Some text]" "reads_record docs parse (variant_of v) text"
    and "variant_of v \<in> set (ep_heads working)" "variant_of v \<notin> set (ep_heads meta)"
    and "ep_source_parse working text = Ok (request_from_payload v)"
    and "sock_working (shape_sockets shape) = Some socket"
    and "submit shape os (ep_frame working) (ep_debug working) socket
        (request_with_caller (caller_from_kernel (os_kernel os)) (request_from_payload v))
      = Some (Ok (ne_single r))"
  shows "run_environment shape os docs wrap_square working meta = Some (Ok (ep_to_dotos working r))"
proof -
  have "\<not> starts_with text ''--''"
    using assms(2) by (auto simp: reads_record_def starts_with_iff)
  then have argument: "from_environment (os_arguments os) = Ok (SingleArgument text)"
    by (simp add: assms(1) from_environment_def from_arguments_def)
  have route: "request_head_route (ep_heads working) (ep_heads meta) (variant_of v) = Ok WorkingSocket"
    using assms(3,4) by (simp add: request_head_route_Ok_iff)
  have "endpoint_reply_text shape os wrap_square working (working_socket (shape_sockets shape)) text
      = Some (Ok (ep_to_dotos working r))"
    using assms(7)
    by (simp add: endpoint_reply_text_def decode_request_def assms(5) working_socket_def assms(6)
        encode_reply_def ne_single_def)
  then show ?thesis
    by (simp add: run_environment_def argument reply_text_def record_input [OF assms(2)]
        record_head [OF assms(2)] route)
qed


definition deposit_request :: "(nat + string) enum_value request" where
  "deposit_request = request_with_caller None (request_from_payload (payload_value ''Deposit'' (Inl 3)))"

definition deposit_reply :: "ident reply" where
  "deposit_reply = reply_committed (ne_single (SubOk ''Deposited''))"

type_synonym deposit_body = "((nat + string) enum_value, ident, unit) streaming_frame_body"

definition deposit_serialize :: "deposit_body \<Rightarrow> (u8 list, unit) result" where
  "deposit_serialize v =
     (if v = StRequest client_exchange deposit_request then Ok [1]
      else if v = StReply client_exchange deposit_reply then Ok [2] else Err ())"

definition deposit_deserialize :: "u8 list \<Rightarrow> (deposit_body, unit) result" where
  "deposit_deserialize bs =
     (if bs = [1] then Ok (StRequest client_exchange deposit_request)
      else if bs = [2] then Ok (StReply client_exchange deposit_reply) else Err ())"

lemma deposit_encodes:
  "streaming_frame_encode_length_prefixed deposit_serialize
     (streaming_frame_new b route (StRequest client_exchange deposit_request))
    = Ok (u32_to_be_bytes 9 @ header_to_le_bytes (header_bound b route) @ [1])"
  "streaming_frame_encode_length_prefixed deposit_serialize
     (streaming_frame_new b route (StReply client_exchange deposit_reply))
    = Ok (u32_to_be_bytes 9 @ header_to_le_bytes (header_bound b route) @ [2])"
  by (simp_all add: streaming_frame_encode_length_prefixed_def streaming_frame_encode_def
      streaming_frame_new_def encode_frame_archive_def encode_archive_def length_prefix_def
      u32_try_from_def deposit_serialize_def)

text \<open>Documents over the texts themselves.\<close>

definition text_documents :: "(string, string) dotos_documents" where
  "text_documents =
     \<lparr>document_parse = (\<lambda>text. Ok text),
      document_root_object_at = (\<lambda>doc n. if n = 0 then Some doc else None),
      block_as_square = (\<lambda>_. None),
      block_root_object_at = (\<lambda>block n.
        if n = 0 \<and> starts_with block ''('' then Some (takeWhile (\<lambda>c. c \<noteq> CHR '' '') (tl block)) else None),
      block_demote_to_string = demote_to_string text_blocks\<rparr>"

lemma text_documents_law: "documents_law (\<lambda>_. True) (\<lambda>s. s) text_documents text_blocks"
proof -
  have "takeWhile (\<lambda>c. c \<noteq> CHR '' '') (name @ CHR '' '' # rest) = name" if "identifier_text name" for name rest
    using identifier_text_no_space [OF that] by (simp add: takeWhile_append2)
  then show ?thesis
    by (auto simp: documents_law_def reads_record_def text_documents_def text_blocks_def starts_with_def
        identifier_text_head)
qed

definition ledger_endpoint ::
  "emitted_channel \<Rightarrow> ((nat + string) enum_value, ident,
     ((nat + string) enum_value, ident, unit) bound_streaming_frame) endpoint" where
  "ledger_endpoint e =
     \<lparr>ep_frame = streaming_client test_binding (generated_log_variant (em_log_variant_arms e)) (\<lambda>_. ''body'')
        deposit_serialize deposit_deserialize,
      ep_heads = em_heads e,
      ep_source_parse = channel_source_parse text_documents (\<lambda>s. s) text_blocks ledger_decode
        (em_request_codec e) (\<lambda>_. ''unreadable''),
      ep_to_dotos = (\<lambda>r. r), ep_debug = (\<lambda>_. ''sub'')\<rparr>"

text \<open>A ledger behind the socket: it answers the deposit of three and then closes.\<close>

definition deposit_bytes :: "u8 \<Rightarrow> u8 \<Rightarrow> u8 list" where
  "deposit_bytes route archive = u32_to_be_bytes 9
     @ header_to_le_bytes (header_bound test_binding (wire_route_new (RootCode route) (VariantCode 0))) @ [archive]"

definition deposit_system :: operating_system where
  "deposit_system = sample_system\<lparr>os_arguments := [Some ''ledger'', Some ''(Deposit 111)''],
     os_connect := \<lambda>_. Some (Ok (\<lambda>sent. (if sent = deposit_bytes 0 1 then deposit_bytes 0 2 else [], PeerCloses)))\<rparr>"


text \<open>
  C2.  From the declaration to the wire: the macro expands the tokens of every well-formed declaration
  of at most 256 operations, and the code it emits serves exactly the declared operations, the
  observer verbs added when the channel is observable.  The frame alias is the exchange frame
  when the declaration has no events and is not observable, and the streaming frame otherwise;
  on either kind, the frame that \<^verbatim>\<open>into_frame\<close> builds from any of the operations is dispatched to the
  handler as that operation, whatever the exchange and the handler.
\<close>

theorem declared_channel_dispatches:
  assumes "syn_tokens_law stream ident_ok type_ok ty y" "printable ident_ok type_ok spec"
    and "channel_wf spec" "length (emitted_operations spec) \<le> 256"
  shows "\<exists>e. expand_signal_channel y (stream (channel_tokens ty spec)) = Some (Expanded e)
    \<and> em_heads e = map rv_name (request_variants (channel_request spec))
        @ (if channel_observable spec = None then [] else [''Tap'', ''Untap''])
    \<and> ((\<exists>contract request reply. em_frame e = ExchangeAlias contract request reply)
        \<longleftrightarrow> channel_event spec = None \<and> channel_observable spec = None)
    \<and> (\<forall>v exchange st. variant_of v \<in> set (em_heads e) \<longrightarrow>
        (\<exists>f. exchange_into_frame e b exchange v = Ok f
          \<and> exchange_dispatch e b fd ff handler f st = handler (Validated v) st)
        \<and> (\<exists>g. streaming_into_frame e b exchange v = Ok g
          \<and> streaming_dispatch e b fd ff handler g st = handler (Validated v) st))"
proof -
  have valid: "validate spec = Ok ()" using assms(3) by (simp add: validate_Ok_iff)
  obtain e where e: "emit spec = (Ok e :: (emitted_channel, syn_error) exec)"
    using emit_wf_Ok [OF assms(3)] by blast
  have "expand_signal_channel y (stream (channel_tokens ty spec)) = Some (Expanded e)"
    by (simp add: expand_signal_channel_def valid e
        syn_parse_reads [OF assms(1) reads_channel [OF assms(1,2)]])
  moreover have "em_heads e = map rv_name (request_variants (channel_request spec))
      @ (if channel_observable spec = None then [] else [''Tap'', ''Untap''])"
    unfolding emitted_codecs(4) [OF e] emitted_operations_def
    by (cases "channel_observable spec") (auto simp: augment_unobserved augment_observed)
  moreover have "(\<exists>contract request reply. em_frame e = ExchangeAlias contract request reply)
      \<longleftrightarrow> channel_event spec = None \<and> channel_observable spec = None"
    by (rule emitted_frame_kind [OF assms(3) e])
  moreover have "(\<exists>f. exchange_into_frame e b exchange v = Ok f
        \<and> exchange_dispatch e b fd ff handler f st = handler (Validated v) st)
      \<and> (\<exists>g. streaming_into_frame e b exchange v = Ok g
        \<and> streaming_dispatch e b fd ff handler g st = handler (Validated v) st)"
    if member: "variant_of v \<in> set (em_heads e)" for v exchange st
  proof -
    obtain i where i: "i < length (emitted_operations spec)" "variant_of v = emitted_operations spec ! i"
      using member by (metis emitted_codecs(4) [OF e] in_set_conv_nth)
    moreover have "i < 256" using i(1) assms(4) by simp
    ultimately show ?thesis
      by (simp add: exchange_into_frame_def streaming_into_frame_def into_frame_route [OF valid e i]
          exchange_dispatch_def streaming_dispatch_def exchange_frame_new_def streaming_frame_new_def
          dispatch_built [OF valid e i])
  qed
  ultimately show ?thesis by blast
qed

theorem declared_channel_dispatches_witness:
  "\<exists>e f. expand_signal_channel token_stream feed_tokens = Some (Expanded e)
    \<and> streaming_into_frame e test_binding client_exchange (payload_value ''Untap'' 7)
        = Ok (f :: (nat enum_value, ident, unit) bound_streaming_frame)
    \<and> streaming_dispatch e test_binding operation_dispatch_error_display
        (frame_error_display :: unit frame_error \<Rightarrow> string) test_handler f 5
        = (Ok ''Untap'', 6)"
proof -
  have small: "length (emitted_operations feed_channel) \<le> 256"
    by (simp add: emitted_operations_def feed_channel_def augment_with_observable_def Let_def)
  obtain e where e: "expand_signal_channel token_stream feed_tokens = Some (Expanded e)"
      "em_heads e = map rv_name (request_variants (channel_request feed_channel))
        @ (if channel_observable feed_channel = None then [] else [''Tap'', ''Untap''])"
    and serves: "\<forall>v exchange st. variant_of v \<in> set (em_heads e) \<longrightarrow>
      (\<exists>f. exchange_into_frame e test_binding exchange v
          = Ok (f :: (nat enum_value, ident) bound_exchange_frame)
        \<and> exchange_dispatch e test_binding operation_dispatch_error_display
            (frame_error_display :: unit frame_error \<Rightarrow> string) test_handler f st = test_handler (Validated v) st)
      \<and> (\<exists>g. streaming_into_frame e test_binding exchange v
          = Ok (g :: (nat enum_value, ident, unit) bound_streaming_frame)
        \<and> streaming_dispatch e test_binding operation_dispatch_error_display
            (frame_error_display :: unit frame_error \<Rightarrow> string) test_handler g st = test_handler (Validated v) st)"
    using declared_channel_dispatches [OF token_stream_law feed_printable feed_wf small, of test_binding
        operation_dispatch_error_display "frame_error_display :: unit frame_error \<Rightarrow> string" test_handler,
        folded feed_tokens_def]
    by blast
  have "variant_of (payload_value ''Untap'' (7 :: nat)) \<in> set (em_heads e)"
    by (simp add: e(2) feed_channel_def payload_value_def)
  from serves [rule_format, OF this, of client_exchange 5] e(1) show ?thesis
    by (auto simp: test_handler_def payload_value_def)
qed

text \<open>
  C21.  Routing of a request text between two channels: the heads are those of the operations as
  emitted, a head of exactly one of the channels selects that channel's socket, and the observer
  verbs of two observable channels are ambiguous, so that the client can send them to neither.
\<close>

theorem client_routes_emitted_heads:
  assumes "emit spec = (Ok e :: (emitted_channel, syn_error) exec)"
    and "emit spec' = (Ok e' :: (emitted_channel, syn_error) exec)"
  shows "(request_head_route (em_heads e) (em_heads e') head = Ok WorkingSocket
        \<longleftrightarrow> head \<in> set (emitted_operations spec) \<and> head \<notin> set (emitted_operations spec'))
    \<and> (request_head_route (em_heads e) (em_heads e') head = Ok MetaSocket
        \<longleftrightarrow> head \<in> set (emitted_operations spec') \<and> head \<notin> set (emitted_operations spec))
    \<and> (channel_observable spec \<noteq> None \<and> channel_observable spec' \<noteq> None \<and> head \<in> {''Tap'', ''Untap''}
        \<longrightarrow> request_head_route (em_heads e) (em_heads e') head
          = Err (RouteFailed (command_line_route_error_display (AmbiguousRequestHead head))))"
proof -
  have heads: "em_heads e = emitted_operations spec" "em_heads e' = emitted_operations spec'"
    using assms by (auto simp: emit_def Let_def and_then_Inr_iff emit_heads_def emitted_operations_def)
  have verbs: "''Tap'' \<in> set (emitted_operations sp)" "''Untap'' \<in> set (emitted_operations sp)"
    if "channel_observable sp \<noteq> None" for sp
    using that by (auto simp: emitted_operations_def augment_observed)
  have "request_head_route (em_heads e) (em_heads e') head
      = Err (RouteFailed (command_line_route_error_display (AmbiguousRequestHead head)))"
    if "channel_observable spec \<noteq> None" "channel_observable spec' \<noteq> None" "head \<in> {''Tap'', ''Untap''}"
    using verbs [OF that(1)] verbs [OF that(2)] that(3)
    by (auto simp: heads request_head_route_def dispatch_route_head_def
        command_line_dispatch_new_def route_table_new_def route_head_def)
  then show ?thesis by (simp add: heads request_head_route_Ok_iff)
qed

theorem client_routes_emitted_heads_witness:
  "\<exists>e. emit ledger_channel = (Ok e :: (emitted_channel, syn_error) exec)
    \<and> request_head_route (em_heads e) (em_heads e) ''Tap''
        = Err (RouteFailed ''request head appears in both working and meta contracts: Tap'')"
proof -
  obtain e where e: "emit ledger_channel = (Ok e :: (emitted_channel, syn_error) exec)"
    using ledger_emits by blast
  from client_routes_emitted_heads [OF e e, of "''Tap''"] show ?thesis
    using e by (simp add: ledger_channel_def)
qed

end
